(* ===== verification/Prelude.thy ===== *)
theory Prelude
  imports
    "HOL-Library.State_Monad"
    "HOL-Library.AList"
    "HOL-Library.Char_ord"
    "HOL-Library.List_Lexorder"
    "HOL-Library.Multiset"
begin

text \<open>
  Shared ground of the development: the parts of the Go language and of its standard
  library that the power control service uses, and the lemmas about lists, association
  lists and strings that the components share.

  \<^item> Go strings are byte strings, modelled as \<^typ>\<open>string\<close>; \<open>strings.ToLower\<close>,
    \<open>Contains\<close>, \<open>HasPrefix\<close>, \<open>Split\<close>, \<open>LastIndex\<close>, \<open>TrimRightFunc\<close>,
    \<open>strconv.Itoa\<close> and \<open>strconv.Atoi\<close> are defined on ASCII text, which is what xnames,
    keys and Redfish values are.
  \<^item> A Go slice that can be nil is an \<open>'a list option\<close> (\<open>None\<close> is nil), a slice
    whose nilness nothing observes is a list.
  \<^item> A Go map is an association list with distinct keys. Go leaves the order of a
    \<open>range\<close> over a map open: \<open>shuffle\<close> turns a number into a permutation, and every
    permutation is the image of a number, so a theorem for every number covers every
    iteration order.
\<close>

named_theorems keeps_intro "rules that show an action keeps an invariant of its state"
named_theorems run_simps "equations that run an action on a state"

type_synonym err = string
type_synonym uuid = string
type_synonym xname = string

section \<open>Strings\<close>

definition is_digit :: "char \<Rightarrow> bool" where
  "is_digit c \<longleftrightarrow> CHR ''0'' \<le> c \<and> c \<le> CHR ''9''"

definition is_letter :: "char \<Rightarrow> bool" where
  "is_letter c \<longleftrightarrow> (CHR ''a'' \<le> c \<and> c \<le> CHR ''z'') \<or> (CHR ''A'' \<le> c \<and> c \<le> CHR ''Z'')"

definition lower_char :: "char \<Rightarrow> char" where
  "lower_char c = (if CHR ''A'' \<le> c \<and> c \<le> CHR ''Z'' then char_of (of_char c + 32 :: nat) else c)"

definition to_lower :: "string \<Rightarrow> string" where
  "to_lower s = map lower_char s"

definition has_prefix :: "string \<Rightarrow> string \<Rightarrow> bool" where
  "has_prefix s p \<longleftrightarrow> take (length p) s = p"

fun str_contains :: "string \<Rightarrow> string \<Rightarrow> bool" where
  "str_contains [] sub = (sub = [])"
| "str_contains (c # cs) sub = (has_prefix (c # cs) sub \<or> str_contains cs sub)"

definition trim_right :: "(char \<Rightarrow> bool) \<Rightarrow> string \<Rightarrow> string" where
  "trim_right P s = rev (dropWhile P (rev s))"

fun split_on :: "char \<Rightarrow> string \<Rightarrow> string list" where
  "split_on sep [] = [[]]"
| "split_on sep (c # cs) =
     (if c = sep then [] # split_on sep cs
      else case split_on sep cs of [] \<Rightarrow> [[c]] | w # ws \<Rightarrow> (c # w) # ws)"

definition after_last :: "char \<Rightarrow> string \<Rightarrow> string" where
  "after_last sep s = rev (takeWhile (\<lambda>c. c \<noteq> sep) (rev s))"

definition digit_char :: "nat \<Rightarrow> char" where
  "digit_char n = char_of (48 + n :: nat)"

fun nat_str :: "nat \<Rightarrow> string" where
  "nat_str n = (if n < 10 then [digit_char n] else nat_str (n div 10) @ [digit_char (n mod 10)])"

declare nat_str.simps [simp del]

definition itoa :: "int \<Rightarrow> string" where
  "itoa i = (if i < 0 then CHR ''-'' # nat_str (nat (- i)) else nat_str (nat i))"

definition digits_val :: "string \<Rightarrow> nat" where
  "digits_val s = foldl (\<lambda>a c. 10 * a + (of_char c - 48)) 0 s"

text \<open>\<open>strconv.Atoi\<close> as far as keys need it: an unsigned decimal, \<open>None\<close> for an error.\<close>

definition atoi_nat :: "string \<Rightarrow> nat option" where
  "atoi_nat s = (if s \<noteq> [] \<and> list_all is_digit s then Some (digits_val s) else None)"

fun join :: "string \<Rightarrow> string list \<Rightarrow> string" where
  "join sep [] = []"
| "join sep [w] = w"
| "join sep (w # v # ws) = w @ sep @ join sep (v # ws)"

lemma is_digit_digit_char: "n < 10 \<Longrightarrow> is_digit (digit_char n)"
  by (auto simp: is_digit_def digit_char_def less_eq_char_def)

lemma of_char_digit_char: "n < 10 \<Longrightarrow> of_char (digit_char n) = 48 + (n :: nat)"
  by (simp add: digit_char_def)

lemma digits_val_snoc: "digits_val (s @ [c]) = 10 * digits_val s + (of_char c - 48)"
  by (simp add: digits_val_def)

lemma nat_str_digits: "list_all is_digit (nat_str n)"
proof (induction n rule: nat_str.induct)
  case (1 n)
  then show ?case
    by (subst nat_str.simps) (auto simp: is_digit_digit_char)
qed

lemma nat_str_ne: "nat_str n \<noteq> []"
  by (subst nat_str.simps) simp

lemma digits_val_nat_str: "digits_val (nat_str n) = n"
proof (induction n rule: nat_str.induct)
  case (1 n)
  show ?case
  proof (cases "n < 10")
    case True
    then show ?thesis
      by (subst nat_str.simps) (simp add: digits_val_def of_char_digit_char)
  next
    case False
    with "1.IH" show ?thesis
      by (subst nat_str.simps) (simp add: digits_val_snoc of_char_digit_char)
  qed
qed

lemma atoi_itoa: "atoi_nat (itoa (int n)) = Some n"
  by (simp add: atoi_nat_def itoa_def nat_str_digits nat_str_ne digits_val_nat_str)

lemma nat_str_inj: "nat_str m = nat_str n \<longleftrightarrow> m = n"
  using digits_val_nat_str by metis

lemma slash_not_in_nat_str: "CHR ''/'' \<notin> set (nat_str n)"
  using nat_str_digits[of n] by (auto simp: list_all_iff is_digit_def less_eq_char_def)

lemma after_last_append: "sep \<notin> set t \<Longrightarrow> after_last sep (s @ sep # t) = t"
  by (simp add: after_last_def takeWhile_append)

lemma has_prefix_append [simp]: "has_prefix (p @ s) p"
  by (simp add: has_prefix_def)

section \<open>Slices\<close>

definition sl :: "'a list option \<Rightarrow> 'a list" where
  "sl x = (case x of None \<Rightarrow> [] | Some l \<Rightarrow> l)"

definition sl_append :: "'a list option \<Rightarrow> 'a list \<Rightarrow> 'a list option" where
  "sl_append x ys = (if ys = [] then x else Some (sl x @ ys))"

lemma sl_simps [simp]: "sl None = []" "sl (Some l) = l"
  by (simp_all add: sl_def)

lemma sl_sl_append [simp]: "sl (sl_append x ys) = sl x @ ys"
  by (simp add: sl_append_def)

section \<open>Iteration order\<close>

fun shuffle :: "nat \<Rightarrow> 'a list \<Rightarrow> 'a list" where
  "shuffle c [] = []"
| "shuffle c (x # xs) =
     (let n = length (x # xs); i = c mod n; ys = x # xs
      in ys ! i # shuffle (c div n) (take i ys @ drop (Suc i) ys))"

declare shuffle.simps [simp del]

lemma mset_shuffle [simp]: "mset (shuffle c xs) = mset xs"
proof (induction c xs rule: shuffle.induct)
  case (1 c)
  show ?case by (simp add: shuffle.simps)
next
  case (2 c x xs)
  let ?ys = "x # xs" and ?i = "c mod length (x # xs)"
  have i: "?i < length ?ys" by (rule mod_less_divisor) simp
  have "mset ?ys = mset (take ?i ?ys @ ?ys ! ?i # drop (Suc ?i) ?ys)"
    using id_take_nth_drop [OF i] by simp
  moreover have "mset (shuffle c ?ys) = {#?ys ! ?i#} + mset (take ?i ?ys @ drop (Suc ?i) ?ys)"
    using "2" by (simp add: shuffle.simps Let_def)
  ultimately show ?case by simp
qed

lemma set_shuffle [simp]: "set (shuffle c xs) = set xs"
  by (metis mset_shuffle set_mset_mset)

lemma length_shuffle [simp]: "length (shuffle c xs) = length xs"
  by (metis mset_shuffle size_mset)

lemma distinct_shuffle [simp]: "distinct (shuffle c xs) = distinct xs"
  by (metis mset_shuffle mset_eq_imp_distinct_iff)

lemma shuffle_empty_iff [simp]: "shuffle c xs = [] \<longleftrightarrow> xs = []"
  by (metis length_0_conv length_shuffle)

lemma shuffle_Nil [simp]: "shuffle c [] = []"
  by (simp add: shuffle.simps)

lemma shuffle_singleton [simp]: "shuffle c [x] = [x]"
  by (simp add: shuffle.simps Let_def)

lemma shuffle_map: "shuffle c (map f xs) = map f (shuffle c xs)"
proof (induction c xs rule: shuffle.induct)
  case (2 c x xs)
  let ?i = "c mod length (x # xs)"
  have i: "?i < length (x # xs)" by (rule mod_less_divisor) simp
  have "shuffle c (map f (x # xs)) = map f (x # xs) ! ?i #
      shuffle (c div length (x # xs)) (take ?i (map f (x # xs)) @ drop (Suc ?i) (map f (x # xs)))"
    unfolding list.map shuffle.simps Let_def by simp
  also have "\<dots> = map f ((x # xs) ! ?i # shuffle (c div length (x # xs)) (take ?i (x # xs) @ drop (Suc ?i) (x # xs)))"
    unfolding take_map drop_map nth_map [OF i] map_append [symmetric]
    using "2.IH" [OF refl refl refl] by simp
  also have "\<dots> = map f (shuffle c (x # xs))" by (simp only: shuffle.simps Let_def)
  finally show ?case .
qed simp

text \<open>Every order is the shuffle of some number: the model leaves none out.\<close>

lemma shuffle_surj: "mset ys = mset xs \<Longrightarrow> \<exists>c. shuffle c xs = ys"
proof (induction ys arbitrary: xs)
  case Nil
  then show ?case by simp
next
  case (Cons y ys)
  then have "y \<in> set xs" by (metis list.set_intros(1) set_mset_mset)
  then obtain i where i: "i < length xs" "xs ! i = y"
    by (auto simp: in_set_conv_nth)
  then obtain z zs where xs: "xs = z # zs" by (cases xs) auto
  let ?rest = "take i xs @ drop (Suc i) xs"
  have "mset xs = add_mset y (mset ?rest)"
    using id_take_nth_drop [OF i(1)] i(2) by (metis mset.simps(2) mset_append union_mset_add_mset_right)
  with Cons.prems have "mset ys = mset ?rest" by simp
  then obtain c where c: "shuffle c ?rest = ys" using Cons.IH by blast
  have n0: "length xs \<noteq> 0" by (simp add: xs)
  have "(c * length xs + i) mod length xs = i" "(c * length xs + i) div length xs = c"
    using i(1) by (simp_all add: div_mult_self3 [OF n0])
  then have "shuffle (c * length xs + i) xs = xs ! i # shuffle c ?rest"
    unfolding xs by (simp only: shuffle.simps Let_def)
  then have "shuffle (c * length xs + i) xs = y # ys"
    by (simp only: c i(2))
  then show ?case by blast
qed

section \<open>Association lists\<close>

definition keys :: "('k \<times> 'v) list \<Rightarrow> 'k list" where
  "keys m = map fst m"

lemma keys_update [simp]: "set (keys (AList.update k v m)) = insert k (set (keys m))"
  by (simp add: keys_def dom_update)

lemma distinct_keys_update [simp]: "distinct (keys m) \<Longrightarrow> distinct (keys (AList.update k v m))"
  by (simp add: keys_def distinct_update)

lemma distinct_keys_delete [simp]: "distinct (keys m) \<Longrightarrow> distinct (keys (AList.delete k m))"
  by (simp add: keys_def AList.distinct_delete)

lemma map_of_update_eq [simp]: "map_of (AList.update k v m) = (map_of m)(k \<mapsto> v)"
  by (simp add: update_conv')

lemma map_of_delete_eq [simp]: "map_of (AList.delete k m) = (map_of m)(k := None)"
  by (simp add: delete_conv')

lemma in_keys_iff: "k \<in> set (keys m) \<longleftrightarrow> map_of m k \<noteq> None"
  by (simp add: keys_def map_of_eq_None_iff)

lemma map_of_in_keys: "map_of m k = Some v \<Longrightarrow> k \<in> set (keys m)"
  by (simp add: in_keys_iff)

lemma set_update_subset: "set (AList.update k v m) \<subseteq> insert (k, v) (set m)"
  by (induction m) auto

lemma set_delete_subset: "set (AList.delete k m) \<subseteq> set m"
  by (auto simp: AList.delete_eq)

end
