(* ===== verification/Json.thy ===== *)
theory Json
  imports Prelude
begin

text \<open>
  JSON documents as trees, with what the service uses of \<open>encoding/json\<close> and of the
  \<open>time\<close> package. \<open>json.Marshal\<close> of a value is a tree; the text that goes to the
  store is \<open>render\<close> of it. The store compares and returns documents, so the model keeps
  the tree; only \<open>getObjectSize\<close> looks at the length of the text.

  A \<open>time.Time\<close> is a number of nanoseconds since the Unix epoch, in UTC; its JSON form
  is the RFC 3339 text with nanoseconds, the leaf \<open>JTime\<close> of a tree.
\<close>

type_synonym time = int

datatype json = JNull | JBool bool | JNum int | JStr string | JTime time
  | JArr "json list" | JObj "(string \<times> json) list"

section \<open>Rendering\<close>

definition pad :: "nat \<Rightarrow> int \<Rightarrow> string" where
  "pad w i = (let s = itoa i in replicate (w - length s) (CHR ''0'') @ s)"

text \<open>Year, month and day of a day number (days since 1970-01-01).\<close>

definition civil_of_days :: "int \<Rightarrow> int \<times> int \<times> int" where
  "civil_of_days z0 =
     (let z = z0 + 719468; era = z div 146097; doe = z - era * 146097;
          yoe = (doe - doe div 1460 + doe div 36524 - doe div 146096) div 365;
          doy = doe - (365 * yoe + yoe div 4 - yoe div 100);
          mp = (5 * doy + 2) div 153;
          d = doy - (153 * mp + 2) div 5 + 1;
          m = (if mp < 10 then mp + 3 else mp - 9);
          y = yoe + era * 400 + (if m \<le> 2 then 1 else 0)
      in (y, m, d))"

definition time_fraction :: "int \<Rightarrow> string" where
  "time_fraction ns = (let f = trim_right (\<lambda>c. c = CHR ''0'') (pad 9 ns) in if f = [] then [] else CHR ''.'' # f)"

definition rfc3339_at :: "bool \<Rightarrow> time \<Rightarrow> string" where
  "rfc3339_at nano t =
     (let secs = t div 1000000000; ns = t mod 1000000000; sod = secs mod 86400;
          (y, m, d) = civil_of_days (secs div 86400)
      in pad 4 y @ ''-'' @ pad 2 m @ ''-'' @ pad 2 d @ ''T'' @
         pad 2 (sod div 3600) @ '':'' @ pad 2 (sod div 60 mod 60) @ '':'' @ pad 2 (sod mod 60) @
         (if nano then time_fraction ns else []) @ ''Z'')"

definition rfc3339 :: "time \<Rightarrow> string" where
  "rfc3339 t = rfc3339_at False t"

definition rfc3339nano :: "time \<Rightarrow> string" where
  "rfc3339nano t = rfc3339_at True t"

definition hex_digit :: "nat \<Rightarrow> char" where
  "hex_digit n = (if n < 10 then digit_char n else char_of (87 + n :: nat))"

text \<open>String escaping of \<open>json.Marshal\<close>, with its HTML escapes.\<close>

definition escape_char :: "char \<Rightarrow> string" where
  "escape_char c =
     (if c = CHR 0x22 then [CHR 0x5C, CHR 0x22]
      else if c = CHR 0x5C then [CHR 0x5C, CHR 0x5C]
      else if c = CHR 0x08 then [CHR 0x5C, CHR ''b'']
      else if c = CHR 0x0C then [CHR 0x5C, CHR ''f'']
      else if c = CHR 0x0A then [CHR 0x5C, CHR ''n'']
      else if c = CHR 0x0D then [CHR 0x5C, CHR ''r'']
      else if c = CHR 0x09 then [CHR 0x5C, CHR ''t'']
      else if (of_char c :: nat) < 32 \<or> c = CHR ''<'' \<or> c = CHR ''>'' \<or> c = CHR ''&''
        then [CHR 0x5C, CHR ''u'', CHR ''0'', CHR ''0'', hex_digit (of_char c div 16), hex_digit (of_char c mod 16)]
      else [c])"

definition quote :: "string \<Rightarrow> string" where
  "quote s = CHR 0x22 # concat (map escape_char s) @ [CHR 0x22]"

fun render :: "json \<Rightarrow> string" where
  "render JNull = ''null''"
| "render (JBool b) = (if b then ''true'' else ''false'')"
| "render (JNum i) = itoa i"
| "render (JStr s) = quote s"
| "render (JTime t) = quote (rfc3339nano t)"
| "render (JArr js) = ''['' @ join '','' (map render js) @ '']''"
| "render (JObj fs) = ''{'' @ join '','' (map (\<lambda>f. quote (fst f) @ '':'' @ render (snd f)) fs) @ ''}''"

section \<open>Fields of an object\<close>

text \<open>
  Reading a field of a struct: a field that is missing or null keeps its zero value, a
  field of another kind is an error (\<open>None\<close>). A slice is nil when missing or null.
\<close>

definition dec_str :: "(string \<times> json) list \<Rightarrow> string \<Rightarrow> string option" where
  "dec_str ob k = (case map_of ob k of None \<Rightarrow> Some [] | Some JNull \<Rightarrow> Some []
     | Some (JStr s) \<Rightarrow> Some s | _ \<Rightarrow> None)"

definition dec_int :: "(string \<times> json) list \<Rightarrow> string \<Rightarrow> int option" where
  "dec_int ob k = (case map_of ob k of None \<Rightarrow> Some 0 | Some JNull \<Rightarrow> Some 0
     | Some (JNum i) \<Rightarrow> Some i | _ \<Rightarrow> None)"

definition dec_bool :: "(string \<times> json) list \<Rightarrow> string \<Rightarrow> bool option" where
  "dec_bool ob k = (case map_of ob k of None \<Rightarrow> Some False | Some JNull \<Rightarrow> Some False
     | Some (JBool b) \<Rightarrow> Some b | _ \<Rightarrow> None)"

definition time_zero :: time where
  "time_zero = - 62135596800000000000"

definition dec_time :: "(string \<times> json) list \<Rightarrow> string \<Rightarrow> time option" where
  "dec_time ob k = (case map_of ob k of None \<Rightarrow> Some time_zero | Some JNull \<Rightarrow> Some time_zero
     | Some (JTime t) \<Rightarrow> Some t | _ \<Rightarrow> None)"

text \<open>UUIDs are kept in their canonical text form.\<close>

definition uuid_nil :: uuid where
  "uuid_nil = ''00000000-0000-0000-0000-000000000000''"

definition is_hex :: "char \<Rightarrow> bool" where
  "is_hex c \<longleftrightarrow> is_digit c \<or> (CHR ''a'' \<le> c \<and> c \<le> CHR ''f'')"

definition uuid_ok :: "uuid \<Rightarrow> bool" where
  "uuid_ok s \<longleftrightarrow> length s = 36 \<and>
     list_all (\<lambda>(i, c). if i \<in> {8, 13, 18, 23} then c = CHR ''-'' else is_hex c) (zip [0..<36] s)"

definition json_uuid :: "json \<Rightarrow> uuid option" where
  "json_uuid j = (case j of JStr s \<Rightarrow> if uuid_ok s then Some s else None | _ \<Rightarrow> None)"

definition dec_uuid :: "(string \<times> json) list \<Rightarrow> string \<Rightarrow> uuid option" where
  "dec_uuid ob k = (case map_of ob k of None \<Rightarrow> Some uuid_nil | Some JNull \<Rightarrow> Some uuid_nil
     | Some j \<Rightarrow> json_uuid j)"

fun dec_all :: "(json \<Rightarrow> 'a option) \<Rightarrow> json list \<Rightarrow> 'a list option" where
  "dec_all f [] = Some []"
| "dec_all f (j # js) = (case f j of None \<Rightarrow> None
     | Some x \<Rightarrow> (case dec_all f js of None \<Rightarrow> None | Some xs \<Rightarrow> Some (x # xs)))"

definition dec_slice :: "(json \<Rightarrow> 'a option) \<Rightarrow> (string \<times> json) list \<Rightarrow> string \<Rightarrow> 'a list option option" where
  "dec_slice f ob k = (case map_of ob k of None \<Rightarrow> Some None | Some JNull \<Rightarrow> Some None
     | Some (JArr js) \<Rightarrow> map_option Some (dec_all f js) | _ \<Rightarrow> None)"

definition dec_ptr :: "(json \<Rightarrow> 'a option) \<Rightarrow> (string \<times> json) list \<Rightarrow> string \<Rightarrow> 'a option option" where
  "dec_ptr f ob k = (case map_of ob k of None \<Rightarrow> Some None
     | Some j \<Rightarrow> if j = JNull then Some None else map_option Some (f j))"

definition enc_slice :: "('a \<Rightarrow> json) \<Rightarrow> 'a list option \<Rightarrow> json" where
  "enc_slice f xs = (case xs of None \<Rightarrow> JNull | Some l \<Rightarrow> JArr (map f l))"

text \<open>The \<open>omitempty\<close> tag drops an empty string or slice and a nil pointer.\<close>

definition omit_str :: "string \<Rightarrow> string \<Rightarrow> (string \<times> json) list" where
  "omit_str k s = (if s = [] then [] else [(k, JStr s)])"

definition omit_slice :: "string \<Rightarrow> ('a \<Rightarrow> json) \<Rightarrow> 'a list option \<Rightarrow> (string \<times> json) list" where
  "omit_slice k f xs = (if sl xs = [] then [] else [(k, JArr (map f (sl xs)))])"

definition omit_ptr :: "string \<Rightarrow> ('a \<Rightarrow> json) \<Rightarrow> 'a option \<Rightarrow> (string \<times> json) list" where
  "omit_ptr k f x = (case x of None \<Rightarrow> [] | Some y \<Rightarrow> [(k, f y)])"

text \<open>
  A codec of one type: every well-formed value is read back from its own document. The
  locale carries the contract through slices, pointers and \<open>omitempty\<close> slices.
\<close>

locale codec =
  fixes enc :: "'a \<Rightarrow> json"
    and dec :: "json \<Rightarrow> 'a option"
    and wf :: "'a \<Rightarrow> bool"
  assumes dec_enc: "wf x \<Longrightarrow> dec (enc x) = Some x"
    and enc_not_null: "enc x \<noteq> JNull"
begin

lemma dec_all_enc: "list_all wf xs \<Longrightarrow> dec_all dec (map enc xs) = Some xs"
  by (induction xs) (auto simp: dec_enc)

lemma dec_slice_enc:
  "list_all wf (sl xs) \<Longrightarrow> map_of ob' k = Some (enc_slice enc xs) \<Longrightarrow> dec_slice dec ob' k = Some xs"
  by (cases xs) (simp_all add: dec_slice_def enc_slice_def dec_all_enc)

lemma dec_slice_omit:
  "list_all wf (sl xs) \<Longrightarrow>
   dec_slice dec (omit_slice k enc xs @ ob') k =
     (if sl xs = [] then dec_slice dec ob' k else Some (Some (sl xs)))"
  by (cases xs) (simp_all add: dec_slice_def omit_slice_def dec_all_enc)

lemma enc_inj: "wf x \<Longrightarrow> wf y \<Longrightarrow> enc x = enc y \<Longrightarrow> x = y"
  using dec_enc by (metis option.inject)

lemma dec_ptr_omit:
  "(\<forall>y. x = Some y \<longrightarrow> wf y) \<Longrightarrow> map_of ob' k = None \<Longrightarrow> dec_ptr dec (omit_ptr k enc x @ ob') k = Some x"
  by (cases x) (auto simp: dec_ptr_def omit_ptr_def dec_enc enc_not_null)

end

end
