(* ===== verification/Model.thy ===== *)
theory Model
  imports Json
begin

text \<open>
  The package \<^verbatim>\<open>internal/model\<close>: the records of transitions, their tasks and pages, power
  status and passbacks, with the constructors and conversions of \<^verbatim>\<open>transitions.go\<close>,
  \<^verbatim>\<open>power-status.go\<close>, \<^verbatim>\<open>models.go\<close>, \<^verbatim>\<open>passback.go\<close>, \<^verbatim>\<open>problem7807.go\<close> and
  \<^verbatim>\<open>error_payload.go\<close>. Enumerations are datatypes, status values are the strings of the
  source. \<open>Operation.String\<close> indexes an array with the operation and panics for
  \<open>Operation_Nil\<close>; a panic is the value \<open>None\<close>. Fresh UUIDs and clock readings are
  arguments.
\<close>

section \<open>Transitions\<close>

abbreviation "TransitionStatusNew \<equiv> ''new''"
abbreviation "TransitionStatusInProgress \<equiv> ''in-progress''"
abbreviation "TransitionStatusCompleted \<equiv> ''completed''"
abbreviation "TransitionStatusAborted \<equiv> ''aborted''"
abbreviation "TransitionStatusAbortSignaled \<equiv> ''abort-signaled''"

abbreviation "TransitionTaskStatusNew \<equiv> ''new''"
abbreviation "TransitionTaskStatusInProgress \<equiv> ''in-progress''"
abbreviation "TransitionTaskStatusFailed \<equiv> ''failed''"
abbreviation "TransitionTaskStatusSucceeded \<equiv> ''succeeded''"
abbreviation "TransitionTaskStatusUnsupported \<equiv> ''unsupported''"

definition DefaultTaskDeadline :: int where
  "DefaultTaskDeadline = 5"

definition TransitionKeepAliveInterval :: int where
  "TransitionKeepAliveInterval = 10"

datatype Operation = Operation_Nil | Operation_On | Operation_Off | Operation_SoftRestart
  | Operation_HardRestart | Operation_Init | Operation_ForceOff | Operation_SoftOff

fun Operation_EnumIndex :: "Operation \<Rightarrow> int" where
  "Operation_EnumIndex Operation_Nil = -1"
| "Operation_EnumIndex Operation_On = 0"
| "Operation_EnumIndex Operation_Off = 1"
| "Operation_EnumIndex Operation_SoftRestart = 2"
| "Operation_EnumIndex Operation_HardRestart = 3"
| "Operation_EnumIndex Operation_Init = 4"
| "Operation_EnumIndex Operation_ForceOff = 5"
| "Operation_EnumIndex Operation_SoftOff = 6"

fun Operation_String :: "Operation \<Rightarrow> string option" where
  "Operation_String Operation_Nil = None"
| "Operation_String Operation_On = Some ''On''"
| "Operation_String Operation_Off = Some ''Off''"
| "Operation_String Operation_SoftRestart = Some ''Soft-Restart''"
| "Operation_String Operation_HardRestart = Some ''Hard-Restart''"
| "Operation_String Operation_Init = Some ''Init''"
| "Operation_String Operation_ForceOff = Some ''Force-Off''"
| "Operation_String Operation_SoftOff = Some ''Soft-Off''"

datatype TaskState = TaskState_Nil | TaskState_GatherData | TaskState_Sending
  | TaskState_Waiting | TaskState_Confirmed

fun TaskState_EnumIndex :: "TaskState \<Rightarrow> int" where
  "TaskState_EnumIndex TaskState_Nil = -1"
| "TaskState_EnumIndex TaskState_GatherData = 0"
| "TaskState_EnumIndex TaskState_Sending = 1"
| "TaskState_EnumIndex TaskState_Waiting = 2"
| "TaskState_EnumIndex TaskState_Confirmed = 3"

fun TaskState_String :: "TaskState \<Rightarrow> string option" where
  "TaskState_String TaskState_Nil = None"
| "TaskState_String TaskState_GatherData = Some ''Gathering Data''"
| "TaskState_String TaskState_Sending = Some ''Sending Command''"
| "TaskState_String TaskState_Waiting = Some ''Waiting to Confirm''"
| "TaskState_String TaskState_Confirmed = Some ''Confirmed Transition''"

definition ToOperationFilter :: "string \<Rightarrow> Operation \<times> err option" where
  "ToOperationFilter op =
     (let bad = (Operation_Nil, Some (''invalid Operation type '' @ op)); operation = to_lower op in
      if op = [] then bad
      else if operation = ''on'' then (Operation_On, None)
      else if operation = ''off'' then (Operation_Off, None)
      else if operation = ''soft-restart'' then (Operation_SoftRestart, None)
      else if operation = ''hard-restart'' then (Operation_HardRestart, None)
      else if operation = ''init'' then (Operation_Init, None)
      else if operation = ''force-off'' then (Operation_ForceOff, None)
      else if operation = ''soft-off'' then (Operation_SoftOff, None)
      else bad)"

record LocationParameter =
  loc_Xname :: xname
  loc_DeputyKey :: string

record TransitionParameter =
  tpar_Operation :: string
  tpar_TaskDeadline :: "int option"
  tpar_Location :: "LocationParameter list option"

record TransitionTaskCounts =
  cnt_Total :: int
  cnt_New :: int
  cnt_InProgress :: int
  cnt_Failed :: int
  cnt_Succeeded :: int
  cnt_Unsupported :: int

definition zero_counts :: TransitionTaskCounts where
  "zero_counts = \<lparr>cnt_Total = 0, cnt_New = 0, cnt_InProgress = 0, cnt_Failed = 0,
     cnt_Succeeded = 0, cnt_Unsupported = 0\<rparr>"

record TransitionTaskResp =
  ttr_Xname :: xname
  ttr_TaskStatus :: string
  ttr_TaskStatusDesc :: string
  ttr_Error :: string

record Transition =
  tr_TransitionID :: uuid
  tr_Operation :: Operation
  tr_TaskDeadline :: int
  tr_Location :: "LocationParameter list option"
  tr_CreateTime :: time
  tr_LastActiveTime :: time
  tr_AutomaticExpirationTime :: time
  tr_Status :: string
  tr_TaskIDs :: "uuid list option"
  tr_IsCompressed :: bool
  tr_TaskCounts :: TransitionTaskCounts
  tr_Tasks :: "TransitionTaskResp list option"

definition zero_transition :: Transition where
  "zero_transition = \<lparr>tr_TransitionID = uuid_nil, tr_Operation = Operation_On, tr_TaskDeadline = 0,
     tr_Location = None, tr_CreateTime = time_zero, tr_LastActiveTime = time_zero,
     tr_AutomaticExpirationTime = time_zero, tr_Status = [], tr_TaskIDs = None,
     tr_IsCompressed = False, tr_TaskCounts = zero_counts, tr_Tasks = None\<rparr>"

record TransitionPage =
  tp_ID :: string
  tp_TransitionID :: uuid
  tp_Index :: int
  tp_Location :: "LocationParameter list option"
  tp_Tasks :: "TransitionTaskResp list option"
  tp_TaskIDs :: "uuid list option"

record TransitionTask =
  tt_TaskID :: uuid
  tt_TransitionID :: uuid
  tt_Operation :: Operation
  tt_State :: TaskState
  tt_Xname :: xname
  tt_ReservationKey :: string
  tt_DeputyKey :: string
  tt_Status :: string
  tt_StatusDesc :: string
  tt_Error :: string

record TransitionCreation =
  tc_TransitionID :: uuid
  tc_Operation :: string

record TransitionResp =
  rsp_TransitionID :: uuid
  rsp_Operation :: string
  rsp_CreateTime :: time
  rsp_AutomaticExpirationTime :: time
  rsp_TransitionStatus :: string
  rsp_TaskCounts :: TransitionTaskCounts
  rsp_Tasks :: "TransitionTaskResp list option"

text \<open>The three clock readings of \<open>ToTransition\<close> are the arguments \<open>n1 n2 n3\<close>.\<close>

definition minutes :: "int \<Rightarrow> time" where
  "minutes m = m * 60 * 1000000000"

definition seconds :: "int \<Rightarrow> time" where
  "seconds s = s * 1000000000"

definition ToTransition ::
  "uuid \<Rightarrow> time \<Rightarrow> time \<Rightarrow> time \<Rightarrow> TransitionParameter \<Rightarrow> int \<Rightarrow> Transition \<times> err option" where
  "ToTransition newid n1 n2 n3 parameter expirationTimeMins =
     (let (op, err) = ToOperationFilter (tpar_Operation parameter) in
      (zero_transition\<lparr>
         tr_TransitionID := newid,
         tr_Operation := op,
         tr_TaskDeadline := (case tpar_TaskDeadline parameter of Some d \<Rightarrow> d | None \<Rightarrow> DefaultTaskDeadline),
         tr_Location := tpar_Location parameter,
         tr_CreateTime := n1,
         tr_AutomaticExpirationTime := n2 + minutes expirationTimeMins,
         tr_LastActiveTime := n3,
         tr_Status := TransitionStatusNew,
         tr_TaskIDs := Some []\<rparr>, err))"

definition NewTransitionTask :: "uuid \<Rightarrow> uuid \<Rightarrow> Operation \<Rightarrow> TransitionTask" where
  "NewTransitionTask newid transitionID op =
     \<lparr>tt_TaskID = newid, tt_TransitionID = transitionID, tt_Operation = op,
      tt_State = TaskState_GatherData, tt_Xname = [], tt_ReservationKey = [], tt_DeputyKey = [],
      tt_Status = TransitionTaskStatusNew, tt_StatusDesc = [], tt_Error = []\<rparr>"

definition count_task :: "TransitionTaskCounts \<Rightarrow> string \<Rightarrow> TransitionTaskCounts" where
  "count_task c st =
     (let c' = (if st = TransitionTaskStatusNew then c\<lparr>cnt_New := cnt_New c + 1\<rparr>
        else if st = TransitionTaskStatusInProgress then c\<lparr>cnt_InProgress := cnt_InProgress c + 1\<rparr>
        else if st = TransitionTaskStatusFailed then c\<lparr>cnt_Failed := cnt_Failed c + 1\<rparr>
        else if st = TransitionTaskStatusSucceeded then c\<lparr>cnt_Succeeded := cnt_Succeeded c + 1\<rparr>
        else if st = TransitionTaskStatusUnsupported then c\<lparr>cnt_Unsupported := cnt_Unsupported c + 1\<rparr>
        else c)
      in c'\<lparr>cnt_Total := cnt_Total c' + 1\<rparr>)"

definition task_resp :: "TransitionTask \<Rightarrow> TransitionTaskResp" where
  "task_resp t = \<lparr>ttr_Xname = tt_Xname t, ttr_TaskStatus = tt_Status t,
     ttr_TaskStatusDesc = tt_StatusDesc t, ttr_Error = tt_Error t\<rparr>"

text \<open>\<open>ToTransitionResp\<close>: \<open>None\<close> is the panic of \<open>Operation.String\<close>.\<close>

definition ToTransitionResp :: "Transition \<Rightarrow> TransitionTask list \<Rightarrow> bool \<Rightarrow> TransitionResp option" where
  "ToTransitionResp tr tasks full =
     (case Operation_String (tr_Operation tr) of None \<Rightarrow> None
      | Some op \<Rightarrow>
        let rsp = \<lparr>rsp_TransitionID = tr_TransitionID tr, rsp_Operation = op,
              rsp_CreateTime = tr_CreateTime tr,
              rsp_AutomaticExpirationTime = tr_AutomaticExpirationTime tr,
              rsp_TransitionStatus = tr_Status tr, rsp_TaskCounts = zero_counts, rsp_Tasks = None\<rparr>
        in if tr_IsCompressed tr then
             Some (rsp\<lparr>rsp_TaskCounts := tr_TaskCounts tr,
                       rsp_Tasks := (if full then tr_Tasks tr else None)\<rparr>)
           else Some (rsp\<lparr>rsp_TaskCounts := foldl (\<lambda>c t. count_task c (tt_Status t)) zero_counts tasks,
                          rsp_Tasks := (if full then sl_append None (map task_resp tasks) else None)\<rparr>))"

text \<open>
  \<open>CopyTransition\<close>: \<open>make(.., 0)\<close> followed by \<open>copy\<close> copies nothing, since
  \<open>copy\<close> never grows its target; the three slices of the result are empty.
\<close>

definition go_copy :: "'a list \<Rightarrow> 'a list \<Rightarrow> 'a list" where
  "go_copy dst src = take (length dst) src @ drop (length src) dst"

definition CopyTransition :: "Transition \<Rightarrow> Transition" where
  "CopyTransition transition =
     (let result = transition;
          result = result\<lparr>tr_Tasks := Some (go_copy [] (sl (tr_Tasks transition)))\<rparr>;
          result = result\<lparr>tr_Location := Some (go_copy [] (sl (tr_Location transition)))\<rparr>
      in result\<lparr>tr_TaskIDs := Some []\<rparr>)"

section \<open>Power status\<close>

datatype PowerStateFilter = PowerStateFilter_Nil | PowerStateFilter_On | PowerStateFilter_Off
  | PowerStateFilter_Undefined

definition ToPowerStateFilter :: "string \<Rightarrow> PowerStateFilter \<times> err option" where
  "ToPowerStateFilter psf =
     (if psf = [] then (PowerStateFilter_Nil, None)
      else if to_lower psf = ''on'' \<or> to_lower psf = ''poweringoff'' then (PowerStateFilter_On, None)
      else if to_lower psf = ''off'' \<or> to_lower psf = ''poweringon'' then (PowerStateFilter_Off, None)
      else if to_lower psf = ''undefined'' then (PowerStateFilter_Undefined, None)
      else (PowerStateFilter_Nil, Some (''invalid powerStateFilter type: '' @ psf)))"

fun PowerStateFilter_String :: "PowerStateFilter \<Rightarrow> string" where
  "PowerStateFilter_String PowerStateFilter_Nil = ''invalid''"
| "PowerStateFilter_String PowerStateFilter_On = ''on''"
| "PowerStateFilter_String PowerStateFilter_Off = ''off''"
| "PowerStateFilter_String PowerStateFilter_Undefined = ''undefined''"

fun PowerStateFilter_EnumIndex :: "PowerStateFilter \<Rightarrow> int" where
  "PowerStateFilter_EnumIndex PowerStateFilter_Nil = -1"
| "PowerStateFilter_EnumIndex PowerStateFilter_On = 0"
| "PowerStateFilter_EnumIndex PowerStateFilter_Off = 1"
| "PowerStateFilter_EnumIndex PowerStateFilter_Undefined = 2"

datatype ManagementStateFilter = ManagementStateFilter_Nil | ManagementStateFilter_available
  | ManagementStateFilter_unavailable | ManagementStateFilter_undefined

definition ToManagementStateFilter :: "string \<Rightarrow> ManagementStateFilter \<times> err option" where
  "ToManagementStateFilter msf =
     (if msf = [] then (ManagementStateFilter_Nil, None)
      else if to_lower msf = ''available'' then (ManagementStateFilter_available, None)
      else if to_lower msf = ''unavailable'' then (ManagementStateFilter_unavailable, None)
      else (ManagementStateFilter_Nil, Some (''invalid ManagementStateFilter type: '' @ msf)))"

fun ManagementStateFilter_String :: "ManagementStateFilter \<Rightarrow> string" where
  "ManagementStateFilter_String ManagementStateFilter_Nil = ''invalid''"
| "ManagementStateFilter_String ManagementStateFilter_available = ''available''"
| "ManagementStateFilter_String ManagementStateFilter_unavailable = ''unavailable''"
| "ManagementStateFilter_String ManagementStateFilter_undefined = ''undefined''"

fun ManagementStateFilter_EnumIndex :: "ManagementStateFilter \<Rightarrow> int" where
  "ManagementStateFilter_EnumIndex ManagementStateFilter_Nil = -1"
| "ManagementStateFilter_EnumIndex ManagementStateFilter_available = 0"
| "ManagementStateFilter_EnumIndex ManagementStateFilter_unavailable = 1"
| "ManagementStateFilter_EnumIndex ManagementStateFilter_undefined = 2"

record PowerStatusComponent =
  ps_XName :: xname
  ps_PowerState :: string
  ps_ManagementState :: string
  ps_Error :: string
  ps_SupportedPowerTransitions :: "string list"
  ps_LastUpdated :: string

text \<open>\<open>NewInvalidInputError\<close>: the verb \<open>%v\<close> prints a slice of strings in brackets, separated by spaces.\<close>

fun spaced :: "string list \<Rightarrow> string" where
  "spaced [] = []"
| "spaced [x] = x"
| "spaced (x # xs) = x @ '' '' @ spaced xs"

definition NewInvalidInputError :: "string \<Rightarrow> string list \<Rightarrow> err" where
  "NewInvalidInputError Message CompIDs = Message @ '': ['' @ spaced CompIDs @ '']''"

section \<open>Passbacks\<close>

record Problem7807 =
  pr_Type :: string
  pr_Detail :: string
  pr_Instance :: string
  pr_Status :: int
  pr_Title :: string

definition Problem7807_Equals :: "Problem7807 \<Rightarrow> Problem7807 \<Rightarrow> bool" where
  "Problem7807_Equals obj other \<longleftrightarrow>
     pr_Type obj = pr_Type other \<and> pr_Detail obj = pr_Detail other \<and>
     pr_Instance obj = pr_Instance other \<and> pr_Status obj = pr_Status other \<and>
     pr_Title obj = pr_Title other"

text \<open>\<open>http.StatusText\<close> for the codes the service reports.\<close>

definition StatusText :: "int \<Rightarrow> string" where
  "StatusText code = (case map_of [(200, ''OK''), (202, ''Accepted''), (204, ''No Content''),
     (400, ''Bad Request''), (404, ''Not Found''), (500, ''Internal Server Error''),
     (503, ''Service Unavailable'')] code of None \<Rightarrow> [] | Some s \<Rightarrow> s)"

definition GetFormattedErrorMessage :: "err option \<Rightarrow> int \<Rightarrow> Problem7807" where
  "GetFormattedErrorMessage err code =
     \<lparr>pr_Type = ''about:blank'',
      pr_Detail = (case err of Some e \<Rightarrow> e
        | None \<Rightarrow> ''unknown error - could not parse from error object''),
      pr_Instance = [], pr_Status = code, pr_Title = StatusText code\<rparr>"

record 'o Passback =
  pb_StatusCode :: int
  pb_Obj :: "'o option"
  pb_Error :: Problem7807
  pb_IsError :: bool

definition zero_problem :: Problem7807 where
  "zero_problem = \<lparr>pr_Type = [], pr_Detail = [], pr_Instance = [], pr_Status = 0, pr_Title = []\<rparr>"

definition BuildErrorPassback :: "int \<Rightarrow> err \<Rightarrow> 'o Passback" where
  "BuildErrorPassback code err =
     \<lparr>pb_StatusCode = code, pb_Obj = None,
      pb_Error = GetFormattedErrorMessage (Some err) code, pb_IsError = True\<rparr>"

definition BuildSuccessPassback :: "int \<Rightarrow> 'o \<Rightarrow> 'o Passback" where
  "BuildSuccessPassback code obj =
     \<lparr>pb_StatusCode = code, pb_Obj = Some obj, pb_Error = zero_problem, pb_IsError = False\<rparr>"

section \<open>Slices compared as bags\<close>

definition incr :: "('a \<times> nat) list \<Rightarrow> 'a \<Rightarrow> ('a \<times> nat) list" where
  "incr m e = AList.update e ((case map_of m e of None \<Rightarrow> 0 | Some n \<Rightarrow> n) + 1) m"

definition count_map :: "'a list \<Rightarrow> ('a \<times> nat) list" where
  "count_map xs = foldl incr [] xs"

text \<open>\<open>UUIDSliceEquals\<close>; \<open>StringSliceEquals\<close> adds two shortcuts for empty slices.\<close>

definition UUIDSliceEquals :: "uuid list \<Rightarrow> uuid list \<Rightarrow> bool" where
  "UUIDSliceEquals obj other =
     (if length obj \<noteq> length other then False
      else list_all (\<lambda>(k, v). (case map_of (count_map other) k of None \<Rightarrow> 0 | Some n \<Rightarrow> n) = v) (count_map obj))"

definition StringSliceEquals :: "string list option \<Rightarrow> string list option \<Rightarrow> bool" where
  "StringSliceEquals obj other =
     (if length (sl obj) \<noteq> length (sl other) then False
      else if length (sl obj) = 0 \<and> length (sl other) = 0 then True
      else if obj = None \<and> other = None then True
      else list_all (\<lambda>(k, v). (case map_of (count_map (sl other)) k of None \<Rightarrow> 0 | Some n \<Rightarrow> n) = v)
             (count_map (sl obj)))"

fun Find_from :: "nat \<Rightarrow> string list \<Rightarrow> string \<Rightarrow> int \<times> bool" where
  "Find_from i [] val = (-1, False)"
| "Find_from i (item # items) val = (if item = val then (int i, True) else Find_from (Suc i) items val)"

definition Find :: "string list \<Rightarrow> string \<Rightarrow> int \<times> bool" where
  "Find slice val = Find_from 0 slice val"

section \<open>Properties\<close>

definition known_status :: "string \<Rightarrow> bool" where
  "known_status st \<longleftrightarrow> st \<in> {TransitionTaskStatusNew, TransitionTaskStatusInProgress, TransitionTaskStatusFailed,
     TransitionTaskStatusSucceeded, TransitionTaskStatusUnsupported}"

definition tally :: "TransitionTaskCounts \<Rightarrow> int" where
  "tally c = cnt_New c + cnt_InProgress c + cnt_Failed c + cnt_Succeeded c + cnt_Unsupported c"

lemma count_task_total: "cnt_Total (count_task c st) = cnt_Total c + 1"
  by (simp add: count_task_def)

lemma count_task_tally: "tally (count_task c st) = tally c + (if known_status st then 1 else 0)"
  by (auto simp: tally_def known_status_def count_task_def)

lemma count_tasks:
  "cnt_Total (foldl (\<lambda>c t. count_task c (tt_Status t)) c tasks) = cnt_Total c + int (length tasks)"
  "list_all (\<lambda>t. known_status (tt_Status t)) tasks \<Longrightarrow>
   tally (foldl (\<lambda>c t. count_task c (tt_Status t)) c tasks) = tally c + int (length tasks)"
  by (induction tasks arbitrary: c) (simp_all add: count_task_total count_task_tally)

text \<open>
  The response of a transition that is still running counts every task: the total is the
  number of tasks and, when every task has one of the five statuses, the five counts add up to
  it; with full details the response lists one result per task, in order.
\<close>

lemma response_counts_tasks:
  assumes "ToTransitionResp tr tasks full = Some rsp" "\<not> tr_IsCompressed tr"
    and "list_all (\<lambda>t. known_status (tt_Status t)) tasks"
  shows "cnt_Total (rsp_TaskCounts rsp) = int (length tasks)
    \<and> tally (rsp_TaskCounts rsp) = cnt_Total (rsp_TaskCounts rsp)
    \<and> sl (rsp_Tasks rsp) = (if full then map task_resp tasks else [])"
  using assms
  by (auto simp: ToTransitionResp_def Let_def count_tasks split: option.splits)
    (simp_all add: zero_counts_def tally_def)

lemma response_counts_tasks_example:
  "\<exists>rsp. ToTransitionResp zero_transition [NewTransitionTask [] [] Operation_On] True = Some rsp \<and>
     cnt_Total (rsp_TaskCounts rsp) = 1"
proof -
  obtain rsp where r: "ToTransitionResp zero_transition [NewTransitionTask [] [] Operation_On] True = Some rsp"
    by (simp add: ToTransitionResp_def zero_transition_def Let_def)
  with response_counts_tasks [OF r] show ?thesis
    by (simp add: zero_transition_def NewTransitionTask_def known_status_def)
qed

lemma lower_names:
  "to_lower ''On'' = ''on''" "to_lower ''Off'' = ''off''" "to_lower ''Soft-Restart'' = ''soft-restart''"
  "to_lower ''Hard-Restart'' = ''hard-restart''" "to_lower ''Init'' = ''init''"
  "to_lower ''Force-Off'' = ''force-off''" "to_lower ''Soft-Off'' = ''soft-off''"
  by code_simp+

text \<open>
  The operation names the service prints are read back as the same operation, in any
  mixture of upper and lower case, and any other text is refused.
\<close>

lemma operation_names_roundtrip:
  assumes "op \<noteq> Operation_Nil"
  shows "ToOperationFilter s = (op, None) \<longleftrightarrow>
    (\<exists>name. Operation_String op = Some name \<and> to_lower s = to_lower name)"
proof (cases "s = []")
  case True
  then show ?thesis
    using assms by (cases op) (simp_all add: ToOperationFilter_def lower_names to_lower_def)
next
  case False
  define q where "q = to_lower s"
  show ?thesis
    using assms False unfolding ToOperationFilter_def Let_def q_def [symmetric]
    by (cases op) (simp_all add: lower_names)
qed

lemma operation_names_roundtrip_example: "ToOperationFilter ''sOFT-oFF'' = (Operation_SoftOff, None)"
proof -
  have "to_lower ''sOFT-oFF'' = to_lower ''Soft-Off''" by code_simp
  with operation_names_roundtrip [of Operation_SoftOff "''sOFT-oFF''"] show ?thesis by simp
qed

lemma incr_count: "map_of (incr m x) y = (if y = x then Some ((case map_of m x of None \<Rightarrow> 0 | Some n \<Rightarrow> n) + 1) else map_of m y)"
  by (simp add: incr_def)

lemma count_map_count: "map_of (count_map xs) y = (if y \<in> set xs then Some (count (mset xs) y) else None)"
proof (induction xs rule: rev_induct)
  case Nil
  then show ?case by (simp add: count_map_def)
next
  case (snoc x xs)
  have "count_map (xs @ [x]) = incr (count_map xs) x" by (simp add: count_map_def)
  with snoc show ?case by (auto simp: incr_count)
qed

lemma distinct_count_map: "distinct (keys (count_map xs))"
  by (induction xs rule: rev_induct) (auto simp: count_map_def incr_def keys_def distinct_update)

lemma counts_agree_iff:
  "list_all (\<lambda>(k, v). (case map_of (count_map ys) k of None \<Rightarrow> 0 | Some n \<Rightarrow> n) = v) (count_map xs)
   \<longleftrightarrow> (\<forall>k \<in> set xs. count (mset ys) k = count (mset xs) k)"
proof -
  have c: "(case map_of (count_map ys) k of None \<Rightarrow> 0 | Some n \<Rightarrow> n) = count (mset ys) k" for k
    by (simp add: count_map_count count_eq_zero_iff)
  have "(k, v) \<in> set (count_map xs) \<longleftrightarrow> k \<in> set xs \<and> v = count (mset xs) k" for k v
  proof -
    have "(k, v) \<in> set (count_map xs) \<longleftrightarrow> map_of (count_map xs) k = Some v"
      using distinct_count_map [of xs] by (simp add: keys_def)
    then show ?thesis by (auto simp: count_map_count)
  qed
  then have m: "\<And>k v. (k, v) \<in> set (count_map xs) \<longleftrightarrow> k \<in> set xs \<and> v = count (mset xs) k" .
  have "(\<forall>p \<in> set (count_map xs). count (mset ys) (fst p) = snd p) \<longleftrightarrow>
      (\<forall>k \<in> set xs. count (mset ys) k = count (mset xs) k)"
    using m by (metis fst_conv prod.collapse snd_conv)
  then show ?thesis unfolding list_all_iff c by (simp add: case_prod_beta)
qed

lemma same_counts_mset:
  assumes "length xs = length ys" "\<forall>k \<in> set xs. count (mset ys) k = count (mset xs) k"
  shows "mset xs = mset ys"
proof -
  have "mset xs \<subseteq># mset ys"
  proof (rule mset_subset_eqI)
    show "count (mset xs) k \<le> count (mset ys) k" for k
      using assms(2) by (cases "k \<in> set xs") (simp, metis count_greater_zero_iff not_gr_zero set_mset_mset zero_le)
  qed
  moreover have "size (mset xs) = size (mset ys)" using assms(1) by simp
  ultimately show ?thesis by (metis subset_mset.le_neq_trans mset_subset_size less_irrefl)
qed

lemma same_counts_iff:
  "mset xs = mset ys \<longleftrightarrow> length xs = length ys \<and> (\<forall>k \<in> set xs. count (mset ys) k = count (mset xs) k)"
  using same_counts_mset [of xs ys] by (metis size_mset)

text \<open>
  The two slice comparisons decide equality as bags: same elements with the same
  multiplicities, in any order, nil and empty alike.
\<close>

lemma slice_equals_bags:
  "(UUIDSliceEquals obj other \<longleftrightarrow> mset obj = mset other) \<and>
   (StringSliceEquals sobj sother \<longleftrightarrow> mset (sl sobj) = mset (sl sother))"
proof
  show "UUIDSliceEquals obj other \<longleftrightarrow> mset obj = mset other"
    unfolding UUIDSliceEquals_def counts_agree_iff using same_counts_iff [of obj other] by simp
  show "StringSliceEquals sobj sother \<longleftrightarrow> mset (sl sobj) = mset (sl sother)"
    unfolding StringSliceEquals_def counts_agree_iff using same_counts_iff [of "sl sobj" "sl sother"] by auto
qed

end
