(* ===== verification/Codec.thy ===== *)
theory Codec
  imports Model
begin

text \<open>
  The JSON documents of the records the store keeps (the struct tags of
  \<^verbatim>\<open>internal/model/transitions.go\<close> and \<^verbatim>\<open>power-status.go\<close>) and their decoding. Each
  record interprets the locale \<open>codec\<close>: a well-formed value is read back from its
  document. A transition is the exception the tags make: \<open>omitempty\<close> drops an empty
  list of tasks, which is read back as nil, so its codec is stated up to \<open>norm_transition\<close>.
\<close>

section \<open>Leaves\<close>

definition enc_uuid :: "uuid \<Rightarrow> json" where
  "enc_uuid u = JStr u"

interpretation uuid_codec: codec enc_uuid json_uuid uuid_ok
  by unfold_locales (simp_all add: enc_uuid_def json_uuid_def)

definition json_Operation :: "json \<Rightarrow> Operation option" where
  "json_Operation j = (case j of JNum i \<Rightarrow>
     map_of [(-1, Operation_Nil), (0, Operation_On), (1, Operation_Off), (2, Operation_SoftRestart),
       (3, Operation_HardRestart), (4, Operation_Init), (5, Operation_ForceOff), (6, Operation_SoftOff)] i
     | _ \<Rightarrow> None)"

definition enc_Operation :: "Operation \<Rightarrow> json" where
  "enc_Operation op = JNum (Operation_EnumIndex op)"

interpretation op_codec: codec enc_Operation json_Operation "\<lambda>_. True"
proof
  show "json_Operation (enc_Operation x) = Some x" for x
    by (cases x) (simp_all add: enc_Operation_def json_Operation_def)
qed (simp add: enc_Operation_def)

definition json_TaskState :: "json \<Rightarrow> TaskState option" where
  "json_TaskState j = (case j of JNum i \<Rightarrow>
     map_of [(-1, TaskState_Nil), (0, TaskState_GatherData), (1, TaskState_Sending),
       (2, TaskState_Waiting), (3, TaskState_Confirmed)] i | _ \<Rightarrow> None)"

definition enc_TaskState :: "TaskState \<Rightarrow> json" where
  "enc_TaskState st = JNum (TaskState_EnumIndex st)"

interpretation ts_codec: codec enc_TaskState json_TaskState "\<lambda>_. True"
proof
  show "json_TaskState (enc_TaskState x) = Some x" for x
    by (cases x) (simp_all add: enc_TaskState_def json_TaskState_def)
qed (simp add: enc_TaskState_def)

text \<open>A field of an enumeration: missing or null is its zero, the constant with index 0.\<close>

definition dec_enum :: "(json \<Rightarrow> 'a option) \<Rightarrow> 'a \<Rightarrow> (string \<times> json) list \<Rightarrow> string \<Rightarrow> 'a option" where
  "dec_enum f z ob k = (case map_of ob k of None \<Rightarrow> Some z | Some j \<Rightarrow> if j = JNull then Some z else f j)"

definition dec_string_slice :: "(string \<times> json) list \<Rightarrow> string \<Rightarrow> string list option option" where
  "dec_string_slice ob k = dec_slice (\<lambda>j. case j of JStr s \<Rightarrow> Some s | _ \<Rightarrow> None) ob k"

interpretation str_codec: codec JStr "\<lambda>j. case j of JStr s \<Rightarrow> Some s | _ \<Rightarrow> None" "\<lambda>_. True"
  by unfold_locales simp_all

section \<open>Locations, task results and counts\<close>

definition enc_Location :: "LocationParameter \<Rightarrow> json" where
  "enc_Location l = JObj ((''xname'', JStr (loc_Xname l)) # omit_str ''deputyKey'' (loc_DeputyKey l))"

definition dec_Location :: "json \<Rightarrow> LocationParameter option" where
  "dec_Location j = (case j of JObj ob \<Rightarrow> do {
       x \<leftarrow> dec_str ob ''xname'';
       d \<leftarrow> dec_str ob ''deputyKey'';
       Some \<lparr>loc_Xname = x, loc_DeputyKey = d\<rparr> } | _ \<Rightarrow> None)"

interpretation loc_codec: codec enc_Location dec_Location "\<lambda>_. True"
proof
  show "dec_Location (enc_Location x) = Some x" for x
    by (cases x) (simp add: dec_Location_def enc_Location_def dec_str_def omit_str_def)
qed (simp add: enc_Location_def)

definition enc_TaskResp :: "TransitionTaskResp \<Rightarrow> json" where
  "enc_TaskResp t = JObj ([(''xname'', JStr (ttr_Xname t)), (''taskStatus'', JStr (ttr_TaskStatus t)),
     (''taskStatusDescription'', JStr (ttr_TaskStatusDesc t))] @ omit_str ''error'' (ttr_Error t))"

definition dec_TaskResp :: "json \<Rightarrow> TransitionTaskResp option" where
  "dec_TaskResp j = (case j of JObj ob \<Rightarrow> do {
       x \<leftarrow> dec_str ob ''xname'';
       s \<leftarrow> dec_str ob ''taskStatus'';
       d \<leftarrow> dec_str ob ''taskStatusDescription'';
       e \<leftarrow> dec_str ob ''error'';
       Some \<lparr>ttr_Xname = x, ttr_TaskStatus = s, ttr_TaskStatusDesc = d, ttr_Error = e\<rparr> } | _ \<Rightarrow> None)"

interpretation ttr_codec: codec enc_TaskResp dec_TaskResp "\<lambda>_. True"
proof
  show "dec_TaskResp (enc_TaskResp x) = Some x" for x
    by (cases x) (simp add: dec_TaskResp_def enc_TaskResp_def dec_str_def omit_str_def)
qed (simp add: enc_TaskResp_def)

definition enc_Counts :: "TransitionTaskCounts \<Rightarrow> json" where
  "enc_Counts c = JObj [(''total'', JNum (cnt_Total c)), (''new'', JNum (cnt_New c)),
     (''in-progress'', JNum (cnt_InProgress c)), (''failed'', JNum (cnt_Failed c)),
     (''succeeded'', JNum (cnt_Succeeded c)), (''un-supported'', JNum (cnt_Unsupported c))]"

definition dec_Counts :: "json \<Rightarrow> TransitionTaskCounts option" where
  "dec_Counts j = (case j of JObj ob \<Rightarrow> do {
       t \<leftarrow> dec_int ob ''total'';
       n \<leftarrow> dec_int ob ''new'';
       i \<leftarrow> dec_int ob ''in-progress'';
       f \<leftarrow> dec_int ob ''failed'';
       s \<leftarrow> dec_int ob ''succeeded'';
       u \<leftarrow> dec_int ob ''un-supported'';
       Some \<lparr>cnt_Total = t, cnt_New = n, cnt_InProgress = i, cnt_Failed = f, cnt_Succeeded = s,
         cnt_Unsupported = u\<rparr> } | _ \<Rightarrow> None)"

interpretation cnt_codec: codec enc_Counts dec_Counts "\<lambda>_. True"
proof
  show "dec_Counts (enc_Counts x) = Some x" for x
    by (cases x) (simp add: dec_Counts_def enc_Counts_def dec_int_def)
qed (simp add: enc_Counts_def)

section \<open>Transitions, pages, tasks and power status\<close>

definition enc_Transition :: "Transition \<Rightarrow> json" where
  "enc_Transition t = JObj ([
     (''transitionID'', enc_uuid (tr_TransitionID t)),
     (''operation'', enc_Operation (tr_Operation t)),
     (''taskDeadlineMinutes'', JNum (tr_TaskDeadline t)),
     (''location'', enc_slice enc_Location (tr_Location t)),
     (''createTime'', JTime (tr_CreateTime t)),
     (''lastActiveTime'', JTime (tr_LastActiveTime t)),
     (''automaticExpirationTime'', JTime (tr_AutomaticExpirationTime t)),
     (''transitionStatus'', JStr (tr_Status t)),
     (''TaskIDs'', enc_slice enc_uuid (tr_TaskIDs t)),
     (''isCompressed'', JBool (tr_IsCompressed t)),
     (''taskCounts'', enc_Counts (tr_TaskCounts t))] @
     omit_slice ''tasks'' enc_TaskResp (tr_Tasks t))"

definition dec_Transition :: "json \<Rightarrow> Transition option" where
  "dec_Transition j = (case j of JObj ob \<Rightarrow> do {
       i \<leftarrow> dec_uuid ob ''transitionID'';
       op \<leftarrow> dec_enum json_Operation Operation_On ob ''operation'';
       dl \<leftarrow> dec_int ob ''taskDeadlineMinutes'';
       loc \<leftarrow> dec_slice dec_Location ob ''location'';
       ct \<leftarrow> dec_time ob ''createTime'';
       la \<leftarrow> dec_time ob ''lastActiveTime'';
       ex \<leftarrow> dec_time ob ''automaticExpirationTime'';
       st \<leftarrow> dec_str ob ''transitionStatus'';
       ids \<leftarrow> dec_slice json_uuid ob ''TaskIDs'';
       c \<leftarrow> dec_bool ob ''isCompressed'';
       cn \<leftarrow> dec_enum dec_Counts zero_counts ob ''taskCounts'';
       ts \<leftarrow> dec_slice dec_TaskResp ob ''tasks'';
       Some \<lparr>tr_TransitionID = i, tr_Operation = op, tr_TaskDeadline = dl, tr_Location = loc,
         tr_CreateTime = ct, tr_LastActiveTime = la, tr_AutomaticExpirationTime = ex,
         tr_Status = st, tr_TaskIDs = ids, tr_IsCompressed = c, tr_TaskCounts = cn, tr_Tasks = ts\<rparr> }
     | _ \<Rightarrow> None)"

definition wf_transition :: "Transition \<Rightarrow> bool" where
  "wf_transition t \<longleftrightarrow> uuid_ok (tr_TransitionID t) \<and> list_all uuid_ok (sl (tr_TaskIDs t))"

definition norm_transition :: "Transition \<Rightarrow> Transition" where
  "norm_transition t = (if tr_Tasks t = Some [] then t\<lparr>tr_Tasks := None\<rparr> else t)"

lemma dec_enum_enc [simp]:
  "map_of ob k = Some (e x) \<Longrightarrow> e x \<noteq> JNull \<Longrightarrow> d (e x) = Some x \<Longrightarrow> dec_enum d z ob k = Some x"
  by (simp add: dec_enum_def)

lemmas codec_leaves =
  uuid_codec.enc_not_null op_codec.enc_not_null ts_codec.enc_not_null cnt_codec.enc_not_null
  uuid_codec.dec_enc op_codec.dec_enc ts_codec.dec_enc cnt_codec.dec_enc

lemma dec_uuid_enc: "map_of ob k = Some (enc_uuid u) \<Longrightarrow> uuid_ok u \<Longrightarrow> dec_uuid ob k = Some u"
  by (simp add: dec_uuid_def enc_uuid_def json_uuid_def)

lemma dec_tail_omit:
  "map_of ob k = None \<Longrightarrow> dec_slice dec_TaskResp (ob @ omit_slice k enc_TaskResp xs) k =
     Some (if sl xs = [] then None else xs)"
  using ttr_codec.dec_all_enc [of "sl xs"]
  by (cases xs) (simp_all add: dec_slice_def omit_slice_def list_all_iff map_add_def)

text \<open>Only an empty list of task results changes: \<open>omitempty\<close> drops it.\<close>

lemma dec_enc_Transition:
  assumes "wf_transition t"
  shows "dec_Transition (enc_Transition t) = Some (norm_transition t)"
proof -
  let ?ob = "[(''transitionID'', enc_uuid (tr_TransitionID t)),
     (''operation'', enc_Operation (tr_Operation t)),
     (''taskDeadlineMinutes'', JNum (tr_TaskDeadline t)),
     (''location'', enc_slice enc_Location (tr_Location t)),
     (''createTime'', JTime (tr_CreateTime t)),
     (''lastActiveTime'', JTime (tr_LastActiveTime t)),
     (''automaticExpirationTime'', JTime (tr_AutomaticExpirationTime t)),
     (''transitionStatus'', JStr (tr_Status t)),
     (''TaskIDs'', enc_slice enc_uuid (tr_TaskIDs t)),
     (''isCompressed'', JBool (tr_IsCompressed t)),
     (''taskCounts'', enc_Counts (tr_TaskCounts t))]" and ?om = "omit_slice ''tasks'' enc_TaskResp (tr_Tasks t)"
  have l: "dec_slice dec_Location (?ob @ ?om) ''location'' = Some (tr_Location t)"
    by (rule loc_codec.dec_slice_enc) (simp_all add: list_all_iff)
  have i: "dec_slice json_uuid (?ob @ ?om) ''TaskIDs'' = Some (tr_TaskIDs t)"
    using assms by (intro uuid_codec.dec_slice_enc) (simp_all add: wf_transition_def)
  have u: "dec_uuid (?ob @ ?om) ''transitionID'' = Some (tr_TransitionID t)"
    using assms by (intro dec_uuid_enc) (simp_all add: wf_transition_def)
  have o: "dec_enum json_Operation Operation_On (?ob @ ?om) ''operation'' = Some (tr_Operation t)"
    by (simp add: dec_enum_def codec_leaves)
  have c: "dec_enum dec_Counts zero_counts (?ob @ ?om) ''taskCounts'' = Some (tr_TaskCounts t)"
    by (simp add: dec_enum_def codec_leaves)
  have k: "dec_slice dec_TaskResp (?ob @ ?om) ''tasks'' = Some (if sl (tr_Tasks t) = [] then None else tr_Tasks t)"
    by (rule dec_tail_omit) simp
  have n: "norm_transition t = t\<lparr>tr_Tasks := (if sl (tr_Tasks t) = [] then None else tr_Tasks t)\<rparr>"
    by (cases "tr_Tasks t") (auto simp: norm_transition_def)
  show ?thesis
    unfolding dec_Transition_def enc_Transition_def n
    by (simp only: json.case l i u o c k Option.bind.simps)
      (simp add: dec_int_def dec_time_def dec_str_def dec_bool_def)
qed

definition enc_Page :: "TransitionPage \<Rightarrow> json" where
  "enc_Page p = JObj ([
     (''ID'', JStr (tp_ID p)),
     (''transitionID'', enc_uuid (tp_TransitionID p)),
     (''index'', JNum (tp_Index p)),
     (''location'', enc_slice enc_Location (tp_Location p))] @
     omit_slice ''tasks'' enc_TaskResp (tp_Tasks p) @
     [(''TaskIDs'', enc_slice enc_uuid (tp_TaskIDs p))])"

definition dec_Page :: "json \<Rightarrow> TransitionPage option" where
  "dec_Page j = (case j of JObj ob \<Rightarrow> do {
       i \<leftarrow> dec_str ob ''ID'';
       u \<leftarrow> dec_uuid ob ''transitionID'';
       n \<leftarrow> dec_int ob ''index'';
       loc \<leftarrow> dec_slice dec_Location ob ''location'';
       ts \<leftarrow> dec_slice dec_TaskResp ob ''tasks'';
       ids \<leftarrow> dec_slice json_uuid ob ''TaskIDs'';
       Some \<lparr>tp_ID = i, tp_TransitionID = u, tp_Index = n, tp_Location = loc, tp_Tasks = ts,
         tp_TaskIDs = ids\<rparr> } | _ \<Rightarrow> None)"

definition wf_page :: "TransitionPage \<Rightarrow> bool" where
  "wf_page p \<longleftrightarrow> uuid_ok (tp_TransitionID p) \<and> list_all uuid_ok (sl (tp_TaskIDs p)) \<and> tp_Tasks p \<noteq> Some []"

definition enc_Task :: "TransitionTask \<Rightarrow> json" where
  "enc_Task t = JObj ([
     (''taskID'', enc_uuid (tt_TaskID t)),
     (''transitionID'', enc_uuid (tt_TransitionID t)),
     (''operation'', enc_Operation (tt_Operation t)),
     (''TaskState'', enc_TaskState (tt_State t)),
     (''xname'', JStr (tt_Xname t))] @
     omit_str ''reservationKey'' (tt_ReservationKey t) @
     omit_str ''deputyKey'' (tt_DeputyKey t) @
     [(''taskStatus'', JStr (tt_Status t)),
     (''taskStatusDescription'', JStr (tt_StatusDesc t))] @
     omit_str ''error'' (tt_Error t))"

definition dec_Task :: "json \<Rightarrow> TransitionTask option" where
  "dec_Task j = (case j of JObj ob \<Rightarrow> do {
       i \<leftarrow> dec_uuid ob ''taskID'';
       u \<leftarrow> dec_uuid ob ''transitionID'';
       op \<leftarrow> dec_enum json_Operation Operation_On ob ''operation'';
       st \<leftarrow> dec_enum json_TaskState TaskState_GatherData ob ''TaskState'';
       x \<leftarrow> dec_str ob ''xname'';
       r \<leftarrow> dec_str ob ''reservationKey'';
       d \<leftarrow> dec_str ob ''deputyKey'';
       s \<leftarrow> dec_str ob ''taskStatus'';
       sd \<leftarrow> dec_str ob ''taskStatusDescription'';
       e \<leftarrow> dec_str ob ''error'';
       Some \<lparr>tt_TaskID = i, tt_TransitionID = u, tt_Operation = op, tt_State = st, tt_Xname = x,
         tt_ReservationKey = r, tt_DeputyKey = d, tt_Status = s, tt_StatusDesc = sd, tt_Error = e\<rparr> }
     | _ \<Rightarrow> None)"

definition wf_task :: "TransitionTask \<Rightarrow> bool" where
  "wf_task t \<longleftrightarrow> uuid_ok (tt_TaskID t) \<and> uuid_ok (tt_TransitionID t)"

definition enc_PowerStatus :: "PowerStatusComponent \<Rightarrow> json" where
  "enc_PowerStatus p = JObj [
     (''xname'', JStr (ps_XName p)),
     (''powerState'', JStr (ps_PowerState p)),
     (''managementState'', JStr (ps_ManagementState p)),
     (''error'', JStr (ps_Error p)),
     (''supportedPowerTransitions'', JArr (map JStr (ps_SupportedPowerTransitions p))),
     (''lastUpdated'', JStr (ps_LastUpdated p))]"

definition dec_PowerStatus :: "json \<Rightarrow> PowerStatusComponent option" where
  "dec_PowerStatus j = (case j of JObj ob \<Rightarrow> do {
       x \<leftarrow> dec_str ob ''xname'';
       s \<leftarrow> dec_str ob ''powerState'';
       m \<leftarrow> dec_str ob ''managementState'';
       e \<leftarrow> dec_str ob ''error'';
       ts \<leftarrow> dec_string_slice ob ''supportedPowerTransitions'';
       l \<leftarrow> dec_str ob ''lastUpdated'';
       Some \<lparr>ps_XName = x, ps_PowerState = s, ps_ManagementState = m, ps_Error = e,
         ps_SupportedPowerTransitions = sl ts, ps_LastUpdated = l\<rparr> } | _ \<Rightarrow> None)"

interpretation page_codec: codec enc_Page dec_Page wf_page
proof
  fix p :: TransitionPage
  assume "wf_page p"
  then show "dec_Page (enc_Page p) = Some p"
    using uuid_codec.dec_all_enc [of "sl (tp_TaskIDs p)"] loc_codec.dec_all_enc [of "sl (tp_Location p)"]
      ttr_codec.dec_all_enc [of "sl (tp_Tasks p)"]
    by (cases p; cases "tp_TaskIDs p"; cases "tp_Location p"; cases "tp_Tasks p")
      (auto simp: wf_page_def dec_Page_def enc_Page_def dec_str_def dec_int_def dec_uuid_def enc_uuid_def
        json_uuid_def dec_slice_def enc_slice_def omit_slice_def list_all_iff)
qed (simp add: enc_Page_def)

interpretation task_codec: codec enc_Task dec_Task wf_task
proof
  fix t :: TransitionTask
  assume "wf_task t"
  then show "dec_Task (enc_Task t) = Some t"
    by (cases t) (simp add: wf_task_def dec_Task_def enc_Task_def dec_str_def dec_uuid_def enc_uuid_def
        json_uuid_def omit_str_def dec_enum_def codec_leaves)
qed (simp add: enc_Task_def)

interpretation ps_codec: codec enc_PowerStatus dec_PowerStatus "\<lambda>_. True"
proof
  show "dec_PowerStatus (enc_PowerStatus p) = Some p" for p
    using str_codec.dec_all_enc [of "ps_SupportedPowerTransitions p"]
    by (cases p) (simp add: dec_PowerStatus_def enc_PowerStatus_def dec_str_def dec_string_slice_def
        dec_slice_def list_all_iff)
qed (simp add: enc_PowerStatus_def)

end
