(* ===== verification/World.thy ===== *)
theory World
  imports Json
begin

text \<open>
  The world an instance of the service runs in, and the actions on it. An action is a
  state transformer (\<open>HOL-Library.State_Monad\<close>). The world holds the key-value store that
  all instances share and what the instance cannot choose, each as a function of the
  number of steps taken so far:
  \<^item> \<open>w_peers\<close>: what other instances write to the store before a step. A theorem for
    every \<open>w_peers\<close> covers every interleaving with other instances and with the other
    goroutines of this one, at the grain of single store calls;
  \<^item> \<open>w_faults\<close>: the error the etcd client reports at a step, if any;
  \<^item> \<open>w_clock\<close>, \<open>w_fresh\<close>: the clock reading and the UUID a step draws;
  \<^item> \<open>w_order\<close>: the number that fixes the order of a \<open>range\<close> over a map.

  The key-value store is the vendored interface \<open>Kvi\<close> of
  \<^verbatim>\<open>vendor/github.com/Cray-HPE/hms-hmetcd/kvs_etcd.go\<close> in its two implementations.
\<close>

datatype kv_event = EvPut string json | EvDelete string

type_synonym kvstore = "(string \<times> json) list"

fun apply_event :: "kvstore \<Rightarrow> kv_event \<Rightarrow> kvstore" where
  "apply_event m (EvPut k v) = AList.update k v m"
| "apply_event m (EvDelete k) = AList.delete k m"

record world =
  kvs :: kvstore
  ticks :: nat
  w_peers :: "nat \<Rightarrow> kv_event list"
  w_faults :: "nat \<Rightarrow> err option"
  w_clock :: "nat \<Rightarrow> time"
  w_fresh :: "nat \<Rightarrow> uuid"
  w_order :: "nat \<Rightarrow> nat"

type_synonym ('z, 'a) io = "('z world_scheme, 'a) state"

definition step :: "('z, nat) io" where
  "step = State (\<lambda>w. (ticks w,
     w\<lparr>ticks := Suc (ticks w), kvs := foldl apply_event (kvs w) (w_peers w (ticks w))\<rparr>))"

definition now :: "('z, time) io" where
  "now = do { n \<leftarrow> step; w \<leftarrow> State_Monad.get; State_Monad.return (w_clock w n) }"

definition new_uuid :: "('z, uuid) io" where
  "new_uuid = do { n \<leftarrow> step; w \<leftarrow> State_Monad.get; State_Monad.return (w_fresh w n) }"

definition range_over :: "'a list \<Rightarrow> ('z, 'a list) io" where
  "range_over xs = do { n \<leftarrow> step; w \<leftarrow> State_Monad.get; State_Monad.return (shuffle (w_order w n) xs) }"

fun for_each :: "('a \<Rightarrow> ('z, unit) io) \<Rightarrow> 'a list \<Rightarrow> ('z, unit) io" where
  "for_each f [] = State_Monad.return ()"
| "for_each f (x # xs) = do { _ \<leftarrow> f x; for_each f xs }"

text \<open>A loop that carries a value.\<close>

fun fold_io :: "('a \<Rightarrow> 'b \<Rightarrow> ('z, 'b) io) \<Rightarrow> 'a list \<Rightarrow> 'b \<Rightarrow> ('z, 'b) io" where
  "fold_io f [] b = State_Monad.return b"
| "fold_io f (x # xs) b = do { b' \<leftarrow> f x b; fold_io f xs b' }"

section \<open>The key-value store\<close>

datatype kvi = Kvs_etcd | Kvs_mem

text \<open>One call: the peers move, then the call fails (etcd only) or takes effect at once.\<close>

definition kv_call :: "kvi \<Rightarrow> (kvstore \<Rightarrow> 'a \<times> kvstore) \<Rightarrow> ('z, err + 'a) io" where
  "kv_call h f = do {
     n \<leftarrow> step;
     w \<leftarrow> State_Monad.get;
     case (if h = Kvs_etcd then w_faults w n else None) of
       Some e \<Rightarrow> State_Monad.return (Inl e)
     | None \<Rightarrow> do {
         _ \<leftarrow> State_Monad.set (w\<lparr>kvs := snd (f (kvs w))\<rparr>);
         State_Monad.return (Inr (fst (f (kvs w)))) } }"

definition Kvi_Get :: "kvi \<Rightarrow> string \<Rightarrow> ('z, err + json option) io" where
  "Kvi_Get h key = kv_call h (\<lambda>m. (map_of m key, m))"

definition Kvi_Store :: "kvi \<Rightarrow> string \<Rightarrow> json \<Rightarrow> ('z, err + unit) io" where
  "Kvi_Store h key val = kv_call h (\<lambda>m. ((), AList.update key val m))"

definition Kvi_Delete :: "kvi \<Rightarrow> string \<Rightarrow> ('z, err + unit) io" where
  "Kvi_Delete h key = kv_call h (\<lambda>m. ((), AList.delete key m))"

text \<open>The range of etcd excludes its end, the one of the memory store includes it.\<close>

definition in_range :: "kvi \<Rightarrow> string \<Rightarrow> string \<Rightarrow> string \<Rightarrow> bool" where
  "in_range h s e key \<longleftrightarrow> s \<le> key \<and> (case h of Kvs_etcd \<Rightarrow> key < e | Kvs_mem \<Rightarrow> key \<le> e)"

definition Kvi_GetRange :: "kvi \<Rightarrow> string \<Rightarrow> string \<Rightarrow> ('z, err + (string \<times> json) list) io" where
  "Kvi_GetRange h s e = do {
     r \<leftarrow> kv_call h (\<lambda>m. (filter (\<lambda>(k, v). in_range h s e k) m, m));
     case r of Inl err \<Rightarrow> State_Monad.return (Inl err)
     | Inr kvl \<Rightarrow> do { l \<leftarrow> range_over kvl; State_Monad.return (Inr l) } }"

text \<open>
  Test-and-set: in etcd a missing key fails the test, the memory store sets a missing key.
\<close>

definition tas :: "kvi \<Rightarrow> string \<Rightarrow> json \<Rightarrow> json \<Rightarrow> kvstore \<Rightarrow> bool \<times> kvstore" where
  "tas h key testval setval m =
     (case map_of m key of
        None \<Rightarrow> if h = Kvs_mem then (True, AList.update key setval m) else (False, m)
      | Some v \<Rightarrow> if v = testval then (True, AList.update key setval m) else (False, m))"

definition Kvi_TAS :: "kvi \<Rightarrow> string \<Rightarrow> json \<Rightarrow> json \<Rightarrow> ('z, err + bool) io" where
  "Kvi_TAS h key testval setval = kv_call h (tas h key testval setval)"

section \<open>Invariants of actions\<close>

definition keeps :: "('z world_scheme \<Rightarrow> bool) \<Rightarrow> ('z, 'a) io \<Rightarrow> bool" where
  "keeps P m \<longleftrightarrow> (\<forall>w. P w \<longrightarrow> P (snd (run_state m w)))"

lemma keepsI: "(\<And>w. P w \<Longrightarrow> P (snd (run_state m w))) \<Longrightarrow> keeps P m"
  by (simp add: keeps_def)

lemma keepsD: "keeps P m \<Longrightarrow> P w \<Longrightarrow> P (snd (run_state m w))"
  by (simp add: keeps_def)

lemma keeps_return [keeps_intro]: "keeps P (State_Monad.return x)"
  by (simp add: keeps_def)

lemma keeps_bind [keeps_intro]:
  "keeps P m \<Longrightarrow> (\<And>x. keeps P (f x)) \<Longrightarrow> keeps P (State_Monad.bind m f)"
  by (simp add: keeps_def split: prod.splits) (metis snd_conv)

lemma keeps_get [keeps_intro]: "keeps P State_Monad.get"
  by (simp add: keeps_def)

lemma keeps_if [keeps_intro]: "keeps P m \<Longrightarrow> keeps P n \<Longrightarrow> keeps P (if b then m else n)"
  by simp

lemma keeps_case_option [keeps_intro]:
  "keeps P m \<Longrightarrow> (\<And>x. keeps P (f x)) \<Longrightarrow> keeps P (case r of None \<Rightarrow> m | Some x \<Rightarrow> f x)"
  by (cases r) auto

lemma keeps_case_sum [keeps_intro]:
  "(\<And>x. keeps P (f x)) \<Longrightarrow> (\<And>x. keeps P (g x)) \<Longrightarrow> keeps P (case r of Inl x \<Rightarrow> f x | Inr x \<Rightarrow> g x)"
  by (cases r) auto

lemma keeps_case_prod [keeps_intro]:
  "(\<And>a b. keeps P (f a b)) \<Longrightarrow> keeps P (case r of (a, b) \<Rightarrow> f a b)"
  by (cases r) auto

lemma keeps_Let [keeps_intro]: "(\<And>x. keeps P (f x)) \<Longrightarrow> keeps P (let x = e in f x)"
  by (simp add: Let_def)

lemma keeps_for_each [keeps_intro]: "(\<And>x. keeps P (f x)) \<Longrightarrow> keeps P (for_each f xs)"
  by (induction xs) (auto intro: keeps_intro)

lemma keeps_fold_io [keeps_intro]: "(\<And>x b. keeps P (f x b)) \<Longrightarrow> keeps P (fold_io f xs b)"
  by (induction xs arbitrary: b) (auto intro: keeps_intro)

text \<open>
  What a property of worlds must satisfy for every action of the service to keep it: time may
  pass and the calls of the store may be made. The components add their own actions.
\<close>

locale action_inv =
  fixes P :: "'z world_scheme \<Rightarrow> bool"
  assumes keeps_step [keeps_intro]: "keeps P step"
    and keeps_Get [keeps_intro]: "keeps P (Kvi_Get h k)"
    and keeps_Store [keeps_intro]: "keeps P (Kvi_Store h k v)"
    and keeps_Delete [keeps_intro]: "keeps P (Kvi_Delete h k)"
    and keeps_select [keeps_intro]: "keeps P (kv_call h (\<lambda>m. (filter Q m, m)))"
    and keeps_TAS [keeps_intro]: "keeps P (Kvi_TAS h k a b)"
begin

lemma keeps_now [keeps_intro]: "keeps P now"
  unfolding now_def by (intro keeps_intro)

lemma keeps_new_uuid [keeps_intro]: "keeps P new_uuid"
  unfolding new_uuid_def by (intro keeps_intro)

lemma keeps_range_over [keeps_intro]: "keeps P (range_over xs)"
  unfolding range_over_def by (intro keeps_intro)

lemma keeps_GetRange [keeps_intro]: "keeps P (Kvi_GetRange h a b)"
  unfolding Kvi_GetRange_def by (intro keeps_intro)

end

definition peers_keep :: "(kvstore \<Rightarrow> bool) \<Rightarrow> 'z world_scheme \<Rightarrow> bool" where
  "peers_keep P w \<longleftrightarrow> (\<forall>n m. P m \<longrightarrow> P (foldl apply_event m (w_peers w n)))"

definition store_inv :: "(kvstore \<Rightarrow> bool) \<Rightarrow> 'z world_scheme \<Rightarrow> bool" where
  "store_inv P w \<longleftrightarrow> P (kvs w) \<and> peers_keep P w"

lemma store_inv_step: "keeps (store_inv P) step"
  by (simp add: keeps_def step_def store_inv_def peers_keep_def)

lemma store_inv_kv_call:
  assumes "\<And>m. P m \<Longrightarrow> P (snd (f m))"
  shows "keeps (store_inv P) (kv_call h f)"
  using assms
  by (auto simp: keeps_def kv_call_def store_inv_def peers_keep_def step_def split: option.splits)

text \<open>The keys of the store stay distinct, whatever the peers write.\<close>

definition distinct_store :: "kvstore \<Rightarrow> bool" where
  "distinct_store m \<longleftrightarrow> distinct (keys m)"

lemma distinct_store_event: "distinct_store m \<Longrightarrow> distinct_store (apply_event m e)"
  by (cases e) (simp_all add: distinct_store_def)

lemma distinct_store_peers: "distinct_store m \<Longrightarrow> distinct_store (foldl apply_event m es)"
  by (induction es arbitrary: m) (auto simp: distinct_store_event)

lemma peers_keep_distinct [simp]: "peers_keep distinct_store w"
  by (simp add: peers_keep_def distinct_store_peers)

interpretation distinct: action_inv "store_inv distinct_store"
  by unfold_locales (auto intro!: store_inv_step store_inv_kv_call
      simp: Kvi_Get_def Kvi_Store_def Kvi_Delete_def Kvi_TAS_def distinct_store_def tas_def split: option.splits)

text \<open>Time only moves forward: steps are counted up and the clock stays the same function.\<close>

definition clock_inv :: "nat \<Rightarrow> (nat \<Rightarrow> time) \<Rightarrow> 'z world_scheme \<Rightarrow> bool" where
  "clock_inv n c w \<longleftrightarrow> n \<le> ticks w \<and> w_clock w = c"

lemma clock_inv_step: "keeps (clock_inv n c) step"
  by (simp add: keeps_def step_def clock_inv_def)

lemma clock_inv_kv_call: "keeps (clock_inv n c) (kv_call h f)"
  by (auto simp: keeps_def kv_call_def step_def clock_inv_def split: option.splits)

interpretation clock: action_inv "clock_inv n c" for n c
  by unfold_locales (auto intro!: clock_inv_step clock_inv_kv_call
      simp: Kvi_Get_def Kvi_Store_def Kvi_Delete_def Kvi_TAS_def)

section \<open>Postconditions of actions\<close>

text \<open>A value that an action gives in every world, and pre- and postconditions on both.\<close>

definition gives :: "('a \<Rightarrow> bool) \<Rightarrow> ('z, 'a) io \<Rightarrow> bool" where
  "gives Q m \<longleftrightarrow> (\<forall>w. Q (fst (run_state m w)))"

lemma givesD: "gives Q m \<Longrightarrow> run_state m w = (a, w') \<Longrightarrow> Q a"
  unfolding gives_def by (metis fst_conv)

lemma gives_bind: "gives Q m \<Longrightarrow> (\<And>a. Q a \<Longrightarrow> gives R (f a)) \<Longrightarrow> gives R (State_Monad.bind m f)"
  by (simp add: gives_def split: prod.splits) (metis fst_conv)

lemma gives_skip: "(\<And>a. gives R (f a)) \<Longrightarrow> gives R (State_Monad.bind m f)"
  by (rule gives_bind [where Q = "\<lambda>_. True"]) (simp_all add: gives_def)

lemma gives_return [simp]: "gives Q (State_Monad.return a) = Q a"
  by (simp add: gives_def)

lemma gives_fold_io: "(\<And>x b. x \<in> set xs \<Longrightarrow> I b \<Longrightarrow> gives I (f x b)) \<Longrightarrow> I b \<Longrightarrow> gives I (fold_io f xs b)"
  by (induction xs arbitrary: b) (auto intro: gives_bind)

lemma gives_mono: "gives Q m \<Longrightarrow> (\<And>a. Q a \<Longrightarrow> R a) \<Longrightarrow> gives R m"
  by (simp add: gives_def)

definition triple :: "('z world_scheme \<Rightarrow> bool) \<Rightarrow> ('z, 'a) io \<Rightarrow> ('a \<Rightarrow> 'z world_scheme \<Rightarrow> bool) \<Rightarrow> bool" where
  "triple P a Q \<longleftrightarrow> (\<forall>w. P w \<longrightarrow> Q (fst (run_state a w)) (snd (run_state a w)))"

lemma tripleD: "triple P a Q \<Longrightarrow> P w \<Longrightarrow> run_state a w = (r, w') \<Longrightarrow> Q r w'"
  unfolding triple_def by (metis fst_conv snd_conv)

lemma triple_return: "(\<And>w. P w \<Longrightarrow> Q a w) \<Longrightarrow> triple P (State_Monad.return a) Q"
  by (simp add: triple_def)

lemma triple_bind: "triple P a R \<Longrightarrow> (\<And>r. triple (R r) (f r) Q) \<Longrightarrow> triple P (State_Monad.bind a f) Q"
  by (simp add: triple_def split: prod.splits) (metis fst_conv snd_conv)

lemma triple_weaken: "triple P a Q \<Longrightarrow> (\<And>w. P' w \<Longrightarrow> P w) \<Longrightarrow> (\<And>r w. Q r w \<Longrightarrow> Q' r w) \<Longrightarrow> triple P' a Q'"
  unfolding triple_def by blast

lemma triple_fold: "(\<And>x b. x \<in> set xs \<Longrightarrow> triple (I b) (f x b) I) \<Longrightarrow> triple (I b) (fold_io f xs b) I"
  by (induction xs arbitrary: b) (auto intro!: triple_return triple_bind)

lemma triple_conj_const: "triple P a Q \<Longrightarrow> triple (\<lambda>w. P w \<and> A) a (\<lambda>r w. Q r w \<and> A)"
  unfolding triple_def by blast

lemma triple_pure: "(\<And>w. P w \<Longrightarrow> A) \<Longrightarrow> (A \<Longrightarrow> triple P a Q) \<Longrightarrow> triple P a Q"
  unfolding triple_def by blast

section \<open>One step\<close>

definition bump :: "'z world_scheme \<Rightarrow> 'z world_scheme" where
  "bump w = w\<lparr>ticks := Suc (ticks w), kvs := foldl apply_event (kvs w) (w_peers w (ticks w))\<rparr>"

lemma bump_simps [simp]: "ticks (bump w) = Suc (ticks w)" "w_clock (bump w) = w_clock w" "w_peers (bump w) = w_peers w"
  "w_faults (bump w) = w_faults w" "kvs (bump w) = foldl apply_event (kvs w) (w_peers w (ticks w))"
  by (simp_all add: bump_def)

lemma run_step: "run_state step w = (ticks w, bump w)"
  by (simp add: step_def bump_def)

lemma run_now: "run_state now w = (w_clock w (ticks w), bump w)"
  by (simp add: now_def run_step)

lemma run_kv_call: "run_state (kv_call Kvs_etcd f) w = (case w_faults w (ticks w) of
    Some er \<Rightarrow> (Inl er, bump w)
  | None \<Rightarrow> (Inr (fst (f (kvs (bump w)))), (bump w)\<lparr>kvs := snd (f (kvs (bump w)))\<rparr>))"
  by (simp add: kv_call_def run_step split: option.splits)

section \<open>Quiet worlds\<close>

text \<open>No peer writes and no call fails: the sequential, fault-free runs.\<close>

definition quiet :: "'z world_scheme \<Rightarrow> bool" where
  "quiet w \<longleftrightarrow> (\<forall>n. w_peers w n = []) \<and> (\<forall>n. w_faults w n = None)"

lemma quiet_tick [simp]: "quiet (w\<lparr>ticks := n\<rparr>) = quiet w" "quiet (w\<lparr>kvs := m\<rparr>) = quiet w"
  by (simp_all add: quiet_def)

definition tick :: "'z world_scheme \<Rightarrow> 'z world_scheme" where
  "tick w = w\<lparr>ticks := Suc (ticks w)\<rparr>"

lemma tick_simps [simp]: "kvs (tick w) = kvs w" "quiet (tick w) = quiet w"
  "w_clock (tick w) = w_clock w" "w_fresh (tick w) = w_fresh w" "w_order (tick w) = w_order w"
  by (simp_all add: tick_def)

lemma run_step_quiet [run_simps]: "quiet w \<Longrightarrow> run_state step w = (ticks w, tick w)"
  by (simp add: step_def quiet_def tick_def)

lemma run_now_quiet [run_simps]: "quiet w \<Longrightarrow> run_state now w = (w_clock w (ticks w), tick w)"
  by (simp add: now_def run_step_quiet)

lemma run_new_uuid_quiet [run_simps]: "quiet w \<Longrightarrow> run_state new_uuid w = (w_fresh w (ticks w), tick w)"
  by (simp add: new_uuid_def run_step_quiet)

lemma run_range_over_quiet [run_simps]:
  "quiet w \<Longrightarrow> run_state (range_over xs) w = (shuffle (w_order w (ticks w)) xs, tick w)"
  by (simp add: range_over_def run_step_quiet)

lemma run_kv_call_quiet [run_simps]:
  "quiet w \<Longrightarrow> run_state (kv_call h f) w = (Inr (fst (f (kvs w))), (tick w)\<lparr>kvs := snd (f (kvs w))\<rparr>)"
  by (simp add: kv_call_def run_step_quiet) (simp add: quiet_def tick_def)

lemma tick_kvs [simp]: "tick (w\<lparr>kvs := m\<rparr>) = (tick w)\<lparr>kvs := m\<rparr>"
  by (simp add: tick_def)

text \<open>The empty world: nothing stored, no peers, no faults.\<close>

definition empty_world :: world where
  "empty_world = \<lparr>kvs = [], ticks = 0, w_peers = (\<lambda>_. []), w_faults = (\<lambda>_. None), w_clock = (\<lambda>n. int n),
     w_fresh = (\<lambda>n. nat_str n), w_order = (\<lambda>n. n)\<rparr>"

lemma quiet_empty_world [simp]: "quiet empty_world" "kvs empty_world = []"
  by (simp_all add: quiet_def empty_world_def)

end
