(* ===== verification/Xnames.thy ===== *)
theory Xnames
  imports Prelude
begin

text \<open>
  Component names (xnames) and component types: the vendored package
  \<^verbatim>\<open>vendor/github.com/Cray-HPE/hms-xname/xnametypes/hmstypes.go\<close> as far as the service uses
  it. The recognition table is kept as data (component type, parent type, regular
  expression); \<open>GetHMSType\<close> ranges over a Go map, so the model takes the order of the
  table as an argument and the first theorem says that the order does not matter. The
  locale \<open>hierarchy\<close> is the contract of walking up from a component to its parents; its
  interpretation on \<open>GetHMSCompParent\<close> makes every such walk end.
\<close>

section \<open>Types and the recognition table\<close>

datatype HMSType =
    CDU | CDUMgmtSwitch | CabinetCDU | Cabinet | CabinetBMC
  | CabinetPDUController | CabinetPDU | CabinetPDUNic | CabinetPDUOutlet | CabinetPDUPowerConnector
  | Chassis | ChassisBMC | ChassisBMCNic | CMMRectifier | CMMFpga
  | CEC | ComputeModule | RouterModule | NodeBMC | NodeBMCNic
  | NodeEnclosure | NodeEnclosurePowerSupply | NodePowerConnector | Node | VirtualNode
  | Processor | StorageGroup | Drive | NodeNic | NodeHsnNic
  | Memory | NodeAccel | NodeAccelRiser | NodeFpga | HSNAsic
  | RouterFpga | RouterTOR | RouterTORFpga | RouterBMC | RouterBMCNic
  | RouterPowerConnector | HSNBoard | HSNLink | HSNConnector | HSNConnectorPort
  | MgmtSwitch | MgmtHLSwitchEnclosure | MgmtHLSwitch | MgmtSwitchConnector | SMSBox
  | Partition | System | HMSTypeAll | HMSTypeAllComp
  | HMSTypeAllSvc | HMSTypeInvalid

fun HMSType_String :: "HMSType \<Rightarrow> string" where
  "HMSType_String CDU = ''CDU''"
| "HMSType_String CDUMgmtSwitch = ''CDUMgmtSwitch''"
| "HMSType_String CabinetCDU = ''CabinetCDU''"
| "HMSType_String Cabinet = ''Cabinet''"
| "HMSType_String CabinetBMC = ''CabinetBMC''"
| "HMSType_String CabinetPDUController = ''CabinetPDUController''"
| "HMSType_String CabinetPDU = ''CabinetPDU''"
| "HMSType_String CabinetPDUNic = ''CabinetPDUNic''"
| "HMSType_String CabinetPDUOutlet = ''CabinetPDUOutlet''"
| "HMSType_String CabinetPDUPowerConnector = ''CabinetPDUPowerConnector''"
| "HMSType_String Chassis = ''Chassis''"
| "HMSType_String ChassisBMC = ''ChassisBMC''"
| "HMSType_String ChassisBMCNic = ''ChassisBMCNic''"
| "HMSType_String CMMRectifier = ''CMMRectifier''"
| "HMSType_String CMMFpga = ''CMMFpga''"
| "HMSType_String CEC = ''CEC''"
| "HMSType_String ComputeModule = ''ComputeModule''"
| "HMSType_String RouterModule = ''RouterModule''"
| "HMSType_String NodeBMC = ''NodeBMC''"
| "HMSType_String NodeBMCNic = ''NodeBMCNic''"
| "HMSType_String NodeEnclosure = ''NodeEnclosure''"
| "HMSType_String NodeEnclosurePowerSupply = ''NodeEnclosurePowerSupply''"
| "HMSType_String NodePowerConnector = ''NodePowerConnector''"
| "HMSType_String Node = ''Node''"
| "HMSType_String VirtualNode = ''VirtualNode''"
| "HMSType_String Processor = ''Processor''"
| "HMSType_String StorageGroup = ''StorageGroup''"
| "HMSType_String Drive = ''Drive''"
| "HMSType_String NodeNic = ''NodeNic''"
| "HMSType_String NodeHsnNic = ''NodeHsnNic''"
| "HMSType_String Memory = ''Memory''"
| "HMSType_String NodeAccel = ''NodeAccel''"
| "HMSType_String NodeAccelRiser = ''NodeAccelRiser''"
| "HMSType_String NodeFpga = ''NodeFpga''"
| "HMSType_String HSNAsic = ''HSNAsic''"
| "HMSType_String RouterFpga = ''RouterFpga''"
| "HMSType_String RouterTOR = ''RouterTOR''"
| "HMSType_String RouterTORFpga = ''RouterTORFpga''"
| "HMSType_String RouterBMC = ''RouterBMC''"
| "HMSType_String RouterBMCNic = ''RouterBMCNic''"
| "HMSType_String RouterPowerConnector = ''RouterPowerConnector''"
| "HMSType_String HSNBoard = ''HSNBoard''"
| "HMSType_String HSNLink = ''HSNLink''"
| "HMSType_String HSNConnector = ''HSNConnector''"
| "HMSType_String HSNConnectorPort = ''HSNConnectorPort''"
| "HMSType_String MgmtSwitch = ''MgmtSwitch''"
| "HMSType_String MgmtHLSwitchEnclosure = ''MgmtHLSwitchEnclosure''"
| "HMSType_String MgmtHLSwitch = ''MgmtHLSwitch''"
| "HMSType_String MgmtSwitchConnector = ''MgmtSwitchConnector''"
| "HMSType_String SMSBox = ''SMSBox''"
| "HMSType_String Partition = ''Partition''"
| "HMSType_String System = ''System''"
| "HMSType_String HMSTypeAll = ''All''"
| "HMSType_String HMSTypeAllComp = ''AllComp''"
| "HMSType_String HMSTypeAllSvc = ''AllSvc''"
| "HMSType_String HMSTypeInvalid = ''INVALID''"

text \<open>The digit groups of the table: \<open>[0-9]{1,4}\<close>, \<open>[0-9]+\<close>, \<open>[1-9][0-9]*\<close> and \<open>[a-b]\<close>.\<close>

datatype dclass = D1to4 | Digits | NonZero | One nat nat

fun dmatch :: "dclass \<Rightarrow> string \<Rightarrow> bool" where
  "dmatch D1to4 ds = (ds \<noteq> [] \<and> length ds \<le> 4)"
| "dmatch Digits ds = (ds \<noteq> [])"
| "dmatch NonZero ds = (ds \<noteq> [] \<and> hd ds \<noteq> CHR ''0'')"
| "dmatch (One a b) ds = (length ds = 1 \<and> a \<le> digits_val ds \<and> digits_val ds \<le> b)"

text \<open>
  One letter out of a set followed by a digit group, repeated: the shape of all
  hierarchical names. A digit group is followed by a letter or the end of the name, so
  taking all digits is the only way to match it.
\<close>

type_synonym segs = "(string \<times> dclass) list"

fun match_segs :: "segs \<Rightarrow> string \<Rightarrow> bool" where
  "match_segs [] s = (s = [])"
| "match_segs ((l, d) # ps) [] = False"
| "match_segs ((l, d) # ps) (c # cs) =
     (c \<in> set l \<and> dmatch d (takeWhile is_digit cs) \<and> match_segs ps (dropWhile is_digit cs))"

datatype regex = RxContains string | RxExact string | RxPartition | RxSms | RxSegs segs

definition match_partition :: "string \<Rightarrow> bool" where
  \<comment> \<open>\<open>^p([0-9]+)(.([0-9]+))?$\<close>: the dot is not escaped, any character but a newline matches\<close>
  "match_partition s =
     (case s of [] \<Rightarrow> False
      | c # r \<Rightarrow> c = CHR ''p'' \<and> takeWhile is_digit r \<noteq> [] \<and>
          (case dropWhile is_digit r of [] \<Rightarrow> True
           | a # ds \<Rightarrow> a \<noteq> CHR 0x0A \<and> ds \<noteq> [] \<and> list_all is_digit ds))"

fun match_regex :: "regex \<Rightarrow> string \<Rightarrow> bool" where
  "match_regex (RxContains sub) s = str_contains s sub"
| "match_regex (RxExact t) s = (s = t)"
| "match_regex RxPartition s = match_partition s"
| "match_regex RxSms s = (has_prefix s ''sms'' \<and> drop 3 s \<noteq> [] \<and> list_all is_digit (drop 3 s))"
| "match_regex (RxSegs ps) s = match_segs ps s"

type_synonym entry = "HMSType \<times> HMSType \<times> regex"

definition hmsCompRecognitionTable :: "entry list" where
  "hmsCompRecognitionTable = [
    (HMSTypeInvalid, HMSTypeInvalid, RxContains ''INVALID''),
    (HMSTypeAll, HMSTypeInvalid, RxExact ''all''),
    (HMSTypeAllSvc, HMSTypeInvalid, RxExact ''all_svc''),
    (HMSTypeAllComp, HMSTypeInvalid, RxExact ''all_comp''),
    (Partition, HMSTypeInvalid, RxPartition),
    (System, HMSTypeInvalid, RxExact ''s0''),
    (SMSBox, HMSTypeInvalid, RxSms),
    (CDU, System, RxSegs [(''d'', Digits)]),
    (CDUMgmtSwitch, CDU, RxSegs [(''d'', Digits), (''w'', Digits)]),
    (CabinetCDU, Cabinet, RxSegs [(''x'', D1to4), (''d'', One 0 1)]),
    (CabinetPDUController, Cabinet, RxSegs [(''x'', D1to4), (''m'', One 0 3)]),
    (CabinetPDU, CabinetPDUController, RxSegs [(''x'', D1to4), (''m'', One 0 3), (''p'', One 0 7)]),
    (CabinetPDUNic, CabinetPDUController, RxSegs [(''x'', D1to4), (''m'', One 0 3), (''i'', One 0 3)]),
    (CabinetPDUOutlet, CabinetPDU, RxSegs [(''x'', D1to4), (''m'', One 0 3), (''p'', One 0 7), (''j'', NonZero)]),
    (CabinetPDUPowerConnector, CabinetPDU, RxSegs [(''x'', D1to4), (''m'', One 0 3), (''p'', One 0 7), (''v'', NonZero)]),
    (CEC, Cabinet, RxSegs [(''x'', D1to4), (''e'', One 0 1)]),
    (Cabinet, System, RxSegs [(''x'', D1to4)]),
    (CabinetBMC, Cabinet, RxSegs [(''x'', D1to4), (''b'', One 0 0)]),
    (Chassis, Cabinet, RxSegs [(''x'', D1to4), (''c'', One 0 7)]),
    (ChassisBMC, Chassis, RxSegs [(''x'', D1to4), (''c'', One 0 7), (''b'', One 0 0)]),
    (ChassisBMCNic, ChassisBMC, RxSegs [(''x'', D1to4), (''c'', One 0 7), (''b'', One 0 0), (''i'', One 0 3)]),
    (CMMFpga, Chassis, RxSegs [(''x'', D1to4), (''c'', One 0 7), (''f'', One 0 0)]),
    (CMMRectifier, Chassis, RxSegs [(''x'', D1to4), (''c'', One 0 7), (''t'', One 0 9)]),
    (ComputeModule, Chassis, RxSegs [(''x'', D1to4), (''c'', One 0 7), (''s'', Digits)]),
    (StorageGroup, Node, RxSegs [(''x'', D1to4), (''c'', One 0 7), (''s'', Digits), (''b'', Digits), (''n'', Digits), (''g'', Digits)]),
    (Drive, StorageGroup, RxSegs [(''x'', D1to4), (''c'', One 0 7), (''s'', Digits), (''b'', Digits), (''n'', Digits), (''g'', Digits), (''k'', Digits)]),
    (NodeFpga, NodeEnclosure, RxSegs [(''x'', D1to4), (''c'', One 0 7), (''s'', Digits), (''b'', Digits), (''f'', One 0 0)]),
    (NodeBMC, ComputeModule, RxSegs [(''x'', D1to4), (''c'', One 0 7), (''s'', Digits), (''b'', Digits)]),
    (NodeBMCNic, NodeBMC, RxSegs [(''x'', D1to4), (''c'', One 0 7), (''s'', Digits), (''b'', Digits), (''i'', One 0 3)]),
    (NodeEnclosure, ComputeModule, RxSegs [(''x'', D1to4), (''c'', One 0 7), (''s'', Digits), (''e'', Digits)]),
    (NodeEnclosurePowerSupply, NodeEnclosure, RxSegs [(''x'', D1to4), (''c'', One 0 7), (''s'', Digits), (''e'', Digits), (''t'', Digits)]),
    (NodePowerConnector, ComputeModule, RxSegs [(''x'', D1to4), (''c'', One 0 7), (''s'', Digits), (''jv'', One 1 2)]),
    (HSNBoard, RouterModule, RxSegs [(''x'', D1to4), (''c'', One 0 7), (''r'', Digits), (''e'', Digits)]),
    (Node, NodeBMC, RxSegs [(''x'', D1to4), (''c'', One 0 7), (''s'', Digits), (''b'', Digits), (''n'', Digits)]),
    (VirtualNode, Node, RxSegs [(''x'', D1to4), (''c'', One 0 7), (''s'', Digits), (''b'', Digits), (''n'', Digits), (''v'', Digits)]),
    (NodeNic, Node, RxSegs [(''x'', D1to4), (''c'', One 0 7), (''s'', Digits), (''b'', Digits), (''n'', Digits), (''i'', One 0 3)]),
    (NodeHsnNic, Node, RxSegs [(''x'', D1to4), (''c'', One 0 7), (''s'', Digits), (''b'', Digits), (''n'', Digits), (''h'', One 0 3)]),
    (NodeAccel, Node, RxSegs [(''x'', D1to4), (''c'', One 0 7), (''s'', Digits), (''b'', Digits), (''n'', Digits), (''a'', Digits)]),
    (NodeAccelRiser, Node, RxSegs [(''x'', D1to4), (''c'', One 0 7), (''s'', Digits), (''b'', Digits), (''n'', Digits), (''r'', One 0 7)]),
    (Memory, Node, RxSegs [(''x'', D1to4), (''c'', One 0 7), (''s'', Digits), (''b'', Digits), (''n'', Digits), (''d'', Digits)]),
    (Processor, Node, RxSegs [(''x'', D1to4), (''c'', One 0 7), (''s'', Digits), (''b'', Digits), (''n'', Digits), (''p'', One 0 3)]),
    (RouterModule, Chassis, RxSegs [(''x'', D1to4), (''c'', One 0 7), (''r'', Digits)]),
    (RouterFpga, RouterModule, RxSegs [(''x'', D1to4), (''c'', One 0 7), (''r'', Digits), (''f'', One 0 1)]),
    (RouterTOR, RouterModule, RxSegs [(''x'', D1to4), (''c'', One 0 7), (''r'', Digits), (''t'', Digits)]),
    (RouterTORFpga, RouterTOR, RxSegs [(''x'', D1to4), (''c'', One 0 7), (''r'', Digits), (''t'', Digits), (''f'', One 0 1)]),
    (RouterBMC, RouterModule, RxSegs [(''x'', D1to4), (''c'', One 0 7), (''r'', Digits), (''b'', Digits)]),
    (RouterBMCNic, RouterBMC, RxSegs [(''x'', D1to4), (''c'', One 0 7), (''r'', Digits), (''b'', Digits), (''i'', One 0 3)]),
    (RouterPowerConnector, RouterModule, RxSegs [(''x'', D1to4), (''c'', One 0 7), (''r'', Digits), (''v'', One 1 2)]),
    (HSNAsic, RouterModule, RxSegs [(''x'', D1to4), (''c'', One 0 7), (''r'', Digits), (''a'', One 0 3)]),
    (HSNConnector, RouterModule, RxSegs [(''x'', D1to4), (''c'', One 0 7), (''r'', Digits), (''j'', NonZero)]),
    (HSNConnectorPort, HSNConnector, RxSegs [(''x'', D1to4), (''c'', One 0 7), (''r'', Digits), (''j'', NonZero), (''p'', One 0 2)]),
    (HSNLink, HSNAsic, RxSegs [(''x'', D1to4), (''c'', One 0 7), (''r'', Digits), (''a'', One 0 3), (''l'', Digits)]),
    (MgmtSwitch, Chassis, RxSegs [(''x'', D1to4), (''c'', One 0 7), (''w'', NonZero)]),
    (MgmtSwitchConnector, MgmtSwitch, RxSegs [(''x'', D1to4), (''c'', One 0 7), (''w'', NonZero), (''j'', NonZero)]),
    (MgmtHLSwitchEnclosure, Chassis, RxSegs [(''x'', D1to4), (''c'', One 0 7), (''h'', NonZero)]),
    (MgmtHLSwitch, MgmtHLSwitchEnclosure, RxSegs [(''x'', D1to4), (''c'', One 0 7), (''h'', NonZero), (''s'', One 1 9)])
  ]"

fun GetHMSType_in :: "entry list \<Rightarrow> string \<Rightarrow> HMSType" where
  "GetHMSType_in [] s = HMSTypeInvalid"
| "GetHMSType_in ((t, p, r) # es) s = (if match_regex r s then t else GetHMSType_in es s)"

definition GetHMSType :: "string \<Rightarrow> HMSType" where
  "GetHMSType s = GetHMSType_in hmsCompRecognitionTable s"

definition IsHMSTypeController :: "HMSType \<Rightarrow> bool" where
  "IsHMSTypeController t \<longleftrightarrow> t \<in> {ChassisBMC, RouterBMC, NodeBMC, CabinetPDUController}"

definition IsHMSCompIDValid :: "string \<Rightarrow> bool" where
  "IsHMSCompIDValid s \<longleftrightarrow> GetHMSType s \<noteq> HMSTypeInvalid"

definition GetHMSCompParent :: "string \<Rightarrow> string" where
  "GetHMSCompParent s =
     (if GetHMSType s = CDU \<or> GetHMSType s = Cabinet then ''s0''
      else trim_right is_letter (trim_right is_digit s))"

text \<open>\<open>ValidateCompIDs\<close>: the loop over the ids with the map of the ones already seen.\<close>

fun ValidateCompIDs_loop ::
  "bool \<Rightarrow> string list \<Rightarrow> string list \<Rightarrow> string list \<Rightarrow> string list \<Rightarrow> string list \<times> string list" where
  "ValidateCompIDs_loop dupsValid seen valid invalid [] = (valid, invalid)"
| "ValidateCompIDs_loop dupsValid seen valid invalid (c # cs) =
     (if c \<notin> set seen then
        (if IsHMSCompIDValid c then ValidateCompIDs_loop dupsValid (c # seen) (valid @ [c]) invalid cs
         else ValidateCompIDs_loop dupsValid (c # seen) valid (invalid @ [c]) cs)
      else if \<not> dupsValid then ValidateCompIDs_loop dupsValid seen valid (invalid @ [c]) cs
      else ValidateCompIDs_loop dupsValid seen valid invalid cs)"

definition ValidateCompIDs :: "string list \<Rightarrow> bool \<Rightarrow> string list \<times> string list" where
  "ValidateCompIDs compIDs dupsValid = ValidateCompIDs_loop dupsValid [] [] [] compIDs"

section \<open>The order of the table does not matter\<close>

definition letters :: "string \<Rightarrow> string" where
  "letters s = filter (\<lambda>c. \<not> is_digit c) s"

text \<open>All letters a pattern allows are letters, so none is a digit.\<close>

definition segs_ok :: "segs \<Rightarrow> bool" where
  "segs_ok ps \<longleftrightarrow> list_all (\<lambda>(l, d). list_all (\<lambda>c. is_letter c \<and> \<not> is_digit c \<and> c \<noteq> CHR ''I'') l) ps"

lemma filter_not_dropWhile: "filter (\<lambda>c. \<not> P c) (dropWhile P cs) = filter (\<lambda>c. \<not> P c) cs"
  by (induction cs) auto

lemma match_segs_letters:
  "segs_ok ps \<Longrightarrow> match_segs ps s \<Longrightarrow> list_all2 (\<lambda>c p. c \<in> set (fst p)) (letters s) ps"
proof (induction ps s rule: match_segs.induct)
  case (3 l d ps c cs)
  then have "list_all2 (\<lambda>c p. c \<in> set (fst p)) (letters (dropWhile is_digit cs)) ps"
    by (auto simp: segs_ok_def)
  moreover have "letters (dropWhile is_digit cs) = letters cs"
    by (simp add: letters_def filter_not_dropWhile)
  moreover have "\<not> is_digit c" using 3 by (auto simp: segs_ok_def list_all_iff)
  ultimately show ?case using 3 by (simp add: letters_def)
qed (auto simp: letters_def)

text \<open>Two patterns clash when one name could have the letters of both.\<close>

definition segs_clash :: "segs \<Rightarrow> segs \<Rightarrow> bool" where
  "segs_clash ps qs \<longleftrightarrow> length ps = length qs \<and>
     list_all (\<lambda>(p, q). list_ex (\<lambda>c. List.member (fst q) c) (fst p)) (zip ps qs)"

lemma letters_segs_clash:
  "list_all2 (\<lambda>c p. c \<in> set (fst p)) cs ps \<Longrightarrow> list_all2 (\<lambda>c p. c \<in> set (fst p)) cs qs
    \<Longrightarrow> segs_clash ps qs"
proof (induction cs ps arbitrary: qs rule: list_all2_induct)
  case Nil
  then show ?case by (simp add: segs_clash_def)
next
  case (Cons c cs p ps)
  from Cons.prems obtain q qs' where qs: "qs = q # qs'" "c \<in> set (fst q)"
    "list_all2 (\<lambda>c p. c \<in> set (fst p)) cs qs'"
    by (auto simp: list_all2_Cons1)
  have "segs_clash ps qs'" using qs(3) by (rule Cons.IH)
  with Cons.hyps qs(2) show ?case
    by (simp add: qs(1) segs_clash_def list_ex_iff) blast
qed

definition special :: "entry \<Rightarrow> bool" where
  "special e \<longleftrightarrow> (case e of (_, _, RxSegs _) \<Rightarrow> False | _ \<Rightarrow> True)"

definition segs_of :: "entry \<Rightarrow> segs" where
  "segs_of e = (case e of (_, _, RxSegs ps) \<Rightarrow> ps | _ \<Rightarrow> [])"

lemma table_segs_ok:
  "list_all (\<lambda>e. special e \<or> segs_ok (segs_of e) \<and> segs_of e \<noteq> [] \<and>
     (fst (hd (segs_of e)) = ''x'' \<or> fst (hd (segs_of e)) = ''d'')) hmsCompRecognitionTable"
  by code_simp

lemma table_no_clash:
  "list_all (\<lambda>e. list_all (\<lambda>e'. special e \<or> special e' \<or> fst e = fst e' \<or>
     \<not> segs_clash (segs_of e) (segs_of e')) hmsCompRecognitionTable) hmsCompRecognitionTable"
  by code_simp

lemma table_specials:
  "filter special hmsCompRecognitionTable =
     [(HMSTypeInvalid, HMSTypeInvalid, RxContains ''INVALID''),
      (HMSTypeAll, HMSTypeInvalid, RxExact ''all''),
      (HMSTypeAllSvc, HMSTypeInvalid, RxExact ''all_svc''),
      (HMSTypeAllComp, HMSTypeInvalid, RxExact ''all_comp''),
      (Partition, HMSTypeInvalid, RxPartition),
      (System, HMSTypeInvalid, RxExact ''s0''),
      (SMSBox, HMSTypeInvalid, RxSms)]"
  by (simp add: hmsCompRecognitionTable_def special_def)

lemma table_special_cases [consumes 2]:
  assumes "e \<in> set hmsCompRecognitionTable" "special e"
  obtains "e = (HMSTypeInvalid, HMSTypeInvalid, RxContains ''INVALID'')"
  | "e = (HMSTypeAll, HMSTypeInvalid, RxExact ''all'')"
  | "e = (HMSTypeAllSvc, HMSTypeInvalid, RxExact ''all_svc'')"
  | "e = (HMSTypeAllComp, HMSTypeInvalid, RxExact ''all_comp'')"
  | "e = (Partition, HMSTypeInvalid, RxPartition)"
  | "e = (System, HMSTypeInvalid, RxExact ''s0'')"
  | "e = (SMSBox, HMSTypeInvalid, RxSms)"
proof -
  have "e \<in> set (filter special hmsCompRecognitionTable)" using assms by simp
  then show ?thesis using that by (simp only: table_specials) auto
qed

lemma table_segs_cases:
  assumes "e \<in> set hmsCompRecognitionTable" "\<not> special e"
  obtains t p ps where "e = (t, p, RxSegs ps)" "segs_ok ps" "ps \<noteq> []"
    "fst (hd ps) = ''x'' \<or> fst (hd ps) = ''d''"
  using assms table_segs_ok
  by (auto simp: list_all_iff special_def segs_of_def split: prod.splits regex.splits)

lemma segs_first_char:
  "match_segs ps s \<Longrightarrow> ps \<noteq> [] \<Longrightarrow> fst (hd ps) = ''x'' \<or> fst (hd ps) = ''d''
    \<Longrightarrow> s \<noteq> [] \<and> (hd s = CHR ''x'' \<or> hd s = CHR ''d'')"
  by (cases "(ps, s)" rule: match_segs.cases) auto

lemma str_contains_set: "str_contains s sub \<Longrightarrow> set sub \<subseteq> set s"
proof (induction s)
  case (Cons c cs)
  show ?case
  proof (cases "has_prefix (c # cs) sub")
    case True
    then have "set sub \<subseteq> set (c # cs)" unfolding has_prefix_def by (metis set_take_subset)
    then show ?thesis .
  next
    case False
    with Cons show ?thesis by auto
  qed
qed simp

lemma segs_no_I: "segs_ok ps \<Longrightarrow> match_segs ps s \<Longrightarrow> CHR ''I'' \<notin> set s"
proof (induction ps s rule: match_segs.induct)
  case (3 l d ps c cs)
  then have "CHR ''I'' \<notin> set (dropWhile is_digit cs)" by (auto simp: segs_ok_def)
  moreover have "CHR ''I'' \<notin> set (takeWhile is_digit cs)"
    using set_takeWhileD [of "CHR ''I''" is_digit cs] by (auto simp: is_digit_def less_eq_char_def)
  ultimately have "CHR ''I'' \<notin> set cs"
    by (metis Un_iff set_append takeWhile_dropWhile_id)
  with 3 show ?case by (auto simp: segs_ok_def list_all_iff)
qed auto

lemma digits_only: "list_all is_digit ds \<Longrightarrow> \<not> is_digit c \<Longrightarrow> c \<notin> set ds"
  by (auto simp: list_all_iff)

lemma not_digit_upper: "\<not> is_digit (CHR ''I'')" "\<not> is_digit (CHR ''N'')"
  by (simp_all add: is_digit_def less_eq_char_def)

lemma partition_first: "match_partition s \<Longrightarrow> s \<noteq> [] \<and> hd s = CHR ''p''"
  by (auto simp: match_partition_def split: list.splits)

lemma partition_not_invalid:
  assumes "match_partition s"
  shows "\<not> str_contains s ''INVALID''"
proof
  assume c: "str_contains s ''INVALID''"
  obtain r where s: "s = CHR ''p'' # r"
    and r: "dropWhile is_digit r = [] \<or> (\<exists>a ds. dropWhile is_digit r = a # ds \<and> list_all is_digit ds)"
    using assms by (auto simp: match_partition_def split: list.splits)
  have r_eq: "r = takeWhile is_digit r @ dropWhile is_digit r" by simp
  have t: "CHR ''I'' \<notin> set (takeWhile is_digit r)" "CHR ''N'' \<notin> set (takeWhile is_digit r)"
    using set_takeWhileD not_digit_upper by metis+
  have "CHR ''I'' \<notin> set (dropWhile is_digit r) \<or> CHR ''N'' \<notin> set (dropWhile is_digit r)"
    using r digits_only not_digit_upper by fastforce
  then have "CHR ''I'' \<notin> set r \<or> CHR ''N'' \<notin> set r"
    using t r_eq by (metis Un_iff set_append)
  moreover have "CHR ''I'' \<in> set s" "CHR ''N'' \<in> set s"
    using str_contains_set [OF c] by auto
  ultimately show False by (simp add: s)
qed

lemma sms_cases: "has_prefix s ''sms'' \<Longrightarrow> \<exists>r. s = ''sms'' @ r \<and> drop 3 s = r"
  by (auto simp: has_prefix_def) (metis append_Cons append_take_drop_id numeral_3_eq_3 self_append_conv2)

lemma sms_not_invalid: "match_regex RxSms s \<Longrightarrow> \<not> str_contains s ''INVALID''"
proof
  assume m: "match_regex RxSms s" and c: "str_contains s ''INVALID''"
  then obtain r where "s = ''sms'' @ r" "list_all is_digit r" using sms_cases by force
  then have "CHR ''I'' \<notin> set s" using digits_only not_digit_upper by auto
  then show False using str_contains_set [OF c] by auto
qed

lemma sms_first: "match_regex RxSms s \<Longrightarrow> hd s = CHR ''s''"
  by (auto dest!: sms_cases)

lemma match_segs_entry:
  assumes "e \<in> set hmsCompRecognitionTable" "\<not> special e" "match_regex (snd (snd e)) s"
  shows "s \<noteq> [] \<and> (hd s = CHR ''x'' \<or> hd s = CHR ''d'') \<and> CHR ''I'' \<notin> set s"
proof -
  obtain t p ps where e: "e = (t, p, RxSegs ps)" "segs_ok ps" "ps \<noteq> []"
    "fst (hd ps) = ''x'' \<or> fst (hd ps) = ''d''"
    using table_segs_cases [OF assms(1,2)] .
  then have "match_segs ps s" using assms(3) by simp
  then show ?thesis using segs_first_char segs_no_I e by metis
qed

lemma match_special_entry:
  assumes "e \<in> set hmsCompRecognitionTable" "special e" "match_regex (snd (snd e)) s"
  shows "CHR ''I'' \<in> set s \<or> s \<noteq> [] \<and> hd s \<noteq> CHR ''x'' \<and> hd s \<noteq> CHR ''d''"
  using assms(3)
  by (rule_tac table_special_cases [OF assms(1,2)])
    (auto dest!: str_contains_set partition_first sms_cases)

lemma match_type_unique:
  assumes "e \<in> set hmsCompRecognitionTable" "e' \<in> set hmsCompRecognitionTable"
    and "match_regex (snd (snd e)) s" "match_regex (snd (snd e')) s"
  shows "fst e = fst e'"
proof -
  consider "\<not> special e" "\<not> special e'" | "special e" "special e'"
    | "special e \<noteq> special e'" by blast
  then show ?thesis
  proof cases
    case 1
    then obtain t p ps t' p' ps' where e: "e = (t, p, RxSegs ps)" "segs_ok ps"
      "e' = (t', p', RxSegs ps')" "segs_ok ps'"
      using assms(1,2) by (metis table_segs_cases)
    then have "segs_clash ps ps'"
      using assms(3,4) by (auto intro: letters_segs_clash match_segs_letters)
    then have "segs_clash (segs_of e) (segs_of e')" by (simp add: e segs_of_def)
    then show ?thesis
      using table_no_clash assms(1,2) 1 unfolding list_all_iff by blast
  next
    case 2
    note c1 = table_special_cases [OF assms(1) 2(1)] and c2 = table_special_cases [OF assms(2) 2(2)]
    show ?thesis
      using assms(3,4) partition_not_invalid [of s] sms_not_invalid [of s] partition_first [of s]
      using sms_first [of s] by (rule_tac c1; rule_tac c2) (auto simp: has_prefix_def)
  next
    case 3
    then show ?thesis using match_segs_entry match_special_entry assms by blast
  qed
qed

lemma GetHMSType_in_cases:
  "(\<exists>e \<in> set fs. match_regex (snd (snd e)) s \<and> GetHMSType_in fs s = fst e) \<or>
   GetHMSType_in fs s = HMSTypeInvalid \<and> (\<forall>e \<in> set fs. \<not> match_regex (snd (snd e)) s)"
proof (induction fs)
  case (Cons e fs)
  then show ?case by (cases e; cases "match_regex (snd (snd e)) s") (simp; blast)+
qed simp

text \<open>
  \<open>GetHMSType\<close> ranges over a Go map of regular expressions in an unspecified order
  and returns the type of the first one that matches; since no name matches two entries of
  different types, every order of the table gives the same type.
\<close>

lemma GetHMSType_order:
  assumes "mset es = mset hmsCompRecognitionTable"
  shows "GetHMSType_in es s = GetHMSType s"
proof -
  have "set es = set hmsCompRecognitionTable" using assms by (metis set_mset_mset)
  then show ?thesis
    using GetHMSType_in_cases [of es s] GetHMSType_in_cases [of hmsCompRecognitionTable s]
      match_type_unique
    unfolding GetHMSType_def by metis
qed

lemma GetHMSType_order_example:
  "mset (rev hmsCompRecognitionTable) = mset hmsCompRecognitionTable \<and>
   GetHMSType_in (rev hmsCompRecognitionTable) ''x0c0s0b0n0'' = GetHMSType ''x0c0s0b0n0''"
  using GetHMSType_order [of "rev hmsCompRecognitionTable"] by simp

lemma GetHMSType_eq:
  assumes "e \<in> set hmsCompRecognitionTable" "match_regex (snd (snd e)) s"
  shows "GetHMSType s = fst e"
  using GetHMSType_in_cases [of hmsCompRecognitionTable s] assms match_type_unique
  unfolding GetHMSType_def by metis

section \<open>Parents\<close>

lemma trim_right_snoc:
  "trim_right P (s @ [c]) = (if P c then trim_right P s else s @ [c])"
  by (simp add: trim_right_def)

lemma trim_right_all: "list_all P t \<Longrightarrow> trim_right P (s @ t) = trim_right P s"
  by (induction t rule: rev_induct)
    (simp_all add: trim_right_snoc flip: append_assoc)

lemma length_trim_right: "length (trim_right P s) \<le> length s"
  by (simp add: trim_right_def) (metis length_dropWhile_le length_rev)

lemma trim_right_shorter: "s \<noteq> [] \<Longrightarrow> P (last s) \<Longrightarrow> length (trim_right P s) < length s"
  using length_trim_right [of P "butlast s"]
  by (metis append_butlast_last_id length_append_singleton less_Suc_eq_le trim_right_snoc)

lemma takeWhile_digits: "list_all is_digit (takeWhile is_digit s)"
  by (simp add: list_all_iff) (metis set_takeWhileD)

lemma match_segs_last:
  "match_segs (ps @ [(l, d)]) s \<Longrightarrow> list_all (\<lambda>c. is_letter c \<and> \<not> is_digit c) l \<Longrightarrow>
    \<exists>s' c ds. s = s' @ c # ds \<and> match_segs ps s' \<and> is_letter c \<and> \<not> is_digit c \<and>
      list_all is_digit ds \<and> ds \<noteq> []"
proof (induction ps arbitrary: s)
  case Nil
  then obtain c cs where s: "s = c # cs" "c \<in> set l" "dmatch d (takeWhile is_digit cs)"
    "dropWhile is_digit cs = []"
    by (cases s) auto
  then have "takeWhile is_digit cs = cs" by (metis append_Nil2 takeWhile_dropWhile_id)
  with s(3) have "list_all is_digit cs" "cs \<noteq> []"
    using takeWhile_digits [of cs] by (cases d; auto)+
  with s Nil show ?case by (intro exI [of _ "[]"]) (auto simp: list_all_iff)
next
  case (Cons p ps)
  obtain l' d' where p: "p = (l', d')" by (cases p)
  with Cons.prems obtain c cs where s: "s = c # cs" "c \<in> set l'" "dmatch d' (takeWhile is_digit cs)"
    "match_segs (ps @ [(l, d)]) (dropWhile is_digit cs)"
    by (cases s) auto
  from Cons.IH [OF s(4) Cons.prems(2)] obtain s' c' ds where
    d: "dropWhile is_digit cs = s' @ c' # ds" "match_segs ps s'" "is_letter c'" "\<not> is_digit c'"
      "list_all is_digit ds" "ds \<noteq> []"
    by blast
  let ?t = "takeWhile is_digit cs"
  have hd: "s' = [] \<or> \<not> is_digit (hd s')"
    using d(1) by (metis append_Cons append_is_Nil_conv hd_append2 hd_dropWhile list.discI)
  have all: "x \<in> set ?t \<Longrightarrow> is_digit x" for x by (rule conjunct2 [OF set_takeWhileD])
  have tw: "takeWhile is_digit (?t @ s') = ?t" "dropWhile is_digit (?t @ s') = s'"
    using hd all by (cases s'; simp add: takeWhile_append2 dropWhile_append2)+
  have "match_segs (p # ps) (c # ?t @ s')"
    using s d tw by (simp add: p)
  moreover have "s = (c # ?t @ s') @ c' # ds"
    using s(1) d(1) by (metis append.assoc append_Cons takeWhile_dropWhile_id)
  ultimately show ?case using d(3-6)
    by (intro exI [of _ "c # ?t @ s'"] exI [of _ c'] exI [of _ ds]) simp
qed

lemma segs_ok_snoc:
  "segs_ok (ps @ [(l, d)]) \<longleftrightarrow> segs_ok ps \<and> list_all (\<lambda>c. is_letter c \<and> \<not> is_digit c \<and> c \<noteq> CHR ''I'') l"
  by (simp add: segs_ok_def)

lemma match_segs_end:
  "match_segs ps s \<Longrightarrow> segs_ok ps \<Longrightarrow> ps \<noteq> [] \<Longrightarrow> s \<noteq> [] \<and> is_digit (last s) \<and> \<not> is_letter (last s)"
proof -
  assume m: "match_segs ps s" "segs_ok ps" "ps \<noteq> []"
  obtain l d where ps: "ps = butlast ps @ [(l, d)]"
    using m(3) by (metis append_butlast_last_id surj_pair)
  then have "list_all (\<lambda>c. is_letter c \<and> \<not> is_digit c) l"
    using m(2) segs_ok_snoc [of "butlast ps" l d] by (simp flip: ps add: list_all_iff)
  then obtain s' c ds where "s = s' @ c # ds" "list_all is_digit ds" "ds \<noteq> []"
    using match_segs_last [of "butlast ps" l d s] m(1) ps by auto
  then have "s \<noteq> []" "is_digit (last s)" by (auto simp: list_all_iff)
  then show ?thesis by (auto simp: is_digit_def is_letter_def less_eq_char_def)
qed

lemma GetHMSCompParent_segs:
  assumes "match_segs (ps @ [(l, d)]) s" "segs_ok (ps @ [(l, d)])"
    "GetHMSType s \<noteq> CDU" "GetHMSType s \<noteq> Cabinet"
  shows "match_segs ps (GetHMSCompParent s)"
proof -
  have "list_all (\<lambda>c. is_letter c \<and> \<not> is_digit c) l"
    using assms(2) by (auto simp: segs_ok_def list_all_iff)
  then obtain s' c ds where s: "s = s' @ c # ds" "match_segs ps s'" "is_letter c" "\<not> is_digit c"
      "list_all is_digit ds"
    using match_segs_last [OF assms(1)] by blast
  have "trim_right is_digit s = s' @ [c]"
    using trim_right_all [OF s(5), of "s' @ [c]"] s(1,4) by (simp add: trim_right_snoc)
  moreover have "trim_right is_letter s' = s'"
  proof (cases "ps = []")
    case True
    then show ?thesis using s(2) by (simp add: trim_right_def)
  next
    case False
    have "segs_ok ps" using assms(2) by (simp add: segs_ok_def)
    then have "s' \<noteq> [] \<and> \<not> is_letter (last s')" using match_segs_end s(2) False by blast
    then show ?thesis by (metis append_butlast_last_id trim_right_snoc)
  qed
  ultimately have "GetHMSCompParent s = s'"
    using assms(3,4) s(3) by (simp add: GetHMSCompParent_def trim_right_snoc)
  then show ?thesis using s(2) by simp
qed

lemma table_parents:
  "list_all (\<lambda>e. special e \<or> fst e = NodeFpga \<or>
     (fst e = CDU \<or> fst e = Cabinet) \<and> fst (snd e) = System \<or>
     fst e \<noteq> CDU \<and> fst e \<noteq> Cabinet \<and>
     list_ex (\<lambda>f. \<not> special f \<and> fst f = fst (snd e) \<and> segs_of f = butlast (segs_of e))
       hmsCompRecognitionTable) hmsCompRecognitionTable"
  by code_simp

lemma s0_System: "GetHMSType ''s0'' = System"
  by code_simp

text \<open>
  C40: for every hierarchical entry of the recognition table, the parent computed from a
  matching name (dropping the last letter and number, or \<open>s0\<close> for a cabinet or CDU) has the
  parent type that the table states. \<open>NodeFpga\<close> is the exception: its table entry names
  \<open>NodeEnclosure\<close>, the computed parent is a \<open>NodeBMC\<close>.
\<close>

theorem GetHMSCompParent_type:
  assumes e: "(t, p, RxSegs ps) \<in> set hmsCompRecognitionTable"
    and m: "match_segs ps s" and t: "t \<noteq> NodeFpga"
  shows "GetHMSType (GetHMSCompParent s) = p"
proof -
  have ty: "GetHMSType s = t" using GetHMSType_eq [OF e] m by simp
  have ok: "segs_ok ps" "ps \<noteq> []"
    using table_segs_cases [OF e] by (auto simp: special_def)
  have par: "(t = CDU \<or> t = Cabinet) \<and> p = System \<or> t \<noteq> CDU \<and> t \<noteq> Cabinet \<and>
      (\<exists>f \<in> set hmsCompRecognitionTable. \<not> special f \<and> fst f = p \<and> segs_of f = butlast ps)"
    using table_parents e t unfolding list_all_iff list_ex_iff
    by (fastforce simp: special_def segs_of_def)
  show ?thesis
  proof (cases "t = CDU \<or> t = Cabinet")
    case True
    with par ty show ?thesis by (auto simp: GetHMSCompParent_def s0_System)
  next
    case False
    with par obtain f where f: "f \<in> set hmsCompRecognitionTable" "\<not> special f" "fst f = p"
      "segs_of f = butlast ps" by blast
    obtain t' p' qs where f_eq: "f = (t', p', RxSegs qs)" using table_segs_cases [OF f(1,2)] .
    obtain l d where ps: "ps = qs @ [(l, d)]"
    proof -
      have "qs = butlast ps" using f(4) by (simp add: f_eq segs_of_def)
      then have "ps = qs @ [last ps]" using ok(2) by simp
      then show ?thesis using that by (metis surj_pair)
    qed
    have "match_segs qs (GetHMSCompParent s)"
      using GetHMSCompParent_segs m ok(1) ty False unfolding ps by blast
    then show ?thesis using GetHMSType_eq [OF f(1)] f(3) f_eq by simp
  qed
qed

theorem GetHMSCompParent_type_witness:
  "(Node, NodeBMC, RxSegs [(''x'', D1to4), (''c'', One 0 7), (''s'', Digits), (''b'', Digits), (''n'', Digits)])
     \<in> set hmsCompRecognitionTable \<and>
   GetHMSType (GetHMSCompParent ''x0c0s22b11n3'') = NodeBMC"
proof -
  have e: "(Node, NodeBMC, RxSegs [(''x'', D1to4), (''c'', One 0 7), (''s'', Digits), (''b'', Digits), (''n'', Digits)])
     \<in> set hmsCompRecognitionTable"
    by (simp add: hmsCompRecognitionTable_def)
  show ?thesis
    using e GetHMSCompParent_type [OF e, of "''x0c0s22b11n3''"]
    by (simp add: is_digit_def less_eq_char_def digits_val_def)
qed

lemma partition_end: "match_partition s \<Longrightarrow> s \<noteq> [] \<and> is_digit (last s)"
proof -
  assume m: "match_partition s"
  obtain r where s: "s = CHR ''p'' # r" and t: "takeWhile is_digit r \<noteq> []"
    and r: "dropWhile is_digit r = [] \<or>
      (\<exists>a ds. dropWhile is_digit r = a # ds \<and> ds \<noteq> [] \<and> list_all is_digit ds)"
    using m by (auto simp: match_partition_def split: list.splits)
  have r_eq: "r = takeWhile is_digit r @ dropWhile is_digit r" by simp
  from r have "is_digit (last r)"
  proof
    assume "dropWhile is_digit r = []"
    then have "\<forall>x \<in> set r. is_digit x" by (simp add: dropWhile_eq_Nil_conv)
    moreover have "r \<noteq> []" using t by auto
    ultimately show ?thesis by simp
  next
    assume "\<exists>a ds. dropWhile is_digit r = a # ds \<and> ds \<noteq> [] \<and> list_all is_digit ds"
    then obtain a ds where "dropWhile is_digit r = a # ds" "ds \<noteq> []" "list_all is_digit ds" by blast
    then show ?thesis
      by (subst r_eq) (simp add: list_all_iff)
  qed
  moreover have "r \<noteq> []" using t by auto
  ultimately show ?thesis by (simp add: s)
qed

lemma sms_end: "match_regex RxSms s \<Longrightarrow> s \<noteq> [] \<and> is_digit (last s)"
proof -
  assume m: "match_regex RxSms s"
  then obtain r where "s = ''sms'' @ r" "drop 3 s = r" using sms_cases by force
  then show ?thesis using m by (auto simp: list_all_iff)
qed

lemma valid_end:
  assumes "IsHMSCompIDValid s"
  shows "s \<noteq> [] \<and> (is_digit (last s) \<or> is_letter (last s))"
proof -
  obtain e where e: "e \<in> set hmsCompRecognitionTable" "match_regex (snd (snd e)) s"
    "fst e \<noteq> HMSTypeInvalid"
    using assms GetHMSType_in_cases [of hmsCompRecognitionTable s]
    unfolding IsHMSCompIDValid_def GetHMSType_def by metis
  show ?thesis
  proof (cases "special e")
    case True
    show ?thesis
      using e(2,3) partition_end [of s] sms_end [of s]
      by (rule_tac table_special_cases [OF e(1) True])
        (simp_all add: is_letter_def is_digit_def less_eq_char_def)
  next
    case False
    obtain t p ps where "e = (t, p, RxSegs ps)" "segs_ok ps" "ps \<noteq> []"
      using table_segs_cases [OF e(1) False] by blast
    then show ?thesis using match_segs_end e(2) by auto
  qed
qed

section \<open>Walking up the hierarchy\<close>

locale hierarchy =
  fixes parent :: "'a \<Rightarrow> 'a"
    and valid :: "'a \<Rightarrow> bool"
    and rank :: "'a \<Rightarrow> nat"
  assumes rank_parent: "valid x \<Longrightarrow> rank (parent x) < rank x"
begin

lemma up_induct [case_names up]:
  assumes "\<And>x. (valid x \<Longrightarrow> P (parent x)) \<Longrightarrow> P x"
  shows "P x"
proof (induction "rank x" arbitrary: x rule: less_induct)
  case less
  then show ?case using assms rank_parent by blast
qed

lemma leaves_valid: "\<exists>n. \<not> valid ((parent ^^ n) x)"
proof (induction x rule: up_induct)
  case (up x)
  show ?case
  proof (cases "valid x")
    case True
    then obtain n where "\<not> valid ((parent ^^ n) (parent x))" using up by blast
    then have "\<not> valid ((parent ^^ Suc n) x)" by (simp add: funpow_swap1)
    then show ?thesis by blast
  next
    case False
    then show ?thesis by (intro exI [of _ 0]) simp
  qed
qed

end

definition xrank :: "xname \<Rightarrow> nat" where
  "xrank s = 2 * length s + (if GetHMSType s = CDU \<or> GetHMSType s = Cabinet then 1 else 0)"

lemma cabinet_length: "GetHMSType s = CDU \<or> GetHMSType s = Cabinet \<Longrightarrow> 2 \<le> length s"
proof -
  assume a: "GetHMSType s = CDU \<or> GetHMSType s = Cabinet"
  obtain e where e: "e \<in> set hmsCompRecognitionTable" "match_regex (snd (snd e)) s"
    "fst e = GetHMSType s"
    using a GetHMSType_in_cases [of hmsCompRecognitionTable s] unfolding GetHMSType_def by force
  have "\<not> special e"
  proof
    assume "special e"
    then show False using a e(3) by (rule_tac table_special_cases [OF e(1)]) auto
  qed
  then obtain t p ps where ps: "e = (t, p, RxSegs ps)" "ps \<noteq> []"
    using table_segs_cases [OF e(1)] by blast
  then obtain l d qs where q: "ps = (l, d) # qs" by (cases ps) auto
  then obtain c cs where "s = c # cs" "dmatch d (takeWhile is_digit cs)"
    using e(2) ps by (cases s) auto
  then have "takeWhile is_digit cs \<noteq> []" "s = c # cs" by (cases d; auto)+
  then show ?thesis by (cases cs) auto
qed

interpretation xn: hierarchy GetHMSCompParent IsHMSCompIDValid xrank
proof
  fix s assume v: "IsHMSCompIDValid s"
  show "xrank (GetHMSCompParent s) < xrank s"
  proof (cases "GetHMSType s = CDU \<or> GetHMSType s = Cabinet")
    case True
    then show ?thesis
      using cabinet_length [OF True] by (simp add: xrank_def GetHMSCompParent_def s0_System)
  next
    case False
    have "length (trim_right is_letter (trim_right is_digit s)) < length s"
    proof (cases "is_digit (last s)")
      case True
      then show ?thesis
        using trim_right_shorter [of s is_digit] valid_end [OF v]
          length_trim_right [of is_letter "trim_right is_digit s"] by linarith
    next
      case not_digit: False
      have s: "s = butlast s @ [last s]" using valid_end [OF v] by simp
      have "trim_right is_digit s = s"
        by (subst s, subst trim_right_snoc) (simp add: not_digit flip: s)
      then show ?thesis
        using trim_right_shorter [of s is_letter] valid_end [OF v] not_digit by simp
    qed
    with False show ?thesis by (simp add: xrank_def GetHMSCompParent_def)
  qed
qed

section \<open>Validation of lists of names\<close>

lemma ValidateCompIDs_loop_eq:
  assumes "ValidateCompIDs_loop True seen v iv cs = (v', iv')" "set seen = set v \<union> set iv"
    and "distinct v" "distinct iv" "list_all IsHMSCompIDValid v"
    "list_all (\<lambda>c. \<not> IsHMSCompIDValid c) iv"
  shows "distinct v' \<and> distinct iv' \<and> set v' = set v \<union> {c \<in> set cs. IsHMSCompIDValid c} \<and>
    set iv' = set iv \<union> {c \<in> set cs. \<not> IsHMSCompIDValid c}"
  using assms
proof (induction cs arbitrary: seen v iv)
  case (Cons c cs)
  consider (seen) "c \<in> set seen" | (good) "c \<notin> set seen" "IsHMSCompIDValid c"
    | (bad) "c \<notin> set seen" "\<not> IsHMSCompIDValid c" by blast
  then show ?case
  proof cases
    case seen
    then show ?thesis using Cons.IH [of seen v iv] Cons.prems by (auto simp: list_all_iff)
  next
    case good
    then show ?thesis using Cons.IH [of "c # seen" "v @ [c]" iv] Cons.prems by auto
  next
    case bad
    then show ?thesis using Cons.IH [of "c # seen" v "iv @ [c]"] Cons.prems by auto
  qed
qed simp

text \<open>
  With \<open>dupsValid\<close> set, \<open>ValidateCompIDs\<close> splits a request into its valid and its
  invalid names, each name once: the two lists are free of duplicates and together hold
  exactly the requested names.
\<close>

lemma ValidateCompIDs_partition:
  "distinct (fst (ValidateCompIDs cs True)) \<and> distinct (snd (ValidateCompIDs cs True)) \<and>
   set (fst (ValidateCompIDs cs True)) = {c \<in> set cs. IsHMSCompIDValid c} \<and>
   set (snd (ValidateCompIDs cs True)) = {c \<in> set cs. \<not> IsHMSCompIDValid c}"
  using ValidateCompIDs_loop_eq [of "[]" "[]" "[]" cs]
  by (cases "ValidateCompIDs cs True") (simp add: ValidateCompIDs_def)

end
