(* ===== verification/Storage.thy ===== *)
theory Storage
  imports Codec World Xnames
begin

text \<open>
  The storage provider, \<^verbatim>\<open>internal/storage/storage_etcd_impl.go\<close> and
  \<^verbatim>\<open>storage_mem_impl.go\<close>: one action per method of \<open>ETCDStorage\<close>, on the shared
  key-value store of \<open>World\<close>. A large transition is stored as a first page under its own
  key and further pages under \<open>/transitionpage\<close>; paging and truncation are pure functions.
  The in-memory provider converts itself to an \<open>ETCDStorage\<close> and calls the same methods.
\<close>

section \<open>Keys and single values\<close>

record ETCDStorage =
  es_DisableSizeChecks :: bool
  es_PageSize :: nat
  es_MaxMessageLen :: nat
  es_MaxEtcdObjectSize :: nat
  es_kvHandle :: kvi

definition keyPrefix :: string where "keyPrefix = ''/pcs/''"
definition keySegPowerStatusMaster :: string where "keySegPowerStatusMaster = ''/powerstatusmaster''"
definition keySegPowerState :: string where "keySegPowerState = ''/powerstate''"
definition keySegTransition :: string where "keySegTransition = ''/transition''"
definition keySegTransitionPage :: string where "keySegTransitionPage = ''/transitionpage''"
definition keySegTransitionTask :: string where "keySegTransitionTask = ''/transitiontask''"
definition keyMin :: string where "keyMin = '' ''"
definition keyMax :: string where "keyMax = ''~''"
definition DefaultEtcdPageSize :: nat where "DefaultEtcdPageSize = 5000"
definition DefaultMaxMessageLen :: nat where "DefaultMaxMessageLen = 130"
definition DefaultMaxEtcdObjectSize :: nat where "DefaultMaxEtcdObjectSize = 1570000"

lemmas key_defs = keyPrefix_def keySegPowerStatusMaster_def keySegPowerState_def keySegTransition_def
  keySegTransitionPage_def keySegTransitionTask_def keyMin_def keyMax_def

definition fixUpKey :: "string \<Rightarrow> string" where
  "fixUpKey k = (if \<not> has_prefix k keyPrefix
     then keyPrefix @ (if has_prefix k ''/'' then drop 1 k else k) else k)"

definition kvStore :: "ETCDStorage \<Rightarrow> string \<Rightarrow> json \<Rightarrow> ('z, err option) io" where
  "kvStore e key val = do {
     r \<leftarrow> Kvi_Store (es_kvHandle e) (fixUpKey key) val;
     State_Monad.return (case r of Inl err \<Rightarrow> Some err | Inr _ \<Rightarrow> None) }"

text \<open>The error of a document that does not decode is one fixed text.\<close>

definition unmarshal_error :: err where
  "unmarshal_error = ''json: cannot unmarshal''"

definition kvGet :: "ETCDStorage \<Rightarrow> (json \<Rightarrow> 'a option) \<Rightarrow> string \<Rightarrow> ('z, err + 'a) io" where
  "kvGet e dec key = do {
     r \<leftarrow> Kvi_Get (es_kvHandle e) (fixUpKey key);
     State_Monad.return (case r of
        Inl err \<Rightarrow> Inl err
      | Inr None \<Rightarrow> Inl (''Key '' @ key @ '' does not exist'')
      | Inr (Some j) \<Rightarrow> (case dec j of None \<Rightarrow> Inl unmarshal_error | Some v \<Rightarrow> Inr v)) }"

definition kvDelete :: "ETCDStorage \<Rightarrow> string \<Rightarrow> ('z, err option) io" where
  "kvDelete e key = do {
     r \<leftarrow> Kvi_Delete (es_kvHandle e) (fixUpKey key);
     State_Monad.return (case r of Inl err \<Rightarrow> Some err | Inr _ \<Rightarrow> None) }"

definition kvTAS :: "ETCDStorage \<Rightarrow> string \<Rightarrow> json \<Rightarrow> json \<Rightarrow> ('z, bool \<times> err option) io" where
  "kvTAS e key testVal setVal = do {
     r \<leftarrow> Kvi_TAS (es_kvHandle e) (fixUpKey key) testVal setVal;
     State_Monad.return (case r of Inl err \<Rightarrow> (False, Some err) | Inr ok \<Rightarrow> (ok, None)) }"

text \<open>Decode what decodes; the error is the one of the last document, as in the source.\<close>

fun decode_list :: "(json \<Rightarrow> 'a option) \<Rightarrow> (string \<times> json) list \<Rightarrow> err option \<Rightarrow> 'a list \<times> err option" where
  "decode_list dec [] err = ([], err)"
| "decode_list dec ((k, j) # kvl) err =
     (case dec j of
        None \<Rightarrow> decode_list dec kvl (Some unmarshal_error)
      | Some v \<Rightarrow> (let (vs, err') = decode_list dec kvl None in (v # vs, err')))"

definition kvRange :: "ETCDStorage \<Rightarrow> (json \<Rightarrow> 'a option) \<Rightarrow> string \<Rightarrow> string \<Rightarrow> ('z, 'a list \<times> err option) io" where
  "kvRange e dec s t = do {
     r \<leftarrow> Kvi_GetRange (es_kvHandle e) s t;
     State_Monad.return (case r of Inl err \<Rightarrow> ([], Some err) | Inr kvl \<Rightarrow> decode_list dec kvl None) }"

section \<open>Configuration\<close>

text \<open>\<open>Init\<close>: limits that are not positive take their defaults (the connection is not modelled).\<close>

definition ETCDStorage_Init :: "bool \<Rightarrow> int \<Rightarrow> int \<Rightarrow> int \<Rightarrow> ETCDStorage" where
  "ETCDStorage_Init disable pageSize maxMessageLen maxObj =
     \<lparr>es_DisableSizeChecks = disable,
      es_PageSize = (if pageSize \<le> 0 then DefaultEtcdPageSize else nat pageSize),
      es_MaxMessageLen = (if maxMessageLen \<le> 0 then DefaultMaxMessageLen else nat maxMessageLen),
      es_MaxEtcdObjectSize = (if maxObj \<le> 0 then DefaultMaxEtcdObjectSize else nat maxObj),
      es_kvHandle = Kvs_etcd\<rparr>"

record MEMStorage =
  ms_DisableSizeChecks :: bool
  ms_PageSize :: int
  ms_MaxMessageLen :: int
  ms_MaxEtcdObjectSize :: int

text \<open>Only a page size of 0 is replaced; the code does not check for a negative one.\<close>

definition MEMStorage_Init :: "MEMStorage \<Rightarrow> MEMStorage" where
  "MEMStorage_Init m = (if ms_PageSize m = 0 then m\<lparr>ms_PageSize := int DefaultEtcdPageSize\<rparr> else m)"

text \<open>
  The conversion names only the logger, the page size, the mutex and the handle. The paging
  of this model has natural page sizes; with a negative one the code panics when it pages.
\<close>

definition toETCDStorage :: "MEMStorage \<Rightarrow> ETCDStorage" where
  "toETCDStorage m =
     \<lparr>es_DisableSizeChecks = False, es_PageSize = nat (ms_PageSize m), es_MaxMessageLen = 0,
      es_MaxEtcdObjectSize = 0, es_kvHandle = Kvs_mem\<rparr>"

definition Ping :: "ETCDStorage \<Rightarrow> ('z, err option) io" where
  "Ping e = do {
     u \<leftarrow> new_uuid;
     err \<leftarrow> kvStore e (''/ping/'' @ u) (JStr []);
     (if err = None then kvDelete e (''/ping/'' @ u) else State_Monad.return err) }"

section \<open>Power status\<close>

definition json_time :: "json \<Rightarrow> time option" where
  "json_time j = (case j of JTime t \<Rightarrow> Some t | _ \<Rightarrow> None)"

definition GetPowerStatusMaster :: "ETCDStorage \<Rightarrow> ('z, err + time) io" where
  "GetPowerStatusMaster e = kvGet e json_time keySegPowerStatusMaster"

definition StorePowerStatusMaster :: "ETCDStorage \<Rightarrow> time \<Rightarrow> ('z, err option) io" where
  "StorePowerStatusMaster e t = kvStore e keySegPowerStatusMaster (JTime t)"

definition TASPowerStatusMaster :: "ETCDStorage \<Rightarrow> time \<Rightarrow> time \<Rightarrow> ('z, bool \<times> err option) io" where
  "TASPowerStatusMaster e t testVal = kvTAS e keySegPowerStatusMaster (JTime testVal) (JTime t)"

definition xname_error :: "xname \<Rightarrow> err" where
  "xname_error x = ''Error parsing '' @ [CHR 0x27] @ x @ [CHR 0x27] @ '': invalid xname format.''"

definition power_key :: "xname \<Rightarrow> string" where
  "power_key x = keySegPowerState @ ''/'' @ x"

definition StorePowerStatus :: "ETCDStorage \<Rightarrow> PowerStatusComponent \<Rightarrow> ('z, err option) io" where
  "StorePowerStatus e p =
     (if \<not> IsHMSCompIDValid (ps_XName p) then State_Monad.return (Some (xname_error (ps_XName p)))
      else kvStore e (power_key (ps_XName p)) (enc_PowerStatus p))"

definition DeletePowerStatus :: "ETCDStorage \<Rightarrow> xname \<Rightarrow> ('z, err option) io" where
  "DeletePowerStatus e x =
     (if \<not> IsHMSCompIDValid x then State_Monad.return (Some (xname_error x))
      else kvDelete e (power_key x))"

definition GetPowerStatus :: "ETCDStorage \<Rightarrow> xname \<Rightarrow> ('z, err + PowerStatusComponent) io" where
  "GetPowerStatus e x =
     (if \<not> IsHMSCompIDValid x then State_Monad.return (Inl (xname_error x))
      else kvGet e dec_PowerStatus (power_key x))"

definition GetAllPowerStatus :: "ETCDStorage \<Rightarrow> ('z, PowerStatusComponent list \<times> err option) io" where
  "GetAllPowerStatus e =
     (let k = fixUpKey keySegPowerState in kvRange e dec_PowerStatus (k @ keyMin) (k @ keyMax))"

definition GetPowerStatusHierarchy :: "ETCDStorage \<Rightarrow> xname \<Rightarrow> ('z, PowerStatusComponent list \<times> err option) io" where
  "GetPowerStatusHierarchy e x =
     (if \<not> IsHMSCompIDValid x then State_Monad.return ([], Some (xname_error x))
      else let k = fixUpKey (power_key x) in kvRange e dec_PowerStatus k (k @ keyMax))"

section \<open>Truncation and paging\<close>

definition getObjectSize :: "Transition \<Rightarrow> nat" where
  "getObjectSize t = length (render (enc_Transition t))"

definition truncate_task :: "nat \<Rightarrow> TransitionTaskResp \<Rightarrow> TransitionTaskResp \<times> nat" where
  "truncate_task maxLen task =
     (if length (ttr_Error task) > maxLen then
        let task1 = task\<lparr>ttr_Error := take maxLen (ttr_Error task) @ ''...''\<rparr> in
        if length (ttr_TaskStatusDesc task1) > 3 then (task1\<lparr>ttr_TaskStatusDesc := ''...''\<rparr>, 2)
        else (task1, 1)
      else
        let remaining = maxLen - length (ttr_Error task) in
        if length (ttr_TaskStatusDesc task) > remaining
        then (task\<lparr>ttr_TaskStatusDesc := take remaining (ttr_TaskStatusDesc task) @ ''...''\<rparr>, 1)
        else (task, 0))"

definition truncateTaskMessagesIfNeeded :: "ETCDStorage \<Rightarrow> Transition \<Rightarrow> nat \<Rightarrow> Transition \<times> nat" where
  "truncateTaskMessagesIfNeeded e t originalObjSize =
     (if originalObjSize > es_MaxEtcdObjectSize e then
        let rs = map_option (map (truncate_task (es_MaxMessageLen e))) (tr_Tasks t)
        in (t\<lparr>tr_Tasks := map_option (map fst) rs\<rparr>, sum_list (map snd (sl rs)))
      else (t, 0))"

text \<open>
  The paging loop \<open>for i := 0; i < len(xs); i += step\<close> with slices of \<open>sz\<close> elements.
  \<open>Init\<close> makes the step positive; with step 0 the Go loop would not end, the model stops.
\<close>

function page_loop :: "nat \<Rightarrow> nat \<Rightarrow> 'a list \<Rightarrow> nat \<Rightarrow> 'a list list" where
  "page_loop stp sz xs i =
     (if i < length xs \<and> 0 < stp then
        (let e = (if i + sz > length xs then length xs else i + sz)
         in take (e - i) (drop i xs) # page_loop stp sz xs (i + stp))
      else [])"
  by pat_completeness auto
termination
  by (relation "measure (\<lambda>(stp, sz, xs, i). length xs - i)") auto

declare page_loop.simps [simp del]

text \<open>\<open>pageTasks\<close> advances by the configured page size, the other two by their argument.\<close>

definition pageTasks :: "ETCDStorage \<Rightarrow> Transition \<Rightarrow> nat \<Rightarrow> TransitionTaskResp list list" where
  "pageTasks e t pageSize =
     (case tr_Tasks t of None \<Rightarrow> []
      | Some ts \<Rightarrow> if length ts > pageSize then page_loop (es_PageSize e) pageSize ts 0 else [ts])"

definition pageLocations :: "Transition \<Rightarrow> nat \<Rightarrow> LocationParameter list list" where
  "pageLocations t pageSize =
     (case tr_Location t of None \<Rightarrow> []
      | Some ls \<Rightarrow> if length ls > pageSize then page_loop pageSize pageSize ls 0 else [ls])"

definition pageTaskIDs :: "Transition \<Rightarrow> nat \<Rightarrow> uuid list list" where
  "pageTaskIDs t pageSize =
     (case tr_TaskIDs t of None \<Rightarrow> []
      | Some ids \<Rightarrow> if length ids > pageSize then page_loop pageSize pageSize ids 0 else [ids])"

definition nth_page :: "'a list list \<Rightarrow> nat \<Rightarrow> 'a list option" where
  "nth_page pages i = (if i < length pages then Some (pages ! i) else None)"

definition first_page :: "'a list list \<Rightarrow> 'a list option \<Rightarrow> 'a list option" where
  "first_page pages old = (case pages of [] \<Rightarrow> old | p # _ \<Rightarrow> Some p)"

definition breakIntoPagesIfNeeded :: "ETCDStorage \<Rightarrow> Transition \<Rightarrow> nat \<Rightarrow> Transition \<times> TransitionPage list" where
  "breakIntoPagesIfNeeded e t pageSize =
     (if length (sl (tr_Tasks t)) \<le> pageSize \<and> length (sl (tr_Location t)) \<le> pageSize
         \<and> length (sl (tr_TaskIDs t)) \<le> pageSize then (t, [])
      else
        let taskPages = pageTasks e t pageSize;
            locationPages = pageLocations t pageSize;
            taskIDsPages = pageTaskIDs t pageSize;
            pageCount = max (length taskPages) (max (length locationPages) (length taskIDsPages));
            t' = t\<lparr>tr_Tasks := first_page taskPages (tr_Tasks t),
                   tr_Location := first_page locationPages (tr_Location t),
                   tr_TaskIDs := first_page taskIDsPages (tr_TaskIDs t)\<rparr>;
            pages = map (\<lambda>i. \<lparr>tp_ID = tr_TransitionID t @ ''_'' @ itoa (int (i - 1)),
                               tp_TransitionID = tr_TransitionID t,
                               tp_Index = int (i - 1),
                               tp_Location = nth_page locationPages i,
                               tp_Tasks = nth_page taskPages i,
                               tp_TaskIDs = nth_page taskIDsPages i\<rparr>) [1..<pageCount]
        in (t', pages))"

definition page_size_for :: "ETCDStorage \<Rightarrow> Transition \<Rightarrow> nat" where
  "page_size_for e t =
     (if length (sl (tr_Tasks t)) < es_PageSize e \<and> length (sl (tr_Location t)) < es_PageSize e
      then es_PageSize e div 2 + 1 else es_PageSize e)"

definition truncateAndPageTransitionIfNeeded :: "ETCDStorage \<Rightarrow> Transition \<Rightarrow> Transition \<times> TransitionPage list" where
  "truncateAndPageTransitionIfNeeded e t =
     (if es_DisableSizeChecks e then (t, [])
      else let originalSize = getObjectSize t in
      if originalSize < es_MaxEtcdObjectSize e then (t, [])
      else let t1 = fst (truncateTaskMessagesIfNeeded e t originalSize) in
      if getObjectSize t1 < es_MaxEtcdObjectSize e then (t1, [])
      else breakIntoPagesIfNeeded e t1 (page_size_for e t1))"

section \<open>Transitions\<close>

definition transition_key :: "uuid \<Rightarrow> string" where
  "transition_key tid = keySegTransition @ ''/'' @ tid"

definition page_key :: "uuid \<Rightarrow> int \<Rightarrow> string" where
  "page_key tid i = keySegTransitionPage @ ''/'' @ tid @ ''/'' @ itoa i"

definition task_key :: "uuid \<Rightarrow> uuid \<Rightarrow> string" where
  "task_key tid taskID = keySegTransitionTask @ ''/'' @ tid @ ''/'' @ taskID"

text \<open>\<open>errors.Join\<close>: the texts of the errors, one per line.\<close>

definition errors_join :: "err option \<Rightarrow> err \<Rightarrow> err option" where
  "errors_join a b = Some (case a of None \<Rightarrow> b | Some x \<Rightarrow> x @ [CHR 0x0A] @ b)"

definition store_page :: "ETCDStorage \<Rightarrow> TransitionPage \<Rightarrow> err option \<Rightarrow> ('z, err option) io" where
  "store_page e page combinedErr = do {
     let key = page_key (tp_TransitionID page) (tp_Index page);
     err \<leftarrow> kvStore e key (enc_Page page);
     State_Monad.return (case err of None \<Rightarrow> combinedErr
       | Some x \<Rightarrow> errors_join (errors_join combinedErr (''failed to store key: '' @ key)) x) }"

definition StoreTransition :: "ETCDStorage \<Rightarrow> Transition \<Rightarrow> ('z, err option) io" where
  "StoreTransition e transition = do {
     let (t, tPages) = truncateAndPageTransitionIfNeeded e transition;
     err \<leftarrow> kvStore e (transition_key (tr_TransitionID t)) (enc_Transition t);
     fold_io (store_page e) tPages err }"

definition StoreTransitionTask :: "ETCDStorage \<Rightarrow> TransitionTask \<Rightarrow> ('z, err option) io" where
  "StoreTransitionTask e task = kvStore e (task_key (tt_TransitionID task) (tt_TaskID task)) (enc_Task task)"

definition page_number :: "string \<Rightarrow> nat" where
  "page_number key = (case atoi_nat (after_last (CHR ''/'') key) of None \<Rightarrow> 0 | Some n \<Rightarrow> n)"

definition sortTransitionPages :: "(string \<times> json) list \<Rightarrow> (string \<times> json) list" where
  "sortTransitionPages kvl = sort_key (\<lambda>(k, v). page_number k) kvl"

fun decode_pages :: "(string \<times> json) list \<Rightarrow> TransitionPage list \<times> err option" where
  "decode_pages [] = ([], None)"
| "decode_pages ((k, j) # kvl) =
     (let (ps, err) = decode_pages kvl in
      case dec_Page j of
        None \<Rightarrow> (ps, Some (unmarshal_error @ (case err of None \<Rightarrow> [] | Some x \<Rightarrow> [CHR 0x0A] @ x)))
      | Some p \<Rightarrow> (p # ps, err))"

definition GetTransitionPages :: "ETCDStorage \<Rightarrow> uuid \<Rightarrow> ('z, TransitionPage list \<times> err option) io" where
  "GetTransitionPages e tid = do {
     let key = fixUpKey (keySegTransitionPage @ ''/'' @ tid);
     r \<leftarrow> Kvi_GetRange (es_kvHandle e) (key @ keyMin) (key @ keyMax);
     State_Monad.return (case r of Inl err \<Rightarrow> ([], Some err)
       | Inr kvl \<Rightarrow> decode_pages (sortTransitionPages kvl)) }"

definition add_page :: "Transition \<Rightarrow> TransitionPage \<Rightarrow> Transition" where
  "add_page t p = t\<lparr>tr_Tasks := sl_append (tr_Tasks t) (sl (tp_Tasks p)),
     tr_Location := sl_append (tr_Location t) (sl (tp_Location p)),
     tr_TaskIDs := sl_append (tr_TaskIDs t) (sl (tp_TaskIDs p))\<rparr>"

definition GetTransition :: "ETCDStorage \<Rightarrow> uuid \<Rightarrow> ('z, Transition \<times> Transition \<times> err option) io" where
  "GetTransition e tid = do {
     r \<leftarrow> kvGet e dec_Transition (transition_key tid);
     case r of
       Inl err \<Rightarrow> State_Monad.return (zero_transition, zero_transition, Some err)
     | Inr t \<Rightarrow>
         if \<not> es_DisableSizeChecks e then do {
           (pages, err) \<leftarrow> GetTransitionPages e (tr_TransitionID t);
           if pages \<noteq> [] then State_Monad.return (foldl add_page t pages, CopyTransition t, err)
           else State_Monad.return (t, t, None) }
         else State_Monad.return (t, t, None) }"

definition GetTransitionTask :: "ETCDStorage \<Rightarrow> uuid \<Rightarrow> uuid \<Rightarrow> ('z, err + TransitionTask) io" where
  "GetTransitionTask e tid taskID = kvGet e dec_Task (task_key tid taskID)"

definition GetAllTasksForTransition :: "ETCDStorage \<Rightarrow> uuid \<Rightarrow> ('z, TransitionTask list \<times> err option) io" where
  "GetAllTasksForTransition e tid =
     (let k = fixUpKey (keySegTransitionTask @ ''/'' @ tid) in kvRange e dec_Task (k @ keyMin) (k @ keyMax))"

definition GetAllTransitions :: "ETCDStorage \<Rightarrow> ('z, Transition list \<times> err option) io" where
  "GetAllTransitions e =
     (let k = fixUpKey (keySegTransition @ ''/'') in kvRange e dec_Transition (k @ keyMin) (k @ keyMax))"

definition delete_page :: "ETCDStorage \<Rightarrow> uuid \<Rightarrow> TransitionPage \<Rightarrow> err option \<Rightarrow> ('z, err option) io" where
  "delete_page e tid page combinedErr = do {
     err \<leftarrow> kvDelete e (page_key tid (tp_Index page));
     State_Monad.return (case err of None \<Rightarrow> combinedErr | Some x \<Rightarrow> errors_join combinedErr x) }"

definition DeleteTransition :: "ETCDStorage \<Rightarrow> uuid \<Rightarrow> ('z, err option) io" where
  "DeleteTransition e tid = do {
     combinedErr \<leftarrow> kvDelete e (transition_key tid);
     if \<not> es_DisableSizeChecks e then do {
       (pages, err) \<leftarrow> GetTransitionPages e tid;
       let combinedErr' = (case err of None \<Rightarrow> combinedErr | Some x \<Rightarrow> errors_join combinedErr x);
       fold_io (delete_page e tid) pages combinedErr' }
     else State_Monad.return combinedErr }"

definition DeleteTransitionTask :: "ETCDStorage \<Rightarrow> uuid \<Rightarrow> uuid \<Rightarrow> ('z, err option) io" where
  "DeleteTransitionTask e tid taskID = kvDelete e (task_key tid taskID)"

text \<open>\<open>TASTransition\<close> writes the pages whether or not the test succeeded.\<close>

definition TASTransition :: "ETCDStorage \<Rightarrow> Transition \<Rightarrow> Transition \<Rightarrow> ('z, bool \<times> err option) io" where
  "TASTransition e transition testVal = do {
     let (newTransition, newTransitionPages) = truncateAndPageTransitionIfNeeded e transition;
     (ok, err) \<leftarrow> kvTAS e (transition_key (tr_TransitionID transition))
        (enc_Transition testVal) (enc_Transition newTransition);
     case err of Some x \<Rightarrow> State_Monad.return (ok, Some x)
     | None \<Rightarrow> do {
         combinedErr \<leftarrow> fold_io (store_page e) newTransitionPages None;
         State_Monad.return (ok, combinedErr) } }"

section \<open>Single calls in a quiet world\<close>

lemma run_kvStore_quiet [run_simps]:
  "quiet w \<Longrightarrow> run_state (kvStore e key v) w =
     (None, (tick w)\<lparr>kvs := AList.update (fixUpKey key) v (kvs w)\<rparr>)"
  by (simp add: kvStore_def Kvi_Store_def run_simps)

lemma run_kvDelete_quiet [run_simps]:
  "quiet w \<Longrightarrow> run_state (kvDelete e key) w =
     (None, (tick w)\<lparr>kvs := AList.delete (fixUpKey key) (kvs w)\<rparr>)"
  by (simp add: kvDelete_def Kvi_Delete_def run_simps)

lemma run_kvGet_quiet [run_simps]:
  "quiet w \<Longrightarrow> run_state (kvGet e dec key) w =
     (case map_of (kvs w) (fixUpKey key) of
        None \<Rightarrow> Inl (''Key '' @ key @ '' does not exist'')
      | Some j \<Rightarrow> (case dec j of None \<Rightarrow> Inl unmarshal_error | Some v \<Rightarrow> Inr v), tick w)"
  by (simp add: kvGet_def Kvi_Get_def run_simps tick_def split: option.splits)

lemma run_kvTAS_quiet [run_simps]:
  "quiet w \<Longrightarrow> run_state (kvTAS e key tv sv) w =
     ((fst (tas (es_kvHandle e) (fixUpKey key) tv sv (kvs w)), None),
      (tick w)\<lparr>kvs := snd (tas (es_kvHandle e) (fixUpKey key) tv sv (kvs w))\<rparr>)"
  by (simp add: kvTAS_def Kvi_TAS_def run_simps)

lemma run_Kvi_GetRange_quiet [run_simps]:
  "quiet w \<Longrightarrow> run_state (Kvi_GetRange h s t) w =
     (Inr (shuffle (w_order w (Suc (ticks w))) (filter (\<lambda>(k, v). in_range h s t k) (kvs w))), tick (tick w))"
  by (simp add: Kvi_GetRange_def run_simps tick_def)

section \<open>Keys\<close>

lemma fixUpKey_power: "fixUpKey (power_key x) = ''/pcs/powerstate/'' @ x"
  by (simp add: fixUpKey_def power_key_def key_defs has_prefix_def)

lemma fixUpKey_transition: "fixUpKey (transition_key t) = ''/pcs/transition/'' @ t"
  by (simp add: fixUpKey_def transition_key_def key_defs has_prefix_def)

lemma fixUpKey_page: "fixUpKey (page_key t i) = ''/pcs/transitionpage/'' @ t @ ''/'' @ itoa i"
  by (simp add: fixUpKey_def page_key_def key_defs has_prefix_def)

lemma fixUpKey_task: "fixUpKey (task_key t i) = ''/pcs/transitiontask/'' @ t @ ''/'' @ i"
  by (simp add: fixUpKey_def task_key_def key_defs has_prefix_def)

lemma fixUpKey_page_prefix [simp]:
  "fixUpKey (keySegTransitionPage @ CHR ''/'' # t) = ''/pcs/transitionpage/'' @ t"
  by (simp add: fixUpKey_def key_defs has_prefix_def)

lemmas real_keys = fixUpKey_power fixUpKey_transition fixUpKey_page fixUpKey_task

section \<open>One entity per key\<close>

text \<open>
  What every single-entry entity of the store relies on: a codec and a key that tells the
  entities apart. The laws of a map follow for the actions built from them.
\<close>

locale keyed_entity = codec enc dec wf
  for enc :: "'a \<Rightarrow> json" and dec :: "json \<Rightarrow> 'a option" and wf :: "'a \<Rightarrow> bool" +
  fixes key :: "'i \<Rightarrow> string"
    and ident :: "'a \<Rightarrow> 'i"
    and ok :: "'i \<Rightarrow> bool"
  assumes key_inj: "ok i \<Longrightarrow> ok j \<Longrightarrow> fixUpKey (key i) = fixUpKey (key j) \<Longrightarrow> i = j"
begin

lemma get_after_put:
  assumes "quiet w" "wf x"
  shows "fst (run_state (do { _ \<leftarrow> kvStore e (key (ident x)) (enc x); kvGet e dec (key (ident x)) }) w) = Inr x"
  using assms by (simp add: run_simps dec_enc)

lemma get_other_after_put:
  assumes "quiet w" "ok i" "ok (ident x)" "i \<noteq> ident x"
  shows "fst (run_state (do { _ \<leftarrow> kvStore e (key (ident x)) (enc x); kvGet e dec (key i) }) w)
       = fst (run_state (kvGet e dec (key i)) w)"
  using assms key_inj by (auto simp: run_simps)

lemma get_after_delete:
  assumes "quiet w"
  shows "fst (run_state (do { _ \<leftarrow> kvDelete e (key i); kvGet e dec (key i) }) w)
       = Inl (''Key '' @ key i @ '' does not exist'')"
  using assms by (simp add: run_simps)

lemma get_other_after_delete:
  assumes "quiet w" "ok i" "ok j" "i \<noteq> j"
  shows "fst (run_state (do { _ \<leftarrow> kvDelete e (key j); kvGet e dec (key i) }) w)
       = fst (run_state (kvGet e dec (key i)) w)"
  using assms key_inj by (auto simp: run_simps)

end

lemma uuid_ok_length: "uuid_ok u \<Longrightarrow> length u = 36"
  by (simp add: uuid_ok_def)

interpretation task_store: keyed_entity enc_Task dec_Task wf_task
  "\<lambda>(t, i). task_key t i" "\<lambda>t. (tt_TransitionID t, tt_TaskID t)" "\<lambda>(t, i). uuid_ok t \<and> uuid_ok i"
  by unfold_locales (auto simp: real_keys append_eq_append_conv uuid_ok_length)

interpretation power_store: keyed_entity enc_PowerStatus dec_PowerStatus "\<lambda>_. True"
  power_key ps_XName "\<lambda>_. True"
  by unfold_locales (simp add: real_keys)

text \<open>
  A transition task that is stored is the task that is read, storing or deleting it changes
  no other task, and a deleted task is reported as missing.
\<close>

lemma task_store_laws:
  assumes w: "quiet w" and t: "wf_task t"
    and o: "uuid_ok tid" "uuid_ok i" "(tid, i) \<noteq> (tt_TransitionID t, tt_TaskID t)"
  shows "fst (run_state (do { _ \<leftarrow> StoreTransitionTask e t;
           GetTransitionTask e (tt_TransitionID t) (tt_TaskID t) }) w) = Inr t
    \<and> fst (run_state (do { _ \<leftarrow> StoreTransitionTask e t; GetTransitionTask e tid i }) w)
       = fst (run_state (GetTransitionTask e tid i) w)
    \<and> fst (run_state (do { _ \<leftarrow> DeleteTransitionTask e tid i; GetTransitionTask e tid i }) w)
       = Inl (''Key '' @ task_key tid i @ '' does not exist'')
    \<and> fst (run_state (do { _ \<leftarrow> DeleteTransitionTask e tid i;
           GetTransitionTask e (tt_TransitionID t) (tt_TaskID t) }) w)
       = fst (run_state (GetTransitionTask e (tt_TransitionID t) (tt_TaskID t)) w)"
  using task_store.get_after_put [OF w t, of e] task_store.get_after_delete [OF w, of e "(tid, i)"]
    task_store.get_other_after_put [OF w, of "(tid, i)" t e]
    task_store.get_other_after_delete [OF w, of "(tt_TransitionID t, tt_TaskID t)" "(tid, i)" e] o t
  by (auto simp: StoreTransitionTask_def GetTransitionTask_def DeleteTransitionTask_def wf_task_def)

text \<open>
  Power status entries follow the same laws, and an operation on an invalid xname is
  refused with the parse error and leaves the store as it is.
\<close>

lemma power_status_laws:
  assumes w: "quiet w" and x: "IsHMSCompIDValid (ps_XName p)"
  shows "fst (run_state (do { _ \<leftarrow> StorePowerStatus e p; GetPowerStatus e (ps_XName p) }) w) = Inr p
    \<and> (y \<noteq> ps_XName p \<longrightarrow>
       fst (run_state (do { _ \<leftarrow> StorePowerStatus e p; GetPowerStatus e y }) w)
         = fst (run_state (GetPowerStatus e y) w))
    \<and> fst (run_state (do { _ \<leftarrow> DeletePowerStatus e (ps_XName p); GetPowerStatus e (ps_XName p) }) w)
         = Inl (''Key '' @ power_key (ps_XName p) @ '' does not exist'')
    \<and> (\<not> IsHMSCompIDValid y \<longrightarrow>
       run_state (StorePowerStatus e (p\<lparr>ps_XName := y\<rparr>)) w = (Some (xname_error y), w) \<and>
       run_state (GetPowerStatus e y) w = (Inl (xname_error y), w) \<and>
       run_state (DeletePowerStatus e y) w = (Some (xname_error y), w))"
  using x w power_store.get_after_put [OF w, where x = p and e = e] power_store.get_after_delete [OF w, where i = "ps_XName p" and e = e]
    power_store.get_other_after_put [OF w, where i = y and x = p and e = e]
  by (cases "IsHMSCompIDValid y")
    (auto simp: StorePowerStatus_def GetPowerStatus_def DeletePowerStatus_def run_kvStore_quiet)

section \<open>Paging\<close>

lemma page_loop_more:
  "i < length xs \<Longrightarrow> 0 < stp \<Longrightarrow> page_loop stp sz xs i = take sz (drop i xs) # page_loop stp sz xs (i + stp)"
  by (subst page_loop.simps) simp

lemma page_loop_done: "length xs \<le> i \<Longrightarrow> page_loop stp sz xs i = []"
  by (subst page_loop.simps) simp

lemma concat_page_loop:
  assumes "0 < n"
  shows "concat (page_loop n n xs i) = drop i xs"
proof (induction "length xs - i" arbitrary: i rule: less_induct)
  case less
  show ?case
  proof (cases "i < length xs")
    case True
    then have "concat (page_loop n n xs (i + n)) = drop n (drop i xs)"
      using less assms by (simp add: add.commute)
    with True assms have "concat (page_loop n n xs i) = take n (drop i xs) @ drop n (drop i xs)"
      by (simp add: page_loop_more)
    then show ?thesis by (simp only: append_take_drop_id)
  qed (simp add: page_loop_done)
qed

lemma page_loop_once:
  assumes "xs \<noteq> []" "length xs \<le> stp"
  shows "page_loop stp sz xs 0 = [take sz xs]"
proof -
  from assms have "0 < length xs" "0 < stp" by (cases xs, simp_all)+
  with assms show ?thesis by (simp add: page_loop_more page_loop_done)
qed

lemma page_loop_pieces:
  assumes "0 < sz"
  shows "p \<in> set (page_loop stp sz xs i) \<Longrightarrow> p \<noteq> [] \<and> length p \<le> sz"
proof (induction "length xs - i" arbitrary: i rule: less_induct)
  case less
  show ?case
  proof (cases "i < length xs \<and> 0 < stp")
    case True
    with less.prems consider "p = take sz (drop i xs)" | "p \<in> set (page_loop stp sz xs (i + stp))"
      by (auto simp: page_loop_more)
    then show ?thesis
    proof cases
      case 2
      with True show ?thesis by (intro less.hyps [of "i + stp"]) auto
    qed (use True assms in auto)
  next
    case False
    with less.prems show ?thesis by (subst (asm) page_loop.simps) simp
  qed
qed

text \<open>A list of pages put back together: the first page, then the rest in order.\<close>

definition rejoin :: "'a list list \<Rightarrow> nat \<Rightarrow> 'a list option \<Rightarrow> 'a list option" where
  "rejoin pages n old = foldl sl_append (first_page pages old) (map (\<lambda>i. sl (nth_page pages i)) [1..<n])"

lemma foldl_sl_append: "foldl sl_append (Some ys) xss = Some (ys @ concat xss)"
  by (induction xss arbitrary: ys) (auto simp: sl_append_def)

lemma concat_nth_pages: "length pages \<le> n \<Longrightarrow> concat (map (\<lambda>i. sl (nth_page pages i)) [0..<n]) = concat pages"
proof -
  assume "length pages \<le> n"
  then have "[0..<n] = [0..<length pages] @ [length pages..<n]"
    by (metis le_add_diff_inverse upt_add_eq_append zero_le)
  moreover have "map (\<lambda>i. sl (nth_page pages i)) [0..<length pages] = pages"
    by (rule nth_equalityI) (simp_all add: nth_page_def)
  moreover have "concat (map (\<lambda>i. sl (nth_page pages i)) [length pages..<n]) = []"
    by (simp add: nth_page_def)
  ultimately show ?thesis by simp
qed

lemma rejoin_eq:
  assumes "length pages \<le> n"
  shows "rejoin pages n old = (if pages = [] then old else Some (concat pages))"
proof (cases pages)
  case Nil
  then have "foldl sl_append x (map (\<lambda>i. sl (nth_page pages i)) js) = x" for x js
    by (induction js arbitrary: x) (auto simp: nth_page_def sl_append_def)
  then show ?thesis by (simp add: rejoin_def first_page_def Nil)
next
  case (Cons p ps)
  with assms have "[0..<n] = 0 # [1..<n]" by (simp add: upt_rec)
  with concat_nth_pages [OF assms] Cons
  have "p @ concat (map (\<lambda>i. sl (nth_page pages i)) [1..<n]) = concat pages"
    by (simp add: nth_page_def)
  with Cons show ?thesis by (simp add: rejoin_def first_page_def foldl_sl_append)
qed

lemma foldl_add_page:
  "foldl add_page t ps = t\<lparr>tr_Tasks := foldl sl_append (tr_Tasks t) (map (\<lambda>p. sl (tp_Tasks p)) ps),
     tr_Location := foldl sl_append (tr_Location t) (map (\<lambda>p. sl (tp_Location p)) ps),
     tr_TaskIDs := foldl sl_append (tr_TaskIDs t) (map (\<lambda>p. sl (tp_TaskIDs p)) ps)\<rparr>"
  by (induction ps arbitrary: t) (simp_all add: add_page_def)

definition fits_one_page :: "Transition \<Rightarrow> nat \<Rightarrow> bool" where
  "fits_one_page t n \<longleftrightarrow> length (sl (tr_Tasks t)) \<le> n \<and> length (sl (tr_Location t)) \<le> n
     \<and> length (sl (tr_TaskIDs t)) \<le> n"

definition page_count :: "ETCDStorage \<Rightarrow> Transition \<Rightarrow> nat \<Rightarrow> nat" where
  "page_count e t n = max (length (pageTasks e t n)) (max (length (pageLocations t n)) (length (pageTaskIDs t n)))"

lemma break_fits: "fits_one_page t n \<Longrightarrow> breakIntoPagesIfNeeded e t n = (t, [])"
  by (simp add: breakIntoPagesIfNeeded_def fits_one_page_def)

definition page_at :: "ETCDStorage \<Rightarrow> Transition \<Rightarrow> nat \<Rightarrow> nat \<Rightarrow> TransitionPage" where
  "page_at e t n i = \<lparr>tp_ID = tr_TransitionID t @ ''_'' @ itoa (int (i - 1)),
     tp_TransitionID = tr_TransitionID t, tp_Index = int (i - 1),
     tp_Location = nth_page (pageLocations t n) i, tp_Tasks = nth_page (pageTasks e t n) i,
     tp_TaskIDs = nth_page (pageTaskIDs t n) i\<rparr>"

definition page_zero :: "ETCDStorage \<Rightarrow> Transition \<Rightarrow> nat \<Rightarrow> Transition" where
  "page_zero e t n = t\<lparr>tr_Tasks := first_page (pageTasks e t n) (tr_Tasks t),
     tr_Location := first_page (pageLocations t n) (tr_Location t),
     tr_TaskIDs := first_page (pageTaskIDs t n) (tr_TaskIDs t)\<rparr>"

lemma break_paged:
  assumes "\<not> fits_one_page t n"
  shows "breakIntoPagesIfNeeded e t n = (page_zero e t n, map (page_at e t n) [1..<page_count e t n])"
  using assms unfolding breakIntoPagesIfNeeded_def fits_one_page_def Let_def page_count_def
  by (simp only: if_False page_zero_def page_at_def [abs_def])

lemma break_rejoin:
  assumes "\<not> fits_one_page t n"
  shows "foldl add_page (fst (breakIntoPagesIfNeeded e t n)) (snd (breakIntoPagesIfNeeded e t n)) =
    t\<lparr>tr_Tasks := rejoin (pageTasks e t n) (page_count e t n) (tr_Tasks t),
      tr_Location := rejoin (pageLocations t n) (page_count e t n) (tr_Location t),
      tr_TaskIDs := rejoin (pageTaskIDs t n) (page_count e t n) (tr_TaskIDs t)\<rparr>"
  using assms by (simp add: break_paged page_zero_def page_at_def foldl_add_page rejoin_def comp_def)

lemma rejoin_locations: "0 < n \<Longrightarrow> rejoin (pageLocations t n) (page_count e t n) (tr_Location t) = tr_Location t"
  by (auto simp: rejoin_eq page_count_def pageLocations_def concat_page_loop page_loop_more split: option.splits)

lemma rejoin_ids: "0 < n \<Longrightarrow> rejoin (pageTaskIDs t n) (page_count e t n) (tr_TaskIDs t) = tr_TaskIDs t"
  by (auto simp: rejoin_eq page_count_def pageTaskIDs_def concat_page_loop page_loop_more split: option.splits)

lemma rejoin_tasks:
  assumes "0 < n" "es_PageSize e = n \<or> length (sl (tr_Tasks t)) \<le> n"
  shows "rejoin (pageTasks e t n) (page_count e t n) (tr_Tasks t) = tr_Tasks t"
  using assms
  by (auto simp: rejoin_eq page_count_def pageTasks_def concat_page_loop page_loop_more split: option.splits)

lemma break_add_pages:
  assumes "0 < n" "es_PageSize e = n \<or> length (sl (tr_Tasks t)) \<le> n"
  shows "foldl add_page (fst (breakIntoPagesIfNeeded e t n)) (snd (breakIntoPagesIfNeeded e t n)) = t"
  using assms by (cases "fits_one_page t n")
    (simp_all add: break_fits break_rejoin rejoin_tasks rejoin_locations rejoin_ids)

text \<open>
  Breaking a transition into pages and appending the pages to the first one gives the
  transition back, with every location and task identifier, for every positive page size, and
  with every task result when the task pages advance by their own size or there is one of them.
\<close>

lemma paging_roundtrip:
  assumes "0 < pageSize" "es_PageSize e = pageSize \<or> length (sl (tr_Tasks t)) \<le> pageSize"
    and "breakIntoPagesIfNeeded e t pageSize = (t', pages)"
  shows "foldl add_page t' pages = t"
  using break_add_pages [OF assms(1,2)] assms(3) by simp

text \<open>
  C39: with the smaller page size that \<open>truncateAndPageTransitionIfNeeded\<close> picks for fewer
  tasks than \<open>PageSize\<close>, the task pages still advance by \<open>PageSize\<close>: only the first
  \<open>PageSize/2+1\<close> task results are stored and the others are lost.
\<close>

theorem paging_drops_tasks:
  assumes "length (sl (tr_Tasks t)) < es_PageSize e" "length (sl (tr_Location t)) < es_PageSize e"
    and "page_size_for e t < length (sl (tr_Tasks t))"
    and "breakIntoPagesIfNeeded e t (page_size_for e t) = (t', pages)"
  shows "sl (tr_Tasks (foldl add_page t' pages)) = take (es_PageSize e div 2 + 1) (sl (tr_Tasks t))
    \<and> length (sl (tr_Tasks (foldl add_page t' pages))) < length (sl (tr_Tasks t))"
proof -
  from assms(1,2) have n: "page_size_for e t = es_PageSize e div 2 + 1"
    by (simp add: page_size_for_def)
  obtain ts where ts: "tr_Tasks t = Some ts" using assms(3) by (cases "tr_Tasks t") auto
  with assms(1,3) have "pageTasks e t (page_size_for e t) = [take (page_size_for e t) ts]"
    by (simp add: pageTasks_def) (rule page_loop_once, auto)
  with break_rejoin [of t "page_size_for e t" e] assms(3,4) ts
  show ?thesis by (simp add: fits_one_page_def rejoin_eq page_count_def n)
qed

section \<open>Reading back what was stored\<close>

text \<open>The range \<open>key + " "\<close> to \<open>key + "~"\<close> holds only keys that start with \<open>key\<close>.\<close>

lemma between_has_prefix: "p @ a \<le> k \<Longrightarrow> k \<le> p @ b \<Longrightarrow> has_prefix k (p :: string)"
proof (induction p arbitrary: k)
  case (Cons c p)
  then show ?case by (cases k) (auto simp: has_prefix_def)
qed (simp add: has_prefix_def)

lemma in_range_prefix: "in_range h (p @ a) (p @ b) k \<Longrightarrow> has_prefix k p"
  unfolding in_range_def by (cases h) (auto dest: less_imp_le intro: between_has_prefix)

lemma in_range_page: "in_range h (p @ keyMin) (p @ keyMax) (p @ ''/'' @ s)"
proof -
  have "p @ '' '' < p @ ''/'' @ s \<and> p @ ''/'' @ s < p @ ''~''"
    by (induction p) (auto simp: less_char_def)
  then show ?thesis by (cases h) (auto simp: in_range_def key_defs)
qed

definition pages_of :: "ETCDStorage \<Rightarrow> uuid \<Rightarrow> kvstore \<Rightarrow> kvstore" where
  "pages_of e tid m = filter (\<lambda>(k, v). in_range (es_kvHandle e)
     (''/pcs/transitionpage/'' @ tid @ keyMin) (''/pcs/transitionpage/'' @ tid @ keyMax) k) m"

lemma filter_update_out:
  "\<not> P k \<Longrightarrow> filter (\<lambda>(k, v). P k) (AList.update k v m) = filter (\<lambda>(k, v). P k) m"
  by (induction m) auto

lemma filter_update_new:
  "P k \<Longrightarrow> k \<notin> set (keys (filter (\<lambda>(k, v). P k) m)) \<Longrightarrow>
   filter (\<lambda>(k, v). P k) (AList.update k v m) = filter (\<lambda>(k, v). P k) m @ [(k, v)]"
  by (induction m) (auto simp: keys_def split: if_splits)

lemma pages_of_transition_key [simp]:
  "pages_of e tid (AList.update (fixUpKey (transition_key u)) v m) = pages_of e tid m"
  unfolding pages_of_def real_keys
  by (rule filter_update_out) (use in_range_prefix in \<open>fastforce simp: has_prefix_def\<close>)

definition page_entry :: "TransitionPage \<Rightarrow> string \<times> json" where
  "page_entry p = (fixUpKey (page_key (tp_TransitionID p) (tp_Index p)), enc_Page p)"

lemma pages_of_page_key:
  assumes "k = fixUpKey (page_key tid i)" "k \<notin> set (keys (pages_of e tid m))"
  shows "pages_of e tid (AList.update k v m) = pages_of e tid m @ [(k, v)]"
  using assms in_range_page [of _ "''/pcs/transitionpage/'' @ tid" "itoa i"]
  unfolding pages_of_def by (intro filter_update_new) (auto simp: real_keys)

definition put_page :: "kvstore \<Rightarrow> TransitionPage \<Rightarrow> kvstore" where
  "put_page m p = AList.update (fst (page_entry p)) (snd (page_entry p)) m"

lemma run_store_pages:
  "quiet w \<Longrightarrow> \<exists>w'. run_state (fold_io (store_page e) ps err) w = (err, w') \<and> quiet w' \<and>
     kvs w' = foldl put_page (kvs w) ps"
proof (induction ps arbitrary: w)
  case (Cons p ps)
  let ?w = "(tick w)\<lparr>kvs := put_page (kvs w) p\<rparr>"
  have "run_state (store_page e p err) w = (err, ?w)"
    using Cons.prems by (simp add: store_page_def run_simps put_page_def page_entry_def Let_def)
  with Cons.IH [of ?w] Cons.prems show ?case by simp
qed simp

lemma itoa_nat_inj: "0 \<le> i \<Longrightarrow> 0 \<le> j \<Longrightarrow> itoa i = itoa j \<longleftrightarrow> i = j"
  by (auto simp: itoa_def nat_str_inj nat_eq_iff2)

lemma page_entry_inj:
  "tp_TransitionID p = tp_TransitionID q \<Longrightarrow> 0 \<le> tp_Index p \<Longrightarrow> 0 \<le> tp_Index q \<Longrightarrow>
   fst (page_entry p) = fst (page_entry q) \<longleftrightarrow> tp_Index p = tp_Index q"
  by (simp add: page_entry_def real_keys itoa_nat_inj)

lemma map_of_put_pages:
  "map_of (foldl put_page m ps) (fixUpKey (transition_key u)) = map_of m (fixUpKey (transition_key u))"
  by (induction ps arbitrary: m) (simp_all add: put_page_def page_entry_def real_keys)

lemma pages_of_put_pages:
  assumes "\<And>p. p \<in> set ps \<Longrightarrow> tp_TransitionID p = tid \<and> 0 \<le> tp_Index p"
    and "distinct (map tp_Index ps)"
    and "\<And>p. p \<in> set ps \<Longrightarrow> fst (page_entry p) \<notin> set (keys (pages_of e tid m))"
  shows "pages_of e tid (foldl put_page m ps) = pages_of e tid m @ map page_entry ps"
  using assms
proof (induction ps arbitrary: m)
  case (Cons p ps)
  have one: "pages_of e tid (put_page m p) = pages_of e tid m @ [page_entry p]"
    using Cons.prems(1,3) [of p] unfolding put_page_def
    by (subst pages_of_page_key [of _ tid "tp_Index p"]) (auto simp: page_entry_def)
  have "fst (page_entry q) \<notin> set (keys (pages_of e tid (put_page m p)))" if "q \<in> set ps" for q
  proof -
    have "fst (page_entry q) = fst (page_entry p) \<longleftrightarrow> tp_Index q = tp_Index p"
      using that Cons.prems(1) [of p] Cons.prems(1) [of q] by (intro page_entry_inj) auto
    then have "fst (page_entry q) \<noteq> fst (page_entry p)"
      using that Cons.prems(2) by (metis distinct.simps(2) image_eqI list.map(2) list.set_map)
    with Cons.prems(3) [of q] that show ?thesis by (simp add: one keys_def)
  qed
  then have "pages_of e tid (foldl put_page (put_page m p) ps)
      = pages_of e tid (put_page m p) @ map page_entry ps"
    using Cons.prems by (intro Cons.IH) auto
  then show ?case by (simp add: one)
qed simp

lemma sort_key_shuffle:
  assumes "sorted (map f xs)" "distinct (map f xs)"
  shows "sort_key f (shuffle c xs) = xs"
proof -
  let ?ys = "sort_key f (shuffle c xs)"
  have m: "mset ?ys = mset xs" by simp
  have "mset (map f ?ys) = mset (map f xs)" using m by (metis mset_map)
  then have "distinct (map f ?ys)" "set (map f ?ys) = set (map f xs)"
    using assms(2) by (metis mset_eq_imp_distinct_iff, metis mset_eq_setD)
  then have "map f ?ys = map f xs"
    using assms by (intro sorted_distinct_set_unique) auto
  moreover have "inj_on f (set ?ys \<union> set xs)" using assms(2) m by (auto simp: distinct_map)
  ultimately show ?thesis by (rule map_inj_on)
qed

lemma page_number_entry: "0 \<le> tp_Index p \<Longrightarrow> page_number (fst (page_entry p)) = nat (tp_Index p)"
  using atoi_itoa [of "nat (tp_Index p)"] slash_not_in_nat_str [of "nat (tp_Index p)"]
    after_last_append [of "CHR ''/''" "itoa (tp_Index p)" "''/pcs/transitionpage/'' @ tp_TransitionID p"]
  by (simp add: page_number_def page_entry_def real_keys itoa_def)

lemma sort_page_entries:
  assumes "sorted (map tp_Index ps)" "distinct (map tp_Index ps)" "\<And>p. p \<in> set ps \<Longrightarrow> 0 \<le> tp_Index p"
  shows "sortTransitionPages (shuffle c (map page_entry ps)) = map page_entry ps"
proof -
  have "map (\<lambda>(k, v). page_number k) (map page_entry ps) = map nat (map tp_Index ps)"
    using assms(3) page_number_entry by (auto simp: case_prod_beta)
  moreover have "sorted (map nat (map tp_Index ps))"
    using assms(1) by (auto simp: sorted_map intro: sorted_wrt_mono_rel [rotated])
  moreover have "distinct (map nat (map tp_Index ps))"
    using assms(2,3) by (auto simp: distinct_map inj_on_def eq_nat_nat_iff)
  ultimately show ?thesis
    unfolding sortTransitionPages_def by (intro sort_key_shuffle) (simp_all only:)
qed

lemma decode_page_entries: "list_all wf_page ps \<Longrightarrow> decode_pages (map page_entry ps) = (ps, None)"
  by (induction ps) (simp_all add: page_entry_def page_codec.dec_enc)

lemma foldl_sl_append_None: "foldl sl_append None xss = (if concat xss = [] then None else Some (concat xss))"
proof (induction xss)
  case (Cons x xss)
  then show ?case
    by (cases "x = []") (simp_all add: sl_append_def [of None] foldl_sl_append)
qed simp

lemma norm_add_pages: "foldl add_page (norm_transition t) ps = norm_transition (foldl add_page t ps)"
  by (cases "tr_Tasks t")
    (auto simp: norm_transition_def foldl_add_page foldl_sl_append foldl_sl_append_None)

text \<open>The pages a transition is broken into can be read back, whatever the page size.\<close>

lemma pageTasks_later: "0 < n \<Longrightarrow> 0 < i \<Longrightarrow> nth_page (pageTasks e t n) i \<noteq> Some []"
proof -
  assume "0 < n" "0 < i"
  moreover have "page_loop (es_PageSize e) n ts 0 ! i \<noteq> []" if "i < length (page_loop (es_PageSize e) n ts 0)" for ts
    using page_loop_pieces [OF \<open>0 < n\<close> nth_mem [OF that]] by simp
  ultimately show ?thesis
    by (auto simp: pageTasks_def nth_page_def split: option.splits if_splits)
qed

lemma pageTaskIDs_ok:
  assumes "list_all uuid_ok (sl (tr_TaskIDs t))" "0 < n"
  shows "list_all uuid_ok (sl (nth_page (pageTaskIDs t n) i))"
proof (cases "i < length (pageTaskIDs t n)")
  case True
  then have "set (pageTaskIDs t n ! i) \<subseteq> set (concat (pageTaskIDs t n))"
    using nth_mem by fastforce
  also have "\<dots> \<subseteq> set (sl (tr_TaskIDs t))"
    using assms(2) by (auto simp: pageTaskIDs_def concat_page_loop simp del: set_concat split: option.splits)
  finally show ?thesis using True assms(1) by (auto simp: nth_page_def list_all_iff)
qed (simp add: nth_page_def)

lemma break_pages_wf:
  assumes "wf_transition t" "0 < n"
  shows "list_all wf_page (snd (breakIntoPagesIfNeeded e t n))"
proof (cases "fits_one_page t n")
  case False
  then show ?thesis
    using assms pageTasks_later [of n _ e t] pageTaskIDs_ok [of t n]
    by (auto simp: break_paged list_all_iff page_at_def wf_page_def wf_transition_def)
qed (simp add: break_fits)

lemma break_pages_index:
  "map tp_Index (snd (breakIntoPagesIfNeeded e t n)) = map int [0..<length (snd (breakIntoPagesIfNeeded e t n))]"
proof (cases "fits_one_page t n")
  case False
  then show ?thesis
    by (auto simp: break_paged page_at_def intro!: nth_equalityI)
qed (simp add: break_fits)

lemma break_pages_id: "p \<in> set (snd (breakIntoPagesIfNeeded e t n)) \<Longrightarrow> tp_TransitionID p = tr_TransitionID t"
  by (cases "fits_one_page t n") (auto simp: break_fits break_paged page_at_def)

lemma run_GetTransitionPages_quiet:
  assumes "quiet w" "pages_of e tid (kvs w) = map page_entry ps"
    and "list_all wf_page ps" "map tp_Index ps = map int [0..<length ps]"
  shows "run_state (GetTransitionPages e tid) w = ((ps, None), tick (tick w))"
proof -
  have i: "sorted (map tp_Index ps)" "distinct (map tp_Index ps)"
    using assms(4) by (auto simp: sorted_iff_nth_mono distinct_map)
  have "0 \<le> tp_Index p" if "p \<in> set ps" for p
    using that assms(4) by (metis (no_types, lifting) image_iff list.set_map of_nat_0_le_iff)
  with i have "sortTransitionPages (shuffle c (map page_entry ps)) = map page_entry ps" for c
    by (intro sort_page_entries)
  with assms(1-3) show ?thesis
    unfolding pages_of_def GetTransitionPages_def
    by (simp add: run_simps decode_page_entries Let_def)
qed

definition stored_form :: "ETCDStorage \<Rightarrow> Transition \<Rightarrow> Transition" where
  "stored_form e t =
     (if es_DisableSizeChecks e \<or> getObjectSize t < es_MaxEtcdObjectSize e then t
      else fst (truncateTaskMessagesIfNeeded e t (getObjectSize t)))"

lemma stored_form_simps [simp]:
  "tr_TransitionID (stored_form e t) = tr_TransitionID t" "tr_TaskIDs (stored_form e t) = tr_TaskIDs t"
  "tr_Location (stored_form e t) = tr_Location t"
  "wf_transition (stored_form e t) = wf_transition t"
  by (simp_all add: stored_form_def truncateTaskMessagesIfNeeded_def wf_transition_def Let_def)

text \<open>What is written is the truncated transition, in one entry or in pages.\<close>

lemma truncateAndPage_cases:
  obtains "truncateAndPageTransitionIfNeeded e t = (stored_form e t, [])"
  | "\<not> es_DisableSizeChecks e"
    "truncateAndPageTransitionIfNeeded e t = breakIntoPagesIfNeeded e (stored_form e t) (page_size_for e (stored_form e t))"
  using that
  by (cases "es_DisableSizeChecks e \<or> getObjectSize t < es_MaxEtcdObjectSize e";
      cases "getObjectSize (stored_form e t) < es_MaxEtcdObjectSize e")
    (auto simp: truncateAndPageTransitionIfNeeded_def stored_form_def Let_def)

definition page_ok :: "ETCDStorage \<Rightarrow> uuid \<Rightarrow> TransitionPage list \<Rightarrow> bool" where
  "page_ok e tid ps \<longleftrightarrow> list_all wf_page ps \<and> map tp_Index ps = map int [0..<length ps] \<and>
     (\<forall>p \<in> set ps. tp_TransitionID p = tid) \<and> (es_DisableSizeChecks e \<longrightarrow> ps = [])"

lemma truncateAndPage_ok:
  assumes "wf_transition t" "0 < es_PageSize e" "truncateAndPageTransitionIfNeeded e t = (t0, ps)"
  shows "page_ok e (tr_TransitionID t) ps" "wf_transition t0" "tr_TransitionID t0 = tr_TransitionID t"
proof -
  let ?t = "stored_form e t" and ?n = "page_size_for e (stored_form e t)"
  have n: "0 < ?n" using assms(2) by (simp add: page_size_for_def)
  have z: "wf_transition (page_zero e ?t ?n)"
    using assms(1) pageTaskIDs_ok [of ?t ?n 0] n
    by (auto simp: wf_transition_def page_zero_def first_page_def nth_page_def split: list.splits)
  have b: "wf_transition (fst (breakIntoPagesIfNeeded e ?t ?n))"
    "tr_TransitionID (fst (breakIntoPagesIfNeeded e ?t ?n)) = tr_TransitionID t"
    using assms(1) z by (cases "fits_one_page ?t ?n", simp_all add: break_fits break_paged page_zero_def)+
  show "page_ok e (tr_TransitionID t) ps" "wf_transition t0" "tr_TransitionID t0 = tr_TransitionID t"
    using assms b break_pages_wf [of ?t ?n e] break_pages_index [of e ?t ?n] break_pages_id [of _ e ?t ?n] n
    by (cases rule: truncateAndPage_cases [of e t]; auto simp: page_ok_def)+
qed

text \<open>A transition and its pages as they lie in the store, and how they are read.\<close>

definition stored_as :: "ETCDStorage \<Rightarrow> uuid \<Rightarrow> Transition \<Rightarrow> TransitionPage list \<Rightarrow> kvstore \<Rightarrow> bool" where
  "stored_as e tid t0 ps m \<longleftrightarrow> map_of m (fixUpKey (transition_key tid)) = Some (enc_Transition t0) \<and>
     wf_transition t0 \<and> tr_TransitionID t0 = tid \<and> page_ok e tid ps \<and> pages_of e tid m = map page_entry ps"

lemma run_GetTransition_quiet:
  assumes "quiet w" "stored_as e tid t0 ps (kvs w)"
  shows "\<exists>w'. run_state (GetTransition e tid) w = ((norm_transition (foldl add_page t0 ps),
      if ps = [] then norm_transition t0 else CopyTransition (norm_transition t0), None), w') \<and>
    quiet w' \<and> kvs w' = kvs w"
proof -
  have get: "run_state (kvGet e dec_Transition (transition_key tid)) w = (Inr (norm_transition t0), tick w)"
    using assms by (simp add: stored_as_def run_simps dec_enc_Transition)
  have tid: "tr_TransitionID (norm_transition t0) = tid" using assms(2) by (simp add: stored_as_def norm_transition_def)
  have pg: "run_state (GetTransitionPages e tid) (tick w) = ((ps, None), tick (tick (tick w)))"
    using assms by (intro run_GetTransitionPages_quiet) (auto simp: page_ok_def stored_as_def)
  show ?thesis
    using assms by (auto simp: GetTransition_def get tid pg norm_add_pages page_ok_def stored_as_def)
qed

lemma run_StoreTransition_quiet:
  assumes w: "quiet w" and t: "wf_transition t" "0 < es_PageSize e"
    and fresh: "pages_of e (tr_TransitionID t) (kvs w) = []"
    and p: "truncateAndPageTransitionIfNeeded e t = (t0, ps)"
  shows "\<exists>w'. run_state (StoreTransition e t) w = (None, w') \<and> quiet w' \<and>
    stored_as e (tr_TransitionID t) t0 ps (kvs w') \<and>
    kvs w' = foldl put_page (AList.update (fixUpKey (transition_key (tr_TransitionID t))) (enc_Transition t0) (kvs w)) ps"
proof -
  let ?tid = "tr_TransitionID t"
  let ?w = "(tick w)\<lparr>kvs := AList.update (fixUpKey (transition_key ?tid)) (enc_Transition t0) (kvs w)\<rparr>"
  note ok = truncateAndPage_ok [OF t p]
  obtain w1 where w1: "run_state (fold_io (store_page e) ps None) ?w = (None, w1)" "quiet w1"
      "kvs w1 = foldl put_page (kvs ?w) ps"
    using run_store_pages [of ?w e ps None] w by auto
  have i: "distinct (map tp_Index ps)" "\<And>p. p \<in> set ps \<Longrightarrow> tp_TransitionID p = ?tid \<and> 0 \<le> tp_Index p"
    using ok(1) unfolding page_ok_def
    by (simp add: distinct_map, metis (no_types, lifting) image_iff list.set_map of_nat_0_le_iff)
  have pages: "pages_of e ?tid (kvs w1) = map page_entry ps"
    unfolding w1(3) using i fresh by (subst pages_of_put_pages) (simp_all add: keys_def)
  have "run_state (StoreTransition e t) w = (None, w1)"
    using w w1(1) by (simp add: StoreTransition_def p run_simps ok(3))
  moreover have "stored_as e ?tid t0 ps (kvs w1)"
    using pages ok by (simp add: stored_as_def w1(3) map_of_put_pages)
  ultimately show ?thesis using w1(2,3) by auto
qed

lemma store_get_run:
  assumes "quiet w" "wf_transition t" "0 < es_PageSize e" "pages_of e (tr_TransitionID t) (kvs w) = []"
    and "truncateAndPageTransitionIfNeeded e t = (t0, ps)"
  shows "\<exists>w'. run_state (do { _ \<leftarrow> StoreTransition e t; GetTransition e (tr_TransitionID t) }) w =
    ((norm_transition (foldl add_page t0 ps),
      if ps = [] then norm_transition t0 else CopyTransition (norm_transition t0), None), w') \<and> quiet w' \<and>
    map_of (kvs w') (fixUpKey (transition_key (tr_TransitionID t))) = Some (enc_Transition t0)"
proof -
  obtain w1 where w1: "run_state (StoreTransition e t) w = (None, w1)" "quiet w1"
    "stored_as e (tr_TransitionID t) t0 ps (kvs w1)"
    using run_StoreTransition_quiet [OF assms] by blast
  from run_GetTransition_quiet [OF w1(2,3)] w1(3) show ?thesis
    by (auto simp: w1(1) stored_as_def)
qed

text \<open>
  C14: without interference, a transition that was stored, in one entry or over several pages,
  is read back complete: every location, task identifier and task result, in order, with the
  messages truncated as the limits ask. The order in which the store returns the pages does
  not matter. It is assumed that no page of the same identifier was left behind and that the
  task pages advance by their own size (\<open>paging_drops_tasks\<close> is about the other case).
\<close>

theorem store_get_roundtrip:
  assumes "quiet w" "wf_transition t" "0 < es_PageSize e"
    and "pages_of e (tr_TransitionID t) (kvs w) = []"
    and "page_size_for e (stored_form e t) = es_PageSize e \<or>
      length (sl (tr_Tasks (stored_form e t))) \<le> page_size_for e (stored_form e t)"
  shows "\<exists>first. fst (run_state (do { _ \<leftarrow> StoreTransition e t; GetTransition e (tr_TransitionID t) }) w) =
    (norm_transition (stored_form e t), first, None)"
proof -
  obtain t0 ps where p: "truncateAndPageTransitionIfNeeded e t = (t0, ps)" by fastforce
  have "0 < page_size_for e (stored_form e t)" using assms(3) by (simp add: page_size_for_def)
  then have "foldl add_page t0 ps = stored_form e t"
    using p assms(5) break_add_pages [of "page_size_for e (stored_form e t)" e "stored_form e t"]
    by (cases rule: truncateAndPage_cases [of e t]) auto
  with store_get_run [OF assms(1-4) p] show ?thesis by auto
qed

text \<open>
  Truncation is idempotent and shortens: truncating a truncated task result changes
  nothing, so a retry that starts from the already truncated slice stores the same document,
  and the two messages together keep at most twice the ellipsis over the limit.
\<close>

lemma truncate_task_idem:
  "fst (truncate_task n (fst (truncate_task n task))) = fst (truncate_task n task)
   \<and> length (ttr_Error (fst (truncate_task n task))) + length (ttr_TaskStatusDesc (fst (truncate_task n task)))
       \<le> n + 6"
  by (auto simp: truncate_task_def Let_def)

lemma copy_differs:
  assumes "sl (tr_Tasks t) \<noteq> [] \<or> sl (tr_Location t) \<noteq> [] \<or> sl (tr_TaskIDs t) \<noteq> []"
  shows "enc_Transition t \<noteq> enc_Transition (CopyTransition (norm_transition t))"
  using assms
  by (auto simp: enc_Transition_def CopyTransition_def norm_transition_def go_copy_def omit_slice_def
      enc_slice_def split: option.splits)

lemma page_zero_nonempty:
  assumes "\<not> fits_one_page t n" "0 < n"
  shows "sl (tr_Tasks (page_zero e t n)) \<noteq> [] \<or> sl (tr_Location (page_zero e t n)) \<noteq> []
    \<or> sl (tr_TaskIDs (page_zero e t n)) \<noteq> []"
proof -
  have ne: "n < length xs \<Longrightarrow> sl (first_page (page_loop stp n xs 0) (Some xs)) \<noteq> []" for stp and xs :: "'a list"
    using assms(2) by (subst page_loop.simps) (auto simp: first_page_def)
  consider ts where "tr_Tasks t = Some ts" "n < length ts" | ls where "tr_Location t = Some ls" "n < length ls"
    | js where "tr_TaskIDs t = Some js" "n < length js"
    using assms(1) by (cases "tr_Tasks t"; cases "tr_Location t"; cases "tr_TaskIDs t") (auto simp: fits_one_page_def not_le)
  then show ?thesis
  proof cases
    case 1
    with ne [of ts] show ?thesis by (simp add: page_zero_def pageTasks_def)
  next
    case 2
    with ne [of ls] show ?thesis by (simp add: page_zero_def pageLocations_def)
  next
    case 3
    with ne [of js] show ?thesis by (simp add: page_zero_def pageTaskIDs_def)
  qed
qed

lemma paged_first_page:
  assumes "0 < es_PageSize e" "truncateAndPageTransitionIfNeeded e t = (t0, ps)" "ps \<noteq> []"
  shows "enc_Transition t0 \<noteq> enc_Transition (CopyTransition (norm_transition t0))"
proof (rule copy_differs)
  let ?n = "page_size_for e (stored_form e t)"
  have n: "0 < ?n" using assms(1) by (simp add: page_size_for_def)
  have b: "breakIntoPagesIfNeeded e (stored_form e t) ?n = (t0, ps)"
    using assms(2,3) by (cases rule: truncateAndPage_cases [of e t]) auto
  then have "\<not> fits_one_page (stored_form e t) ?n" using assms(3) by (auto simp: break_fits)
  with b page_zero_nonempty [OF this n, of e]
  show "sl (tr_Tasks t0) \<noteq> [] \<or> sl (tr_Location t0) \<noteq> [] \<or> sl (tr_TaskIDs t0) \<noteq> []"
    by (simp add: break_paged)
qed

text \<open>
  Once a transition is stored over several pages, the first page that \<open>GetTransition\<close>
  returns is not what the store holds (\<open>CopyTransition\<close> empties its lists), so on etcd a
  test-and-set with it is refused, although nobody else wrote: such a transition can neither
  be aborted nor updated.
\<close>

lemma paged_transition_tas_refused:
  assumes w: "quiet w" "wf_transition t" "0 < es_PageSize e" "pages_of e (tr_TransitionID t) (kvs w) = []"
    and h: "es_kvHandle e = Kvs_etcd"
    and p: "snd (truncateAndPageTransitionIfNeeded e t) \<noteq> []"
    and n: "tr_TransitionID new = tr_TransitionID t"
  shows "fst (fst (run_state (do {
      (cur, firstPage, err) \<leftarrow> do { _ \<leftarrow> StoreTransition e t; GetTransition e (tr_TransitionID t) };
      TASTransition e new firstPage }) w)) = False"
proof -
  obtain t0 ps where t0: "truncateAndPageTransitionIfNeeded e t = (t0, ps)" by fastforce
  obtain u us where u: "truncateAndPageTransitionIfNeeded e new = (u, us)" by fastforce
  let ?first = "CopyTransition (norm_transition t0)"
  obtain w1 where w1: "run_state (do { _ \<leftarrow> StoreTransition e t; GetTransition e (tr_TransitionID t) }) w =
      ((norm_transition (foldl add_page t0 ps), ?first, None), w1)" "quiet w1"
    "map_of (kvs w1) (fixUpKey (transition_key (tr_TransitionID t))) = Some (enc_Transition t0)"
    using store_get_run [OF w t0] p t0 by auto
  have "tas Kvs_etcd (fixUpKey (transition_key (tr_TransitionID new))) (enc_Transition ?first) x (kvs w1)
      = (False, kvs w1)" for x
    using paged_first_page [OF w(3) t0] p t0 w1(3) n by (simp add: tas_def)
  moreover obtain w2 where "run_state (fold_io (store_page e) us None) (tick w1) = (None, w2)"
    using run_store_pages [of "tick w1" e us None] w1(2) by auto
  ultimately have "fst (fst (run_state (TASTransition e new ?first) w1)) = False"
    using w1(2) h by (simp add: TASTransition_def u run_simps tick_def)
  with w1(1) show ?thesis by (auto split: prod.splits)
qed

text \<open>
  A test-and-set of a transition that needs no pages is one atomic step against whatever the
  other writers did before it: it succeeds exactly when the entry then holds the tested
  document, replaces it in that case, and leaves the store alone otherwise.
\<close>

lemma TASTransition_atomic:
  assumes "es_kvHandle e = Kvs_etcd" "w_faults w (ticks w) = None"
    and "truncateAndPageTransitionIfNeeded e new = (new', [])"
    and "m = foldl apply_event (kvs w) (w_peers w (ticks w))"
    and "k = fixUpKey (transition_key (tr_TransitionID new))"
  shows "run_state (TASTransition e new testVal) w =
    ((map_of m k = Some (enc_Transition testVal), None),
     w\<lparr>ticks := Suc (ticks w), kvs := (if map_of m k = Some (enc_Transition testVal)
        then AList.update k (enc_Transition new') m else m)\<rparr>)"
  using assms
  by (auto simp: TASTransition_def kvTAS_def Kvi_TAS_def kv_call_def step_def tas_def split: option.splits)

section \<open>What every storage action keeps\<close>

lemmas storage_defs = Ping_def GetPowerStatusMaster_def StorePowerStatusMaster_def TASPowerStatusMaster_def
  StorePowerStatus_def DeletePowerStatus_def GetPowerStatus_def GetAllPowerStatus_def
  GetPowerStatusHierarchy_def kvRange_def StoreTransition_def store_page_def StoreTransitionTask_def
  GetTransitionPages_def GetTransition_def GetTransitionTask_def GetAllTasksForTransition_def
  GetAllTransitions_def delete_page_def DeleteTransition_def DeleteTransitionTask_def TASTransition_def

context action_inv
begin

lemma keeps_calls [keeps_intro]:
  "keeps P (kvStore e k v)" "keeps P (kvDelete e k)" "keeps P (kvGet e dec k)" "keeps P (kvTAS e k a b)"
  unfolding kvStore_def kvDelete_def kvGet_def kvTAS_def by (intro keeps_intro)+

lemma keeps_storage [keeps_intro]:
  "keeps P (Ping e)" "keeps P (GetPowerStatusMaster e)" "keeps P (StorePowerStatusMaster e tm)"
  "keeps P (TASPowerStatusMaster e tm tm')" "keeps P (StorePowerStatus e p)" "keeps P (DeletePowerStatus e x)"
  "keeps P (GetPowerStatus e x)" "keeps P (GetAllPowerStatus e)" "keeps P (GetPowerStatusHierarchy e x)"
  "keeps P (StoreTransition e t)" "keeps P (StoreTransitionTask e task)" "keeps P (GetTransitionPages e tid)"
  "keeps P (GetTransition e tid)" "keeps P (GetTransitionTask e tid i)" "keeps P (GetAllTasksForTransition e tid)"
  "keeps P (GetAllTransitions e)" "keeps P (DeleteTransition e tid)" "keeps P (DeleteTransitionTask e tid i)"
  "keeps P (TASTransition e t t')"
  unfolding storage_defs Let_def by (intro keeps_intro)+

end

section \<open>Examples\<close>

definition sample_uuid :: "nat \<Rightarrow> uuid" where
  "sample_uuid n = ''0000000'' @ [digit_char (n mod 10)] @ ''-0000-0000-0000-000000000000''"

definition sample_etcd :: ETCDStorage where
  "sample_etcd = \<lparr>es_DisableSizeChecks = False, es_PageSize = 2, es_MaxMessageLen = 5,
     es_MaxEtcdObjectSize = 0, es_kvHandle = Kvs_etcd\<rparr>"

definition sample_transition :: Transition where
  "sample_transition = zero_transition\<lparr>tr_TransitionID := sample_uuid 1,
     tr_Location := Some (map (\<lambda>x. \<lparr>loc_Xname = x, loc_DeputyKey = []\<rparr>)
       [''x0c0s0b0n0'', ''x0c0s1b0n0'', ''x0c0s2b0n0'']),
     tr_TaskIDs := Some [sample_uuid 2, sample_uuid 3, sample_uuid 4]\<rparr>"

definition sample_task :: TransitionTask where
  "sample_task = (NewTransitionTask (sample_uuid 2) (sample_uuid 1) Operation_On)\<lparr>tt_Xname := ''x0c0s0b0n0''\<rparr>"

definition sample_results :: Transition where
  "sample_results = sample_transition\<lparr>tr_Tasks := Some (map (\<lambda>x. \<lparr>ttr_Xname = x, ttr_TaskStatus = ''failed'',
     ttr_TaskStatusDesc = [], ttr_Error = []\<rparr>) [''x0c0s0b0n0'', ''x0c0s1b0n0'', ''x0c0s2b0n0'', ''x0c0s3b0n0''])\<rparr>"

lemma sample_paging:
  "tr_Tasks t = None \<Longrightarrow> stored_form sample_etcd t = t"
  "tr_Tasks t = None \<Longrightarrow> truncateAndPageTransitionIfNeeded sample_etcd t =
     breakIntoPagesIfNeeded sample_etcd t (page_size_for sample_etcd t)"
  by (cases t, simp add: sample_etcd_def stored_form_def truncateAndPageTransitionIfNeeded_def
      truncateTaskMessagesIfNeeded_def Let_def)+

lemma sample_tasks: "tr_Tasks sample_transition = None"
  by (simp add: sample_transition_def zero_transition_def)

lemma sample_facts:
  "wf_transition sample_transition" "wf_task sample_task" "uuid_ok (sample_uuid 1)" "uuid_ok (sample_uuid 3)"
  "snd (truncateAndPageTransitionIfNeeded sample_etcd sample_transition) \<noteq> []"
  "page_size_for sample_etcd (stored_form sample_etcd sample_transition) = es_PageSize sample_etcd"
  "IsHMSCompIDValid ''x0c0s0b0n0''" "\<not> IsHMSCompIDValid ''rack7''"
  unfolding sample_paging [OF sample_tasks] by code_simp+

lemma sample_fresh: "pages_of e u [] = []"
  by (simp add: pages_of_def)

lemma task_store_laws_example:
  "fst (run_state (do { _ \<leftarrow> StoreTransitionTask sample_etcd sample_task;
     GetTransitionTask sample_etcd (tt_TransitionID sample_task) (tt_TaskID sample_task) }) empty_world) = Inr sample_task"
  using task_store_laws [of empty_world sample_task "sample_uuid 1" "sample_uuid 3" sample_etcd] sample_facts
  by (simp add: sample_task_def NewTransitionTask_def sample_uuid_def digit_char_def)

lemma power_status_laws_example:
  "fst (run_state (do { _ \<leftarrow> StorePowerStatus sample_etcd \<lparr>ps_XName = ''x0c0s0b0n0'', ps_PowerState = ''on'',
       ps_ManagementState = ''available'', ps_Error = [], ps_SupportedPowerTransitions = [], ps_LastUpdated = []\<rparr>;
     GetPowerStatus sample_etcd ''x0c0s0b0n0'' }) empty_world) =
   Inr \<lparr>ps_XName = ''x0c0s0b0n0'', ps_PowerState = ''on'', ps_ManagementState = ''available'', ps_Error = [],
       ps_SupportedPowerTransitions = [], ps_LastUpdated = []\<rparr>"
  using power_status_laws [of empty_world "\<lparr>ps_XName = ''x0c0s0b0n0'', ps_PowerState = ''on'',
       ps_ManagementState = ''available'', ps_Error = [], ps_SupportedPowerTransitions = [], ps_LastUpdated = []\<rparr>"
       sample_etcd] sample_facts
  by simp

lemma paging_roundtrip_example:
  "foldl add_page (fst (breakIntoPagesIfNeeded sample_etcd sample_transition 2))
     (snd (breakIntoPagesIfNeeded sample_etcd sample_transition 2)) = sample_transition"
  using paging_roundtrip [of 2 sample_etcd sample_transition "fst (breakIntoPagesIfNeeded sample_etcd sample_transition 2)"
     "snd (breakIntoPagesIfNeeded sample_etcd sample_transition 2)"]
  by (simp add: sample_etcd_def)

theorem paging_drops_tasks_witness:
  "length (sl (tr_Tasks (foldl add_page (fst (breakIntoPagesIfNeeded (sample_etcd\<lparr>es_PageSize := 5\<rparr>) sample_results 3))
     (snd (breakIntoPagesIfNeeded (sample_etcd\<lparr>es_PageSize := 5\<rparr>) sample_results 3))))) < 4"
  using paging_drops_tasks [of sample_results "sample_etcd\<lparr>es_PageSize := 5\<rparr>"
     "fst (breakIntoPagesIfNeeded (sample_etcd\<lparr>es_PageSize := 5\<rparr>) sample_results 3)"
     "snd (breakIntoPagesIfNeeded (sample_etcd\<lparr>es_PageSize := 5\<rparr>) sample_results 3)"]
  by (simp add: sample_results_def sample_transition_def page_size_for_def)

theorem store_get_roundtrip_witness:
  "\<exists>first. fst (run_state (do { _ \<leftarrow> StoreTransition sample_etcd sample_transition;
      GetTransition sample_etcd (tr_TransitionID sample_transition) }) empty_world) =
    (norm_transition (stored_form sample_etcd sample_transition), first, None)"
  by (rule store_get_roundtrip) (simp_all add: sample_facts sample_fresh, simp add: sample_etcd_def)

lemma paged_transition_tas_refused_example:
  "fst (fst (run_state (do {
      (cur, firstPage, err) \<leftarrow> do { _ \<leftarrow> StoreTransition sample_etcd sample_transition;
        GetTransition sample_etcd (tr_TransitionID sample_transition) };
      TASTransition sample_etcd (sample_transition\<lparr>tr_Status := TransitionStatusAbortSignaled\<rparr>) firstPage })
      empty_world)) = False"
  by (rule paged_transition_tas_refused)
    (simp_all add: sample_facts sample_fresh, simp_all add: sample_etcd_def)

lemma TASTransition_atomic_example:
  "run_state (TASTransition (sample_etcd\<lparr>es_DisableSizeChecks := True\<rparr>) sample_transition zero_transition) empty_world =
     ((False, None), empty_world\<lparr>ticks := Suc 0\<rparr>)"
  using TASTransition_atomic [of "sample_etcd\<lparr>es_DisableSizeChecks := True\<rparr>" empty_world sample_transition
      sample_transition "[]" _ zero_transition]
  by (simp add: sample_etcd_def empty_world_def truncateAndPageTransitionIfNeeded_def)

end
