(* ===== verification/Hsm.thy ===== *)
theory Hsm
  imports World Xnames
begin

text \<open>
  The client of the hardware state manager, \<^verbatim>\<open>internal/hsm/state_manager.go\<close> and
  \<^verbatim>\<open>models.go\<close>. The reservation library and the state manager itself are not part of the
  repository's own code: their calls are the fields of the records \<open>ReservationSvc\<close>
  and \<open>HsmHttp\<close>, arguments of the actions here. An action that would dereference a nil
  pointer (an answer about a component that was not asked for) returns \<open>None\<close>. Pointers into
  the caller's slice are component names: the slice is returned updated, and a list of
  pointers is a list of names.
\<close>

section \<open>Data\<close>

record ReservationData =
  rd_XName :: xname
  rd_ReservationOwner :: bool
  rd_ReservationKey :: string
  rd_ExpirationTime :: string
  rd_DeputyKey :: string
  rd_Error :: "err option"
  rd_needRsv :: bool

definition new_reservation :: "xname \<Rightarrow> string \<Rightarrow> string \<Rightarrow> ReservationData" where
  "new_reservation x rkey dkey = \<lparr>rd_XName = x, rd_ReservationOwner = False, rd_ReservationKey = rkey,
     rd_ExpirationTime = [], rd_DeputyKey = dkey, rd_Error = None, rd_needRsv = False\<rparr>"

record PowerCap =
  pc_Name :: string
  pc_Path :: string
  pc_Min :: int
  pc_Max :: int
  pc_PwrCtlIndex :: int

text \<open>The fields of \<open>base.Component\<close> that the service reads.\<close>

record BaseComponent =
  bd_ID :: xname
  bd_Type :: string
  bd_State :: string
  bd_Role :: string
  bd_Class :: string

record HsmData =
  hd_BaseData :: BaseComponent
  hd_RfFQDN :: string
  hd_PowerActionURI :: string
  hd_AllowableActions :: "string list"
  hd_PowerStatusURI :: string
  hd_PowerCapURI :: string
  hd_PowerCapTargetURI :: string
  hd_PowerCapControlsCount :: int
  hd_PowerCapCtlInfoCount :: int
  hd_PowerCaps :: "(string \<times> PowerCap) list"
  hd_PoweredBy :: "xname list"

definition new_hsmdata :: "BaseComponent \<Rightarrow> HsmData" where
  "new_hsmdata b = \<lparr>hd_BaseData = b, hd_RfFQDN = [], hd_PowerActionURI = [], hd_AllowableActions = [],
     hd_PowerStatusURI = [], hd_PowerCapURI = [], hd_PowerCapTargetURI = [],
     hd_PowerCapControlsCount = 0, hd_PowerCapCtlInfoCount = 0, hd_PowerCaps = [], hd_PoweredBy = []\<rparr>"

section \<open>The reservation service\<close>

record RsvGrant =
  gr_ID :: xname
  gr_DeputyKey :: string
  gr_ReservationKey :: string
  gr_ExpirationTime :: string

record 'z ReservationSvc =
  sv_Reacquire :: "(xname \<times> string \<times> string) list \<Rightarrow> ('z, err + xname list) io"
  sv_FlexCheck :: "xname list \<Rightarrow> ('z, RsvGrant list) io"
  sv_ValidateDeputyKeys :: "(xname \<times> string) list \<Rightarrow>
     ('z, err + (xname \<times> string) list \<times> (xname \<times> string) list) io"
  sv_FlexAquire :: "xname list \<Rightarrow> ('z, err + RsvGrant list) io"
  sv_FlexRelease :: "xname list \<Rightarrow> ('z, err + xname list \<times> (xname \<times> string) list) io"

text \<open>\<open>compMap[id].f = v\<close>: the map holds a pointer to the last entry with that name.\<close>

fun upd_first :: "('a \<Rightarrow> bool) \<Rightarrow> ('a \<Rightarrow> 'a) \<Rightarrow> 'a list \<Rightarrow> 'a list option" where
  "upd_first P f [] = None"
| "upd_first P f (x # xs) = (if P x then Some (f x # xs)
     else (case upd_first P f xs of None \<Rightarrow> None | Some ys \<Rightarrow> Some (x # ys)))"

definition upd_comp :: "xname \<Rightarrow> (ReservationData \<Rightarrow> ReservationData) \<Rightarrow> ReservationData list \<Rightarrow> ReservationData list option" where
  "upd_comp i f comps = (case upd_first (\<lambda>r. rd_XName r = i) f (rev comps) of None \<Rightarrow> None | Some ys \<Rightarrow> Some (rev ys))"

fun fold_opt :: "('a \<Rightarrow> 'b \<Rightarrow> 'b option) \<Rightarrow> 'a list \<Rightarrow> 'b \<Rightarrow> 'b option" where
  "fold_opt f [] b = Some b"
| "fold_opt f (x # xs) b = (case f x b of None \<Rightarrow> None | Some b' \<Rightarrow> fold_opt f xs b')"

definition reserve_prepare :: "ReservationData list \<Rightarrow> ReservationData list" where
  "reserve_prepare comps =
     map (\<lambda>r. r\<lparr>rd_needRsv := True, rd_ReservationOwner := False, rd_Error := None\<rparr>) comps"

definition res_keys :: "ReservationData list \<Rightarrow> (xname \<times> string \<times> string) list" where
  "res_keys comps = map (\<lambda>r. (rd_XName r, rd_ReservationKey r, rd_DeputyKey r))
     (filter (\<lambda>r. rd_ReservationKey r \<noteq> []) comps)"

definition dep_keys :: "ReservationData list \<Rightarrow> (xname \<times> string) list" where
  "dep_keys comps = map (\<lambda>r. (rd_XName r, rd_DeputyKey r))
     (filter (\<lambda>r. rd_ReservationKey r = [] \<and> rd_DeputyKey r \<noteq> []) comps)"

definition apply_grant :: "RsvGrant \<Rightarrow> ReservationData list \<times> xname list \<Rightarrow> (ReservationData list \<times> xname list) option" where
  "apply_grant g st = (case st of (comps, ret) \<Rightarrow>
     map_option (\<lambda>comps'. (comps', ret @ [gr_ID g]))
       (upd_comp (gr_ID g) (\<lambda>r. r\<lparr>rd_ReservationOwner := True, rd_needRsv := False,
          rd_ReservationKey := gr_ReservationKey g, rd_DeputyKey := gr_DeputyKey g,
          rd_ExpirationTime := gr_ExpirationTime g\<rparr>) comps))"

definition apply_deputy :: "xname \<times> string \<Rightarrow> ReservationData list \<times> xname list \<Rightarrow> (ReservationData list \<times> xname list) option" where
  "apply_deputy k st = (case st of (comps, ret) \<Rightarrow>
     map_option (\<lambda>comps'. (comps', ret @ [fst k]))
       (upd_comp (fst k) (\<lambda>r. r\<lparr>rd_ReservationOwner := False, rd_ReservationKey := [],
          rd_ExpirationTime := [], rd_needRsv := False\<rparr>) comps))"

text \<open>The three stages of \<open>ReserveComponents\<close>; \<open>Inl\<close> is an early return with an error.\<close>

type_synonym rsv_state = "ReservationData list \<times> xname list"

definition reserve_reacquire :: "('z, 'm) ReservationSvc_scheme \<Rightarrow> (xname \<times> string \<times> string) list \<Rightarrow> rsv_state
    \<Rightarrow> ('z, (err \<times> rsv_state + rsv_state) option) io" where
  "reserve_reacquire sv ks st =
     (if ks = [] then State_Monad.return (Some (Inr st)) else do {
        r \<leftarrow> sv_Reacquire sv ks;
        case r of Inl e \<Rightarrow> State_Monad.return (Some (Inl (''ERROR reacquiring reservations: '' @ e, st)))
        | Inr ids \<Rightarrow>
            if ids = [] then State_Monad.return (Some (Inr st)) else do {
              gs \<leftarrow> sv_FlexCheck sv ids;
              State_Monad.return (map_option Inr (fold_opt apply_grant gs st)) } })"

definition reserve_deputies :: "('z, 'm) ReservationSvc_scheme \<Rightarrow> (xname \<times> string) list \<Rightarrow> rsv_state
    \<Rightarrow> ('z, (err \<times> rsv_state + rsv_state) option) io" where
  "reserve_deputies sv ks st =
     (if ks = [] then State_Monad.return (Some (Inr st)) else do {
        r \<leftarrow> sv_ValidateDeputyKeys sv ks;
        case r of Inl e \<Rightarrow> State_Monad.return (Some (Inl (''ERROR validating deputy keys: '' @ e, st)))
        | Inr (good, bad) \<Rightarrow> State_Monad.return (map_option Inr (fold_opt apply_deputy good st)) })"

text \<open>The keys of \<open>compMap\<close> whose (last) entry still needs a reservation.\<close>

definition needy :: "ReservationData list \<Rightarrow> xname list" where
  "needy comps = filter (\<lambda>x. case find (\<lambda>r. rd_XName r = x) (rev comps) of None \<Rightarrow> False | Some r \<Rightarrow> rd_needRsv r)
     (remdups (map rd_XName comps))"

definition reserve_acquire :: "('z, 'm) ReservationSvc_scheme \<Rightarrow> rsv_state
    \<Rightarrow> ('z, (err \<times> rsv_state + rsv_state) option) io" where
  "reserve_acquire sv st = do {
     aquireList \<leftarrow> range_over (needy (fst st));
     if aquireList = [] then State_Monad.return (Some (Inr st)) else do {
       r \<leftarrow> sv_FlexAquire sv aquireList;
       case r of Inl e \<Rightarrow> State_Monad.return (Some (Inl (''ERROR aquiring needed reservations: '' @ e, st)))
       | Inr gs \<Rightarrow> State_Monad.return (map_option Inr (fold_opt apply_grant gs st)) } }"

definition then_stage :: "('z, (err \<times> rsv_state + rsv_state) option) io \<Rightarrow>
    (rsv_state \<Rightarrow> ('z, (err \<times> rsv_state + rsv_state) option) io) \<Rightarrow> ('z, (err \<times> rsv_state + rsv_state) option) io" where
  "then_stage m f = do { r \<leftarrow> m;
     case r of None \<Rightarrow> State_Monad.return None
     | Some (Inl e) \<Rightarrow> State_Monad.return (Some (Inl e))
     | Some (Inr st) \<Rightarrow> f st }"

definition ReserveComponents :: "bool \<Rightarrow> ('z, 'm) ReservationSvc_scheme \<Rightarrow> ReservationData list
    \<Rightarrow> ('z, (err \<times> rsv_state + rsv_state) option) io" where
  "ReserveComponents lockEnabled sv compList =
     (if \<not> lockEnabled \<or> compList = [] then State_Monad.return (Some (Inr (compList, [])))
      else let comps = reserve_prepare compList in
        then_stage (reserve_reacquire sv (res_keys comps) (comps, []))
          (\<lambda>st. then_stage (reserve_deputies sv (dep_keys comps) st) (reserve_acquire sv)))"

definition CheckDeputyKeys :: "('z, 'm) ReservationSvc_scheme \<Rightarrow> ReservationData list
    \<Rightarrow> ('z, (ReservationData list \<times> err option) option) io" where
  "CheckDeputyKeys sv compList =
     (let comps = map (\<lambda>r. r\<lparr>rd_Error := None\<rparr>) compList;
          keyList = map (\<lambda>r. (rd_XName r, rd_DeputyKey r)) (filter (\<lambda>r. rd_DeputyKey r \<noteq> []) compList) in
      if keyList = [] then State_Monad.return (Some (comps, None))
      else do {
        r \<leftarrow> sv_ValidateDeputyKeys sv keyList;
        case r of Inl e \<Rightarrow> State_Monad.return (Some (comps, Some (''Error in deputy key check: '' @ e)))
        | Inr (good, bad) \<Rightarrow> State_Monad.return (do {
            c1 \<leftarrow> fold_opt (\<lambda>(i, ex). upd_comp i (\<lambda>r. r\<lparr>rd_ExpirationTime := ex, rd_Error := None\<rparr>)) good comps;
            c2 \<leftarrow> fold_opt (\<lambda>(i, why). upd_comp i (\<lambda>r. r\<lparr>rd_Error := Some why\<rparr>)) bad c1;
            Some (c2, None) }) })"

definition ReleaseComponents :: "bool \<Rightarrow> ('z, 'm) ReservationSvc_scheme \<Rightarrow> ReservationData list
    \<Rightarrow> ('z, (ReservationData list \<times> xname list \<times> err option) option) io" where
  "ReleaseComponents lockEnabled sv compList =
     (if \<not> lockEnabled then State_Monad.return (Some (compList, [], None))
      else let clearList = map rd_XName (filter rd_ReservationOwner compList) in
      if clearList = [] then State_Monad.return (Some (compList, [], None))
      else do {
        r \<leftarrow> sv_FlexRelease sv clearList;
        case r of Inl e \<Rightarrow> State_Monad.return (Some (compList, [], Some (''ERROR releasing reservations: '' @ e)))
        | Inr (good, bad) \<Rightarrow> State_Monad.return (do {
            c1 \<leftarrow> fold_opt (\<lambda>i. upd_comp i (\<lambda>r. r\<lparr>rd_ReservationOwner := False, rd_ReservationKey := [],
                  rd_ExpirationTime := [], rd_DeputyKey := [], rd_Error := None\<rparr>)) good compList;
            c2 \<leftarrow> fold_opt (\<lambda>(i, why). upd_comp i (\<lambda>r. r\<lparr>rd_Error := Some why\<rparr>)) bad c1;
            Some (c2, map fst bad, None) }) })"

section \<open>Inventory\<close>

text \<open>
  What the state manager's answers are decoded into, as far as the service reads it. A call
  fails in the request, in reading the body or in decoding it.
\<close>

datatype 'a http = Http_Fail err | Http_Unread err | Http_Garbled err | Http_Ok 'a

record ResetAction =
  ra_Target :: string
  ra_AllowableValues :: "string list"

record RfControl =
  ctl_Name :: string
  ctl_URL :: string
  ctl_SettingRangeMin :: int
  ctl_SettingRangeMax :: int

record OemLimit =
  oem_Target :: string
  oem_Min :: int
  oem_Max :: int

record RfPowerCtl =
  pwr_Name :: string
  pwr_Oid :: string
  pwr_Cray :: "OemLimit option"
  pwr_HPE :: "OemLimit option"

record RfSystemInfo =
  sys_Actions :: "ResetAction option"
  sys_PowerURL :: string
  sys_Controls :: "RfControl list"
  sys_PowerCtl :: "RfPowerCtl list"

datatype EndpointInfo = EP_Chassis "ResetAction option option" | EP_System "RfSystemInfo option"
  | EP_Manager "ResetAction option option" | EP_PDU | EP_Outlet "ResetAction option option" | EP_Other

record ComponentEndpoint =
  ep_ID :: xname
  ep_FQDN :: string
  ep_OdataID :: string
  ep_Info :: EndpointInfo

record PowerMap =
  pm_ID :: xname
  pm_PoweredBy :: "xname list"

record 'z HsmHttp =
  ht_query :: "xname list \<Rightarrow> ('z, BaseComponent list http) io"
  ht_endpoints :: "string \<Rightarrow> ('z, ComponentEndpoint list http) io"
  ht_powermaps :: "('z, PowerMap list http) io"

type_synonym hsm_map = "(xname \<times> HsmData) list"

definition control_caps :: "RfControl list \<Rightarrow> (string \<times> PowerCap) list" where
  "control_caps ctls = foldl (\<lambda>m (i, ctl). AList.update (ctl_Name ctl)
     \<lparr>pc_Name = ctl_Name ctl, pc_Path = ctl_URL ctl, pc_Min = ctl_SettingRangeMin ctl,
      pc_Max = ctl_SettingRangeMax ctl, pc_PwrCtlIndex = int i\<rparr> m) [] (enumerate 0 ctls)"

definition strip_fragment :: "string \<Rightarrow> string" where
  "strip_fragment oid = takeWhile (\<lambda>c. c \<noteq> CHR ''#'') oid"

definition power_ctl_cap :: "string \<Rightarrow> bool \<Rightarrow> nat \<Rightarrow> RfPowerCtl \<Rightarrow> PowerCap" where
  "power_ctl_cap powerURL isHpe i ctl =
     (let name = (if isHpe then ''Node Power Limit'' else pwr_Name ctl);
          (mn, mx) = (case pwr_Cray ctl of Some c \<Rightarrow> (oem_Min c, oem_Max c)
            | None \<Rightarrow> (case pwr_HPE ctl of Some h \<Rightarrow> (oem_Min h, oem_Max h) | None \<Rightarrow> (-1, -1)));
          path = strip_fragment (pwr_Oid ctl)
      in \<lparr>pc_Name = name, pc_Path = (if path = [] then powerURL else path), pc_Min = mn, pc_Max = mx,
          pc_PwrCtlIndex = int i\<rparr>)"

definition extractPowerCapInfo :: "HsmData \<Rightarrow> RfSystemInfo \<Rightarrow> HsmData" where
  "extractPowerCapInfo cd info =
     (let cd1 = cd\<lparr>hd_PowerCapURI := sys_PowerURL info,
            hd_PowerCapControlsCount := int (length (sys_Controls info)),
            hd_PowerCapCtlInfoCount := int (length (sys_PowerCtl info))\<rparr> in
      if sys_Controls info \<noteq> [] then cd1\<lparr>hd_PowerCaps := control_caps (sys_Controls info)\<rparr>
      else case sys_PowerCtl info of [] \<Rightarrow> cd1
      | first # _ \<Rightarrow>
          let cd2 = (case pwr_HPE first of Some h \<Rightarrow>
                if oem_Target h \<noteq> [] then cd1\<lparr>hd_PowerCapTargetURI := oem_Target h\<rparr> else cd1
              | None \<Rightarrow> cd1);
              isHpe = (str_contains (sys_PowerURL info) ''AccPowerService/PowerLimit''
                \<or> str_contains (sys_PowerURL info) ''Chassis/1/Power'')
          in cd2\<lparr>hd_PowerCaps := foldl (\<lambda>m (i, ctl).
               let pc = power_ctl_cap (sys_PowerURL info) isHpe i ctl in AList.update (pc_Name pc) pc m)
               [] (enumerate 0 (sys_PowerCtl info))\<rparr>)"

definition set_action :: "ResetAction option \<Rightarrow> HsmData \<Rightarrow> HsmData" where
  "set_action a h = (case a of None \<Rightarrow> h
     | Some ra \<Rightarrow> h\<lparr>hd_PowerActionURI := ra_Target ra, hd_AllowableActions := ra_AllowableValues ra\<rparr>)"

definition fill_endpoint :: "ComponentEndpoint \<Rightarrow> HsmData \<Rightarrow> HsmData" where
  "fill_endpoint ep h =
     (let h1 = h\<lparr>hd_RfFQDN := ep_FQDN ep, hd_PowerStatusURI := ep_OdataID ep\<rparr> in
      case ep_Info ep of
        EP_Chassis i \<Rightarrow> (case i of None \<Rightarrow> h1 | Some a \<Rightarrow> set_action a h1)
      | EP_System i \<Rightarrow> (case i of None \<Rightarrow> h1 | Some si \<Rightarrow> extractPowerCapInfo (set_action (sys_Actions si) h1) si)
      | EP_Manager i \<Rightarrow> (case i of None \<Rightarrow> h1 | Some a \<Rightarrow> set_action a h1)
      | EP_PDU \<Rightarrow> h1
      | EP_Outlet i \<Rightarrow> (case i of None \<Rightarrow> h1 | Some a \<Rightarrow> set_action a h1)
      | EP_Other \<Rightarrow> h)"

definition fill_endpoints :: "ComponentEndpoint list \<Rightarrow> hsm_map \<Rightarrow> hsm_map" where
  "fill_endpoints eps hd0 = foldl (\<lambda>m ep. case map_of m (ep_ID ep) of None \<Rightarrow> m
     | Some h \<Rightarrow> AList.update (ep_ID ep) (fill_endpoint ep h) m) hd0 eps"

text \<open>The names in groups of \<open>MaxComponentQuery\<close>, which \<open>Init\<close> makes positive.\<close>

function query_groups :: "nat \<Rightarrow> 'a list \<Rightarrow> 'a list list" where
  "query_groups n xs = (if xs = [] \<or> n = 0 then [] else take n xs # query_groups n (drop n xs))"
  by pat_completeness auto
termination
  by (relation "measure (\<lambda>(n, xs). length xs)") auto

declare query_groups.simps [simp del]

definition endpoint_url :: "string \<Rightarrow> xname list \<Rightarrow> string" where
  "endpoint_url smurl ids = smurl @ ''/hsm/v2/Inventory/ComponentEndpoints?'' @
     dropWhile (\<lambda>c. c = CHR ''&'') (concat (map (\<lambda>x. ''&id='' @ x) ids))"

definition http_error :: "string \<Rightarrow> 'a http \<Rightarrow> err + 'a" where
  "http_error url r = (let q = [CHR 0x27] @ url @ [CHR 0x27] @ '': '' in case r of
     Http_Fail e \<Rightarrow> Inl (''Error in http request '' @ q @ e)
   | Http_Unread e \<Rightarrow> Inl (''Error reading response body for '' @ q @ e)
   | Http_Garbled e \<Rightarrow> Inl (''Error unmarshalling response body for '' @ q @ e)
   | Http_Ok a \<Rightarrow> Inr a)"

fun fill_groups :: "('z, 'm) HsmHttp_scheme \<Rightarrow> string \<Rightarrow> xname list list \<Rightarrow> hsm_map \<Rightarrow> ('z, hsm_map \<times> err option) io" where
  "fill_groups ht smurl [] m = State_Monad.return (m, None)"
| "fill_groups ht smurl (ids # rest) m = do {
     r \<leftarrow> ht_endpoints ht (endpoint_url smurl ids);
     case http_error (endpoint_url smurl ids) r of
       Inl e \<Rightarrow> State_Monad.return (m, Some e)
     | Inr eps \<Rightarrow> fill_groups ht smurl rest (fill_endpoints eps m) }"

definition FillComponentEndpointData :: "('z, 'm) HsmHttp_scheme \<Rightarrow> string \<Rightarrow> nat \<Rightarrow> hsm_map \<Rightarrow> ('z, hsm_map \<times> err option) io" where
  "FillComponentEndpointData ht smurl maxQuery m = do {
     xs \<leftarrow> range_over (map (\<lambda>(k, h). bd_ID (hd_BaseData h)) m);
     fill_groups ht smurl (query_groups maxQuery xs) m }"

definition GetStateComponents :: "('z, 'm) HsmHttp_scheme \<Rightarrow> string \<Rightarrow> xname list \<Rightarrow> ('z, err + BaseComponent list) io" where
  "GetStateComponents ht smurl xnames = do {
     r \<leftarrow> ht_query ht xnames;
     State_Monad.return (http_error (smurl @ ''/hsm/v2/State/Components/Query'') r) }"

definition FillPowerMapData :: "('z, 'm) HsmHttp_scheme \<Rightarrow> string \<Rightarrow> hsm_map \<Rightarrow> ('z, hsm_map \<times> err option) io" where
  "FillPowerMapData ht smurl m = do {
     r \<leftarrow> ht_powermaps ht;
     State_Monad.return (case http_error (smurl @ ''/hsm/v2/sysinfo/powermaps'') r of
       Inl e \<Rightarrow> (m, Some e)
     | Inr pms \<Rightarrow> (foldl (\<lambda>m pm. case map_of m (pm_ID pm) of None \<Rightarrow> m
         | Some h \<Rightarrow> AList.update (pm_ID pm) (h\<lparr>hd_PoweredBy := pm_PoweredBy pm\<rparr>) m) m pms, None)) }"

definition FillHSMData :: "('z, 'm) HsmHttp_scheme \<Rightarrow> string \<Rightarrow> nat \<Rightarrow> xname list \<Rightarrow> ('z, hsm_map \<times> err option) io" where
  "FillHSMData ht smurl maxQuery xnames = do {
     r \<leftarrow> GetStateComponents ht smurl xnames;
     case r of Inl e \<Rightarrow> State_Monad.return ([], Some (''ERROR fetching State/Component data from HSM: '' @ e))
     | Inr cs \<Rightarrow> do {
         let m = foldl (\<lambda>m c. AList.update (bd_ID c) (new_hsmdata c) m) [] cs;
         (m', err) \<leftarrow> FillComponentEndpointData ht smurl maxQuery m;
         State_Monad.return (m', map_option (\<lambda>e. ''ERROR fetching Inventory/ComponentEndpoints data from HSM: '' @ e) err) } }"

section \<open>Properties of the inventory queries\<close>

lemma query_groups_more: "xs \<noteq> [] \<Longrightarrow> 0 < n \<Longrightarrow> query_groups n xs = take n xs # query_groups n (drop n xs)"
  by (subst query_groups.simps) simp

lemma query_groups_Nil [simp]: "query_groups n [] = []"
  by (subst query_groups.simps) simp

text \<open>
  The inventory query asks for every component exactly once, in groups that are never
  empty and never exceed \<open>MaxComponentQuery\<close>.
\<close>

lemma query_groups_partition:
  assumes "0 < n"
  shows "concat (query_groups n xs) = xs \<and> (\<forall>g \<in> set (query_groups n xs). g \<noteq> [] \<and> length g \<le> n)"
  using assms
proof (induction n xs rule: query_groups.induct)
  case (1 n xs)
  show ?case
  proof (cases "xs = [] \<or> n = 0")
    case True
    with "1.prems" show ?thesis by auto
  next
    case False
    then have "query_groups n xs = take n xs # query_groups n (drop n xs)"
      by (intro query_groups_more) auto
    with "1.IH" [OF False "1.prems"] False show ?thesis by simp
  qed
qed

lemma keys_alist_update_in: "k \<in> set (keys m) \<Longrightarrow> keys (AList.update k v m) = keys m"
  by (induction m) (auto simp: keys_def)

lemma keys_fill_endpoints [simp]: "keys (fill_endpoints eps m) = keys m"
proof -
  have "keys (case map_of m (ep_ID ep) of None \<Rightarrow> m
      | Some h \<Rightarrow> AList.update (ep_ID ep) (fill_endpoint ep h) m) = keys m" for m ep
    by (auto simp: in_keys_iff keys_alist_update_in split: option.splits)
  then show ?thesis
    unfolding fill_endpoints_def by (induction eps arbitrary: m) auto
qed

section \<open>Properties of reservations\<close>

lemma upd_first_None: "upd_first P f xs = None \<longleftrightarrow> \<not> list_ex P xs"
  by (induction xs) (auto split: option.splits)

lemma upd_first_Some:
  assumes "distinct (map g xs)" "upd_first (\<lambda>x. g x = i) f xs = Some ys"
  shows "ys = map (\<lambda>x. if g x = i then f x else x) xs"
  using assms
proof (induction xs arbitrary: ys)
  case (Cons x xs)
  have "i \<notin> g ` set xs \<Longrightarrow> map (\<lambda>x. if g x = i then f x else x) xs = xs"
    by (rule map_idI) auto
  with Cons show ?case by (auto split: if_splits option.splits)
qed simp

lemma upd_comp_Some:
  assumes "distinct (map rd_XName comps)" "upd_comp i f comps = Some comps'"
  shows "i \<in> rd_XName ` set comps \<and> comps' = map (\<lambda>r. if rd_XName r = i then f r else r) comps"
proof -
  obtain ys where ys: "upd_first (\<lambda>r. rd_XName r = i) f (rev comps) = Some ys" "comps' = rev ys"
    using assms(2) by (auto simp: upd_comp_def split: option.splits)
  then have "ys = map (\<lambda>r. if rd_XName r = i then f r else r) (rev comps)"
    using assms(1) by (intro upd_first_Some) (simp_all add: rev_map [symmetric])
  moreover have "list_ex (\<lambda>r. rd_XName r = i) (rev comps)"
    using ys(1) upd_first_None by (metis option.distinct(1))
  ultimately show ?thesis using ys(2) by (auto simp: rev_map list_ex_iff)
qed

lemma upd_comp_None: "upd_comp i f comps = None \<longleftrightarrow> i \<notin> rd_XName ` set comps"
proof -
  have "upd_comp i f comps = None \<longleftrightarrow> upd_first (\<lambda>r. rd_XName r = i) f (rev comps) = None"
    by (simp add: upd_comp_def split: option.splits)
  also have "\<dots> \<longleftrightarrow> i \<notin> rd_XName ` set comps"
    by (auto simp: upd_first_None list_ex_iff)
  finally show ?thesis .
qed

definition rsv_inv :: "xname list \<Rightarrow> rsv_state \<Rightarrow> bool" where
  "rsv_inv names st \<longleftrightarrow> map rd_XName (fst st) = names \<and> set (snd st) \<subseteq> set names \<and>
     (\<forall>r \<in> set (fst st). (rd_XName r \<in> set (snd st) \<longleftrightarrow> \<not> rd_needRsv r) \<and>
       (rd_ReservationOwner r \<longrightarrow> rd_XName r \<in> set (snd st)))"

lemma rsv_inv_mark:
  assumes "distinct names" "rsv_inv names (comps, ret)" "upd_comp i f comps = Some comps'"
    and f: "\<And>r. rd_XName (f r) = rd_XName r" "\<And>r. \<not> rd_needRsv (f r)"
  shows "rsv_inv names (comps', ret @ [i])"
proof -
  have "distinct (map rd_XName comps)" using assms(1,2) by (simp add: rsv_inv_def)
  from upd_comp_Some [OF this assms(3)]
  have c: "i \<in> rd_XName ` set comps" "comps' = map (\<lambda>r. if rd_XName r = i then f r else r) comps" by auto
  have "map rd_XName comps' = map rd_XName comps" by (simp add: c(2) f(1))
  with assms(2) c f show ?thesis by (auto simp: rsv_inv_def)
qed

lemma fold_opt_inv:
  assumes "\<And>x b b'. P b \<Longrightarrow> f x b = Some b' \<Longrightarrow> P b'" "P b" "fold_opt f xs b = Some b'"
  shows "P b'"
  using assms(2,3) by (induction xs arbitrary: b) (auto split: option.splits intro: assms(1))

lemma fold_grant_inv:
  "distinct names \<Longrightarrow> rsv_inv names st \<Longrightarrow> fold_opt apply_grant gs st = Some st' \<Longrightarrow> rsv_inv names st'"
  by (rule fold_opt_inv [where P = "rsv_inv names" and f = apply_grant])
    (auto simp: apply_grant_def split: prod.splits intro!: rsv_inv_mark)

lemma fold_deputy_inv:
  "distinct names \<Longrightarrow> rsv_inv names st \<Longrightarrow> fold_opt apply_deputy ks st = Some st' \<Longrightarrow> rsv_inv names st'"
  by (rule fold_opt_inv [where P = "rsv_inv names" and f = apply_deputy])
    (auto simp: apply_deputy_def split: prod.splits intro!: rsv_inv_mark)

lemma reserve_prepare_inv: "rsv_inv (map rd_XName comps) (reserve_prepare comps, [])"
  by (auto simp: rsv_inv_def reserve_prepare_def)

lemma stages_inv:
  assumes "distinct names" "rsv_inv names st"
  shows "run_state (reserve_reacquire sv ks st) w = (Some (Inr st'), w') \<Longrightarrow> rsv_inv names st'"
    and "run_state (reserve_deputies sv ds st) w = (Some (Inr st'), w') \<Longrightarrow> rsv_inv names st'"
    and "run_state (reserve_acquire sv st) w = (Some (Inr st'), w') \<Longrightarrow> rsv_inv names st'"
  using assms
  by (auto simp: reserve_reacquire_def reserve_deputies_def reserve_acquire_def
      split: if_splits prod.splits sum.splits intro: fold_grant_inv fold_deputy_inv)

lemma then_stage_Inr:
  "run_state (then_stage m f) w = (Some (Inr st'), w') \<Longrightarrow>
   \<exists>st w1. run_state m w = (Some (Inr st), w1) \<and> run_state (f st) w1 = (Some (Inr st'), w')"
  by (auto simp: then_stage_def split: prod.splits option.splits sum.splits)


text \<open>The documented behaviour of the reservation library: it answers about what it was asked.\<close>

definition answers_asked :: "('z, 'm) ReservationSvc_scheme \<Rightarrow> bool" where
  "answers_asked sv \<longleftrightarrow>
     (\<forall>ks w ids. fst (run_state (sv_Reacquire sv ks) w) = Inr ids \<longrightarrow> set ids \<subseteq> fst ` set ks) \<and>
     (\<forall>ids w. gr_ID ` set (fst (run_state (sv_FlexCheck sv ids) w)) \<subseteq> set ids) \<and>
     (\<forall>ks w good bad. fst (run_state (sv_ValidateDeputyKeys sv ks) w) = Inr (good, bad) \<longrightarrow>
        fst ` (set good \<union> set bad) \<subseteq> fst ` set ks) \<and>
     (\<forall>ids w gs. fst (run_state (sv_FlexAquire sv ids) w) = Inr gs \<longrightarrow> gr_ID ` set gs \<subseteq> set ids) \<and>
     (\<forall>ids w good bad. fst (run_state (sv_FlexRelease sv ids) w) = Inr (good, bad) \<longrightarrow>
        set good \<union> fst ` set bad \<subseteq> set ids)"

lemma upd_first_names:
  "(\<And>r. g (f r) = g r) \<Longrightarrow> upd_first P f xs = Some ys \<Longrightarrow> map g ys = map g xs"
  by (induction xs arbitrary: ys) (auto split: if_splits option.splits)

lemma upd_comp_names:
  "(\<And>r. rd_XName (f r) = rd_XName r) \<Longrightarrow> upd_comp i f comps = Some comps' \<Longrightarrow> map rd_XName comps' = map rd_XName comps"
  by (auto simp: upd_comp_def rev_map [symmetric] dest: upd_first_names split: option.splits)

text \<open>A fold over answers about known components never meets a nil pointer and keeps the names.\<close>

definition upd_all :: "('k \<Rightarrow> xname) \<Rightarrow> ('k \<Rightarrow> ReservationData \<Rightarrow> ReservationData) \<Rightarrow> 'k list \<Rightarrow> ReservationData list
    \<Rightarrow> ReservationData list option" where
  "upd_all i f ks comps = fold_opt (\<lambda>k. upd_comp (i k) (f k)) ks comps"

lemma upd_all_known:
  assumes "\<And>k r. rd_XName (f k r) = rd_XName r" "i ` set ks \<subseteq> set (map rd_XName comps)"
  shows "\<exists>comps'. upd_all i f ks comps = Some comps' \<and> map rd_XName comps' = map rd_XName comps"
  using assms(2)
proof (induction ks arbitrary: comps)
  case (Cons k ks)
  then obtain c1 where c1: "upd_comp (i k) (f k) comps = Some c1"
    by (cases "upd_comp (i k) (f k) comps") (auto simp: upd_comp_None)
  with assms(1) have n: "map rd_XName c1 = map rd_XName comps" by (intro upd_comp_names) auto
  with Cons.prems have "i ` set ks \<subseteq> set (map rd_XName c1)" by simp
  from Cons.IH [OF this] n c1 show ?case by (simp add: upd_all_def)
qed (simp add: upd_all_def)

lemma fold_grant_upd_all:
  "fold_opt apply_grant gs (comps, ret) = map_option (\<lambda>c. (c, ret @ map gr_ID gs))
     (upd_all gr_ID (\<lambda>g r. r\<lparr>rd_ReservationOwner := True, rd_needRsv := False,
          rd_ReservationKey := gr_ReservationKey g, rd_DeputyKey := gr_DeputyKey g,
          rd_ExpirationTime := gr_ExpirationTime g\<rparr>) gs comps)"
  by (induction gs arbitrary: comps ret) (auto simp: apply_grant_def upd_all_def split: option.splits)

lemma fold_deputy_upd_all:
  "fold_opt apply_deputy ks (comps, ret) = map_option (\<lambda>c. (c, ret @ map fst ks))
     (upd_all fst (\<lambda>k r. r\<lparr>rd_ReservationOwner := False, rd_ReservationKey := [],
          rd_ExpirationTime := [], rd_needRsv := False\<rparr>) ks comps)"
  by (induction ks arbitrary: comps ret) (auto simp: apply_deputy_def upd_all_def split: option.splits)

definition safe_stage :: "xname list \<Rightarrow> (err \<times> rsv_state + rsv_state) option \<Rightarrow> bool" where
  "safe_stage names r \<longleftrightarrow> (case r of None \<Rightarrow> False | Some (Inl _) \<Rightarrow> True | Some (Inr st) \<Rightarrow> map rd_XName (fst st) = names)"

lemma fold_grant_safe:
  assumes "map rd_XName (fst st) = names" "gr_ID ` set gs \<subseteq> set names"
  shows "safe_stage names (map_option Inr (fold_opt apply_grant gs st))"
proof -
  let ?f = "\<lambda>g r. r\<lparr>rd_ReservationOwner := True, rd_needRsv := False,
    rd_ReservationKey := gr_ReservationKey g, rd_DeputyKey := gr_DeputyKey g,
    rd_ExpirationTime := gr_ExpirationTime g\<rparr>"
  have "\<exists>c'. upd_all gr_ID ?f gs (fst st) = Some c' \<and> map rd_XName c' = map rd_XName (fst st)"
    using assms by (intro upd_all_known) auto
  then show ?thesis
    using assms(1) fold_grant_upd_all [of gs "fst st" "snd st"] by (auto simp: safe_stage_def)
qed

lemma fold_deputy_safe:
  assumes "map rd_XName (fst st) = names" "fst ` set ks \<subseteq> set names"
  shows "safe_stage names (map_option Inr (fold_opt apply_deputy ks st))"
proof -
  let ?f = "\<lambda>k r. r\<lparr>rd_ReservationOwner := False, rd_ReservationKey := [],
          rd_ExpirationTime := [], rd_needRsv := False\<rparr>"
  have "\<exists>c'. upd_all fst ?f ks (fst st) = Some c' \<and> map rd_XName c' = map rd_XName (fst st)"
    using assms by (intro upd_all_known) auto
  then show ?thesis
    using assms(1) fold_deputy_upd_all [of ks "fst st" "snd st"] by (auto simp: safe_stage_def)
qed

lemma safe_then_stage:
  assumes "safe_stage names (fst (run_state m w))"
    and "\<And>st w. map rd_XName (fst st) = names \<Longrightarrow> safe_stage names (fst (run_state (f st) w))"
  shows "safe_stage names (fst (run_state (then_stage m f) w))"
proof (cases "run_state m w")
  case (Pair r w1)
  with assms(1) consider e where "r = Some (Inl e)" | st where "r = Some (Inr st)" "map rd_XName (fst st) = names"
    by (auto simp: safe_stage_def split: option.splits sum.splits)
  then show ?thesis
  proof cases
    case 1
    with Pair show ?thesis by (simp add: then_stage_def safe_stage_def)
  next
    case 2
    with Pair assms(2) [of st w1] show ?thesis by (simp add: then_stage_def)
  qed
qed

lemma safe_stage_not_None: "safe_stage names r \<Longrightarrow> r \<noteq> None"
  by (cases r) (simp_all add: safe_stage_def)

lemma reacquire_safe:
  assumes "answers_asked sv" "map rd_XName (fst st) = names" "fst ` set ks \<subseteq> set names"
  shows "safe_stage names (fst (run_state (reserve_reacquire sv ks st) w))"
proof (cases "run_state (sv_Reacquire sv ks) w")
  case (Pair r w1)
  show ?thesis
  proof (cases r)
    case (Inr ids)
    with assms Pair have "set ids \<subseteq> set names" unfolding answers_asked_def by (metis fst_conv subset_trans)
    moreover have "gr_ID ` set (fst (run_state (sv_FlexCheck sv ids) w1)) \<subseteq> set ids"
      using assms(1) by (simp add: answers_asked_def)
    ultimately have "safe_stage names (map_option Inr (fold_opt apply_grant (fst (run_state (sv_FlexCheck sv ids) w1)) st))"
      using assms(2) by (intro fold_grant_safe) auto
    with Pair Inr assms(2) show ?thesis
      by (auto simp: reserve_reacquire_def safe_stage_def split: prod.splits)
  qed (use Pair assms(2) in \<open>auto simp: reserve_reacquire_def safe_stage_def\<close>)
qed

lemma deputies_safe:
  assumes "answers_asked sv" "map rd_XName (fst st) = names" "fst ` set ks \<subseteq> set names"
  shows "safe_stage names (fst (run_state (reserve_deputies sv ks st) w))"
proof (cases "run_state (sv_ValidateDeputyKeys sv ks) w")
  case (Pair r w1)
  show ?thesis
  proof (cases r)
    case (Inr gb)
    obtain good bad where gb: "gb = (good, bad)" by fastforce
    with Inr Pair assms have "fst ` (set good \<union> set bad) \<subseteq> fst ` set ks"
      unfolding answers_asked_def by (metis fst_conv)
    with assms(3) have "fst ` set good \<subseteq> set names" by blast
    with assms(2) have "safe_stage names (map_option Inr (fold_opt apply_deputy good st))"
      by (rule fold_deputy_safe)
    with Pair Inr gb assms(2) show ?thesis by (auto simp: reserve_deputies_def safe_stage_def)
  qed (use Pair assms(2) in \<open>auto simp: reserve_deputies_def safe_stage_def\<close>)
qed

lemma acquire_safe:
  assumes "answers_asked sv" "map rd_XName (fst st) = names"
  shows "safe_stage names (fst (run_state (reserve_acquire sv st) w))"
proof -
  obtain l w1 where l: "run_state (range_over (needy (fst st))) w = (l, w1)" by fastforce
  then have "set l = set (needy (fst st))" by (auto simp: range_over_def step_def)
  then have ln: "set l \<subseteq> set names" using assms(2) by (auto simp: needy_def)
  obtain r w2 where r: "run_state (sv_FlexAquire sv l) w1 = (r, w2)" by fastforce
  show ?thesis
  proof (cases r)
    case (Inr gs)
    with r assms(1) have "gr_ID ` set gs \<subseteq> set l" unfolding answers_asked_def by (metis fst_conv)
    with ln assms(2) have "safe_stage names (map_option Inr (fold_opt apply_grant gs st))"
      by (intro fold_grant_safe) auto
    with l r Inr assms(2) show ?thesis by (auto simp: reserve_acquire_def safe_stage_def)
  qed (use l r assms(2) in \<open>auto simp: reserve_acquire_def safe_stage_def\<close>)
qed

text \<open>
  If the reservation library answers only about components it was asked about,
  \<open>ReserveComponents\<close> never dereferences a nil pointer, in every world and for every slice, and
  the slice that it updates keeps its names.
\<close>

lemma ReserveComponents_safe:
  assumes "answers_asked sv"
  shows "safe_stage (map rd_XName compList) (fst (run_state (ReserveComponents lockEnabled sv compList) w))"
proof -
  let ?c = "reserve_prepare compList" and ?names = "map rd_XName compList"
  have n: "map rd_XName ?c = ?names" by (simp add: reserve_prepare_def)
  have k: "fst ` set (res_keys ?c) \<subseteq> set ?names" "fst ` set (dep_keys ?c) \<subseteq> set ?names"
    unfolding n [symmetric] by (auto simp: res_keys_def dep_keys_def)
  have "safe_stage ?names (fst (run_state (then_stage (reserve_reacquire sv (res_keys ?c) (?c, []))
      (\<lambda>st. then_stage (reserve_deputies sv (dep_keys ?c) st) (reserve_acquire sv))) w))"
    using assms n k by (intro safe_then_stage reacquire_safe deputies_safe acquire_safe) auto
  then show ?thesis by (simp add: ReserveComponents_def Let_def safe_stage_def)
qed

lemma ReserveComponents_no_panic:
  assumes "answers_asked sv"
  shows "fst (run_state (ReserveComponents lockEnabled sv compList) w) \<noteq> None"
  by (rule safe_stage_not_None [OF ReserveComponents_safe [OF assms]])

definition granting_svc :: "('z) ReservationSvc" where
  "granting_svc = \<lparr>sv_Reacquire = (\<lambda>ks. State_Monad.return (Inr (map fst ks))),
     sv_FlexCheck = (\<lambda>ids. State_Monad.return (map (\<lambda>i. \<lparr>gr_ID = i, gr_DeputyKey = ''d'', gr_ReservationKey = ''r'',
        gr_ExpirationTime = ''t''\<rparr>) ids)),
     sv_ValidateDeputyKeys = (\<lambda>ks. State_Monad.return (Inr (map (\<lambda>k. (fst k, ''t'')) ks, []))),
     sv_FlexAquire = (\<lambda>ids. State_Monad.return (Inr (map (\<lambda>i. \<lparr>gr_ID = i, gr_DeputyKey = ''d'', gr_ReservationKey = ''r'',
        gr_ExpirationTime = ''t''\<rparr>) ids))),
     sv_FlexRelease = (\<lambda>ids. State_Monad.return (Inr (ids, [])))\<rparr>"

lemma granting_svc_answers: "answers_asked granting_svc"
  by (force simp: answers_asked_def granting_svc_def)

lemma ReserveComponents_no_panic_example:
  "fst (run_state (ReserveComponents True granting_svc [new_reservation ''x0c0s0b0n0'' [] []]) empty_world) \<noteq> None"
  by (rule ReserveComponents_no_panic) (rule granting_svc_answers)

lemma query_groups_partition_example:
  "concat (query_groups 2 [''x0c0'', ''x0c1'', ''x0c2'']) = [''x0c0'', ''x0c1'', ''x0c2'']"
  using query_groups_partition [of 2 "[''x0c0'', ''x0c1'', ''x0c2'']"] by simp


end
