(* ===== verification/TransitionSeq.thy ===== *)
theory TransitionSeq
  imports Storage Hsm
begin

text \<open>
  How a transition is broken into power actions: the power sequence, the decision for one
  component (the body of the loop of \<open>sequenceComponents\<close>), the Redfish payload and the
  components that fail with another one, from \<^verbatim>\<open>internal/domain/transitions.go\<close>.

  \<open>xnameMap\<close> is an association list from xnames to components. The source shares
  pointers to its components between \<open>xnameMap\<close>, the sequence map and the map of running
  tasks; here those hold the xname, and the component is looked up in \<open>xnameMap\<close>. A call
  that does not return (a nil dereference, or a loop that never ends) is the value \<open>None\<close>.
\<close>

section \<open>Components and the power sequence\<close>

record PowerSupply =
  sup_ID :: xname
  sup_State :: PowerStateFilter

record TransitionComponent =
  co_PState :: "PowerStatusComponent option"
  co_HSMData :: "HsmData option"
  co_PowerSupplies :: "PowerSupply list"
  co_Task :: TransitionTask
  co_Actions :: "(string \<times> string) list"
  co_ActionCount :: int

definition task_component :: "TransitionTask \<Rightarrow> TransitionComponent" where
  "task_component t = \<lparr>co_PState = None, co_HSMData = None, co_PowerSupplies = [], co_Task = t,
     co_Actions = [], co_ActionCount = 0\<rparr>"

type_synonym xmap = "(xname \<times> TransitionComponent) list"

record PowerSeqElem =
  se_Action :: string
  se_CompTypes :: "HMSType list"

definition PowerSequenceFull :: "PowerSeqElem list" where
  "PowerSequenceFull =
    [\<lparr>se_Action = ''gracefulshutdown'', se_CompTypes = [Node]\<rparr>,
     \<lparr>se_Action = ''forceoff'', se_CompTypes = [Node]\<rparr>,
     \<lparr>se_Action = ''gracefulshutdown'', se_CompTypes = [RouterModule, ComputeModule]\<rparr>,
     \<lparr>se_Action = ''forceoff'', se_CompTypes = [RouterModule, ComputeModule]\<rparr>,
     \<lparr>se_Action = ''gracefulshutdown'', se_CompTypes = [Chassis]\<rparr>,
     \<lparr>se_Action = ''forceoff'', se_CompTypes = [Chassis]\<rparr>,
     \<lparr>se_Action = ''gracefulshutdown'', se_CompTypes = [CabinetPDUPowerConnector]\<rparr>,
     \<lparr>se_Action = ''forceoff'', se_CompTypes = [CabinetPDUPowerConnector]\<rparr>,
     \<lparr>se_Action = ''gracefulrestart'', se_CompTypes = [Node, RouterModule, ComputeModule, Chassis,
        CabinetPDUPowerConnector, MgmtSwitch, MgmtHLSwitch, CDUMgmtSwitch]\<rparr>,
     \<lparr>se_Action = ''gracefulrestart'', se_CompTypes = [ChassisBMC, NodeBMC, RouterBMC]\<rparr>,
     \<lparr>se_Action = ''on'', se_CompTypes = [CabinetPDUPowerConnector]\<rparr>,
     \<lparr>se_Action = ''on'', se_CompTypes = [Chassis]\<rparr>,
     \<lparr>se_Action = ''on'', se_CompTypes = [RouterModule, ComputeModule]\<rparr>,
     \<lparr>se_Action = ''on'', se_CompTypes = [Node]\<rparr>]"

definition getOpForPowerAction :: "string \<Rightarrow> Operation" where
  "getOpForPowerAction powerAction =
     (if powerAction = ''gracefulshutdown'' then Operation_Off
      else if powerAction = ''gracefulrestart'' then Operation_SoftRestart
      else if powerAction = ''forceoff'' then Operation_ForceOff
      else if powerAction = ''forcerestart'' then Operation_HardRestart
      else if powerAction = ''on'' then Operation_On
      else Operation_Nil)"

definition endState :: "string \<Rightarrow> string" where
  "endState powerAction =
     (if powerAction = ''gracefulshutdown'' \<or> powerAction = ''forceoff'' then ''off''
      else if powerAction = ''gracefulrestart'' \<or> powerAction = ''on'' then ''on'' else [])"

definition status_types :: "HMSType list" where
  "status_types = [ChassisBMC, NodeBMC, RouterBMC, Node, Chassis, ComputeModule, MgmtSwitch, MgmtHLSwitch,
     CDUMgmtSwitch, CabinetPDUPowerConnector]"

definition control_types :: "HMSType list" where
  "control_types = status_types @ [RouterModule]"

section \<open>The Redfish payload\<close>

definition payload_error :: "xname \<Rightarrow> err" where
  "payload_error x = ''Power action not supported for '' @ x"

definition reset_type :: "(string \<times> string) list \<Rightarrow> string \<Rightarrow> string option" where
  "reset_type acts action = (case map_of acts action of
      Some r \<Rightarrow> Some r
    | None \<Rightarrow> if action = ''gracefulshutdown'' then map_of acts ''off''
        else if action = ''gracefulrestart'' then map_of acts ''forcerestart'' else None)"

definition dq :: string where "dq = [CHR 0x22]"

definition outlet_body :: "string \<Rightarrow> string \<Rightarrow> string" where
  "outlet_body n st = ''{'' @ dq @ ''OutletNumber'' @ dq @ '':'' @ n @ '','' @ dq @ ''StartupState'' @ dq @ '':'' @ dq @ ''on'' @ dq
     @ '','' @ dq @ ''Outletname'' @ dq @ '':'' @ dq @ ''OUTLET'' @ n @ dq
     @ '','' @ dq @ ''OnDelay'' @ dq @ '':0,'' @ dq @ ''OffDelay'' @ dq @ '':0,'' @ dq @ ''RebootDelay'' @ dq @ '':5,''
     @ dq @ ''OutletStatus'' @ dq @ '':'' @ dq @ st @ dq @ ''}''"

definition single_body :: "string \<Rightarrow> string \<Rightarrow> string" where
  "single_body field v = ''{'' @ dq @ field @ dq @ '': '' @ dq @ v @ dq @ ''}''"

text \<open>
  \<open>generateTransitionPayload\<close> on the fields it reads: the xname of the power state, the
  allowed actions (lower case to Redfish spelling) and the FQDN of the controller.
\<close>

definition generateTransitionPayload :: "xname \<Rightarrow> string \<Rightarrow> (string \<times> string) list \<Rightarrow> string \<Rightarrow> err + string" where
  "generateTransitionPayload x fqdn acts action =
     (case reset_type acts action of
        None \<Rightarrow> Inl (payload_error x)
      | Some resetType \<Rightarrow>
          if GetHMSType x = CabinetPDUPowerConnector then
            if \<not> str_contains fqdn ''rts'' then
              let outlet = split_on (CHR ''v'') x in
              if length outlet < 2 then Inl (''Could not get outlet number from '' @ x)
              else Inr (outlet_body (outlet ! 1) (to_lower resetType))
            else Inr (single_body ''PowerState'' resetType)
          else Inr (single_body ''ResetType'' resetType))"

section \<open>The decision for one component\<close>

abbreviation "upd_task f c \<equiv> c\<lparr>co_Task := f (co_Task c)\<rparr>"

definition open_task :: "TransitionTask \<Rightarrow> bool" where
  "open_task t \<longleftrightarrow> tt_Status t = TransitionTaskStatusNew \<or> tt_Status t = TransitionTaskStatusInProgress"

definition finish :: "string \<Rightarrow> string \<Rightarrow> TransitionComponent \<Rightarrow> TransitionComponent" where
  "finish st desc c = upd_task (\<lambda>t. t\<lparr>tt_Status := st, tt_StatusDesc := desc\<rparr>) c"

definition fail :: "string \<Rightarrow> string \<Rightarrow> TransitionComponent \<Rightarrow> TransitionComponent" where
  "fail desc err c = upd_task (\<lambda>t. t\<lparr>tt_Status := TransitionTaskStatusFailed, tt_StatusDesc := desc, tt_Error := err\<rparr>) c"

definition plan :: "string list \<Rightarrow> TransitionComponent \<Rightarrow> TransitionComponent \<times> string list" where
  "plan acts c = (c\<lparr>co_ActionCount := co_ActionCount c + int (length acts)\<rparr>, acts)"

definition already :: "string \<Rightarrow> TransitionComponent \<Rightarrow> TransitionComponent \<times> string list" where
  "already label c = (finish TransitionTaskStatusSucceeded
     (if tt_State (co_Task c) = TaskState_GatherData then ''Component already in desired state''
      else ''Transition confirmed, '' @ label) c, [])"

text \<open>
  The search for a requested ancestor that cannot restart. When an ancestor is found in the
  map the loop does not move on to the next one, so the call never returns: it is a
  \<open>partial_function\<close> with \<open>None\<close> for that case.
\<close>

definition has_action :: "string \<Rightarrow> (string \<times> string) list \<Rightarrow> bool" where
  "has_action a acts \<longleftrightarrow> map_of acts a \<noteq> None"

partial_function (option) parent_loop :: "(xname \<Rightarrow> (string \<times> string) list option) \<Rightarrow> xname \<Rightarrow> bool \<Rightarrow> bool option" where
  "parent_loop acts i parentSupportsRestart =
     (if GetHMSType i = HMSTypeInvalid then Some parentSupportsRestart
      else case acts i of
        Some pa \<Rightarrow> parent_loop acts i
          (if \<not> has_action ''gracefulrestart'' pa \<and> \<not> has_action ''forcerestart'' pa then False else parentSupportsRestart)
      | None \<Rightarrow> parent_loop acts (GetHMSCompParent i) parentSupportsRestart)"

definition seq_soft_restart :: "(xname \<Rightarrow> (string \<times> string) list option) \<Rightarrow> xname \<Rightarrow> PowerStateFilter \<Rightarrow>
    TransitionComponent \<Rightarrow> (TransitionComponent \<times> string list) option" where
  "seq_soft_restart acts x psf c =
     (let t = co_Task c; isBMC = IsHMSTypeController (GetHMSType x) in
      if psf \<noteq> PowerStateFilter_On then
        Some (if tt_State t = TaskState_GatherData then
            (fail ''Component must be in the On state for Soft-Restart'' ''Component is in the wrong power state'' c, [])
          else if tt_Operation t = Operation_On then plan [''on''] c
          else if tt_Operation t = Operation_Off \<or> tt_Operation t = Operation_ForceOff then
            plan [''on''] (upd_task (\<lambda>t. t\<lparr>tt_State := TaskState_Confirmed\<rparr>) c)
          else (fail (if tt_Operation t = Operation_SoftRestart then ''Failed to apply transition, GracefulRestart''
                 else ''Failed to apply transition, ForceRestart'') ''Unknown error'' c, []))
      else
        let hasAction = (has_action ''gracefulrestart'' (co_Actions c)
              \<or> (isBMC \<and> has_action ''forcerestart'' (co_Actions c))) in
        do {
          parentSupportsRestart \<leftarrow> (if hasAction then parent_loop acts (GetHMSCompParent x) True else Some True);
          Some (if hasAction \<and> parentSupportsRestart then
              (if tt_State t = TaskState_Waiting
               then (finish TransitionTaskStatusSucceeded ''Transition confirmed, gracefulrestart'' c, [])
               else plan [''gracefulrestart''] c)
            else if isBMC then
              (finish TransitionTaskStatusSucceeded
                 (''Component will be reset as a result of its parent component getting powered off->on.'') c, [])
            else if tt_Operation t = Operation_On
              then (finish TransitionTaskStatusSucceeded ''Transition confirmed, On'' c, [])
            else plan [''gracefulshutdown'', ''on''] c) })"

definition seq_hard_restart :: "PowerStateFilter \<Rightarrow> TransitionComponent \<Rightarrow> TransitionComponent \<times> string list" where
  "seq_hard_restart psf c =
     (let t = co_Task c in
      if psf \<noteq> PowerStateFilter_On then
        if tt_State t = TaskState_GatherData then
          (fail ''Component must be in the On state for Hard-Restart'' ''Component is in the wrong power state'' c, [])
        else if tt_Operation t = Operation_On then plan [''on''] c
        else if tt_Operation t = Operation_Off \<or> tt_Operation t = Operation_ForceOff then
          plan [''on''] (upd_task (\<lambda>t. t\<lparr>tt_State := TaskState_Confirmed\<rparr>) c)
        else (c, [])
      else if tt_Operation t = Operation_On
        then (finish TransitionTaskStatusSucceeded ''Transition confirmed, On'' c, [])
      else plan [''gracefulshutdown'', ''on''] c)"

definition seq_init :: "PowerStateFilter \<Rightarrow> TransitionComponent \<Rightarrow> TransitionComponent \<times> string list" where
  "seq_init psf c =
     (let t = co_Task c in
      if psf = PowerStateFilter_On then
        if tt_Operation t = Operation_On \<or>
           ((tt_Operation t = Operation_Off \<or> tt_Operation t = Operation_ForceOff) \<and> tt_State t = TaskState_Confirmed)
        then (finish TransitionTaskStatusSucceeded ''Transition confirmed, on'' c, [])
        else if tt_Operation t = Operation_ForceOff then plan [''forceoff'', ''on''] c
        else plan [''gracefulshutdown'', ''on''] c
      else plan [''on'']
        (if tt_Operation t = Operation_Off \<or> tt_Operation t = Operation_ForceOff
         then upd_task (\<lambda>t. t\<lparr>tt_StatusDesc := ''Transition confirmed, off. Waiting for next transition'',
                tt_State := TaskState_Confirmed\<rparr>) c
         else c))"

definition seq_operation :: "(xname \<Rightarrow> (string \<times> string) list option) \<Rightarrow> Operation \<Rightarrow> xname \<Rightarrow> PowerStateFilter \<Rightarrow>
    TransitionComponent \<Rightarrow> (TransitionComponent \<times> string list) option" where
  "seq_operation acts operation x psf c =
     (case operation of
        Operation_On \<Rightarrow> Some (if psf = PowerStateFilter_On then already ''On'' c else plan [''on''] c)
      | Operation_SoftOff \<Rightarrow> Some (if psf = PowerStateFilter_Off then already ''Off'' c else plan [''gracefulshutdown''] c)
      | Operation_Off \<Rightarrow> Some (if psf = PowerStateFilter_Off then already ''Off'' c else plan [''gracefulshutdown''] c)
      | Operation_SoftRestart \<Rightarrow> seq_soft_restart acts x psf c
      | Operation_HardRestart \<Rightarrow> Some (seq_hard_restart psf c)
      | Operation_Init \<Rightarrow> Some (seq_init psf c)
      | Operation_ForceOff \<Rightarrow> Some (if psf = PowerStateFilter_Off then already ''ForceOff'' c else plan [''forceoff''] c)
      | Operation_Nil \<Rightarrow> Some (c, []))"

text \<open>
  The body of the loop: the changed component, the actions it joins, its entry of the
  reservation list and whether its task is stored.
\<close>

record SeqStep =
  ss_Comp :: TransitionComponent
  ss_Actions :: "string list"
  ss_Res :: "ReservationData option"
  ss_Store :: bool

definition reservation_of :: "xname \<Rightarrow> TransitionTask \<Rightarrow> ReservationData" where
  "reservation_of x t = new_reservation x (tt_ReservationKey t) (tt_DeputyKey t)"

definition sequence_component :: "(xname \<Rightarrow> (string \<times> string) list option) \<Rightarrow> Operation \<Rightarrow> xname \<Rightarrow> TransitionComponent \<Rightarrow> SeqStep option" where
  "sequence_component acts operation x c =
     (if \<not> open_task (co_Task c) then
        Some \<lparr>ss_Comp = c, ss_Actions = [],
          ss_Res = (if tt_ReservationKey (co_Task c) \<noteq> [] then Some (reservation_of x (co_Task c)) else None),
          ss_Store = False\<rparr>
      else do {
        ps \<leftarrow> co_PState c;
        opname \<leftarrow> Operation_String operation;
        if \<not> list_ex (\<lambda>s. s = opname) (ps_SupportedPowerTransitions ps) then
          Some \<lparr>ss_Comp = upd_task (\<lambda>t. t\<lparr>tt_Status := TransitionTaskStatusUnsupported,
                  tt_StatusDesc := ''Component does not support the specified transition operation, '' @ opname,
                  tt_Error := ''Unsupported for transition operation''\<rparr>) c,
                ss_Actions = [], ss_Res = None, ss_Store = True\<rparr>
        else do {
          (c', acs) \<leftarrow> seq_operation acts operation x (fst (ToPowerStateFilter (ps_PowerState ps))) c;
          Some \<lparr>ss_Comp = c', ss_Actions = acs,
            ss_Res = (if open_task (co_Task c') \<or> tt_ReservationKey (co_Task c') \<noteq> []
                      then Some (reservation_of x (co_Task c')) else None),
            ss_Store = True\<rparr> } })"

section \<open>The ancestor loop\<close>

text \<open>A requested component is met on the way up from \<open>i\<close>.\<close>

definition requested_above :: "(xname \<Rightarrow> 'a option) \<Rightarrow> xname \<Rightarrow> bool" where
  "requested_above acts i \<longleftrightarrow> (\<exists>n. (\<forall>k \<le> n. IsHMSCompIDValid ((GetHMSCompParent ^^ k) i)) \<and>
     acts ((GetHMSCompParent ^^ n) i) \<noteq> None)"

lemma requested_above_step:
  "requested_above acts i \<longleftrightarrow>
     IsHMSCompIDValid i \<and> (acts i \<noteq> None \<or> requested_above acts (GetHMSCompParent i))"
proof
  assume "requested_above acts i"
  then obtain n where n: "\<forall>k \<le> n. IsHMSCompIDValid ((GetHMSCompParent ^^ k) i)"
    "acts ((GetHMSCompParent ^^ n) i) \<noteq> None" by (auto simp: requested_above_def)
  show "IsHMSCompIDValid i \<and> (acts i \<noteq> None \<or> requested_above acts (GetHMSCompParent i))"
  proof (cases n)
    case 0
    with n show ?thesis by auto
  next
    case (Suc m)
    have "\<forall>k \<le> m. IsHMSCompIDValid ((GetHMSCompParent ^^ k) (GetHMSCompParent i))"
      using n(1) Suc by (metis Suc_le_mono comp_apply funpow_Suc_right)
    moreover have "acts ((GetHMSCompParent ^^ m) (GetHMSCompParent i)) \<noteq> None"
      using n(2) Suc by (metis comp_apply funpow_Suc_right)
    ultimately show ?thesis using n(1) by (auto simp: requested_above_def dest: spec [of _ 0])
  qed
next
  assume v: "IsHMSCompIDValid i \<and> (acts i \<noteq> None \<or> requested_above acts (GetHMSCompParent i))"
  show "requested_above acts i"
  proof (cases "acts i = None")
    case False
    with v show ?thesis unfolding requested_above_def by (intro exI [of _ 0]) simp
  next
    case True
    with v obtain m where m: "\<forall>k \<le> m. IsHMSCompIDValid ((GetHMSCompParent ^^ k) (GetHMSCompParent i))"
      "acts ((GetHMSCompParent ^^ m) (GetHMSCompParent i)) \<noteq> None" by (auto simp: requested_above_def)
    have "IsHMSCompIDValid ((GetHMSCompParent ^^ k) i)" if "k \<le> Suc m" for k
      using that m(1) v by (cases k) (simp_all add: funpow_swap1)
    with m(2) show ?thesis unfolding requested_above_def by (intro exI [of _ "Suc m"]) (simp add: funpow_swap1)
  qed
qed

lemma invalid_iff: "GetHMSType i = HMSTypeInvalid \<longleftrightarrow> \<not> IsHMSCompIDValid i"
  by (simp add: IsHMSCompIDValid_def)

lemma parent_loop_requested: "IsHMSCompIDValid i \<Longrightarrow> acts i = Some pa \<Longrightarrow> parent_loop acts i b = None"
proof (rule ccontr)
  assume v: "IsHMSCompIDValid i" "acts i = Some pa" and "parent_loop acts i b \<noteq> None"
  then obtain y where "parent_loop acts i b = Some y" by blast
  then have "acts i = None \<or> GetHMSType i = HMSTypeInvalid"
    by (rule parent_loop.raw_induct [rotated, where P = "\<lambda>acts i b y. acts i = None \<or> GetHMSType i = HMSTypeInvalid"])
      (fastforce split: if_splits option.splits)
  with v show False by (simp add: invalid_iff)
qed

lemma parent_loop_eq: "parent_loop acts i b = (if requested_above acts i then None else Some b)"
proof (induction i rule: xn.up_induct)
  case (up i)
  show ?case
  proof (cases "IsHMSCompIDValid i")
    case False
    then show ?thesis by (subst parent_loop.simps) (simp add: invalid_iff requested_above_step [of acts i])
  next
    case v: True
    show ?thesis
    proof (cases "acts i")
      case None
      with up [OF v] v show ?thesis
        by (subst parent_loop.simps) (simp add: invalid_iff requested_above_step [of acts i])
    next
      case (Some pa)
      with v show ?thesis by (simp add: parent_loop_requested requested_above_step [of acts i])
    qed
  qed
qed

text \<open>
  C36: sequencing a soft restart of a running component that has a graceful restart returns
  exactly when none of its ancestors is part of the same request: with a parent, grandparent or
  any other ancestor requested, the worker spins forever, whether or not that ancestor supports
  a restart.
\<close>

theorem soft_restart_returns_iff:
  assumes "open_task (co_Task c)" "co_PState c = Some ps"
    and "''Soft-Restart'' \<in> set (ps_SupportedPowerTransitions ps)"
    and "fst (ToPowerStateFilter (ps_PowerState ps)) = PowerStateFilter_On"
    and "has_action ''gracefulrestart'' (co_Actions c)"
  shows "sequence_component acts Operation_SoftRestart x c \<noteq> None \<longleftrightarrow>
    \<not> requested_above acts (GetHMSCompParent x)"
  using assms
  by (auto simp: sequence_component_def seq_operation_def seq_soft_restart_def Let_def parent_loop_eq list_ex_iff plan_def)

section \<open>What is planned\<close>

definition power_actions :: "string list" where
  "power_actions = [''gracefulshutdown'', ''forceoff'', ''gracefulrestart'', ''on'']"

text \<open>The operation and its planned actions, one record per line of the switch.\<close>

definition plan_ok :: "TransitionComponent \<Rightarrow> TransitionComponent \<times> string list \<Rightarrow> bool" where
  "plan_ok c r \<longleftrightarrow>
     set (snd r) \<subseteq> set power_actions \<and>
     co_ActionCount (fst r) = co_ActionCount c + int (length (snd r)) \<and>
     (snd r \<noteq> [] \<longrightarrow> tt_Status (co_Task (fst r)) = tt_Status (co_Task c)) \<and>
     tt_Xname (co_Task (fst r)) = tt_Xname (co_Task c) \<and>
     tt_ReservationKey (co_Task (fst r)) = tt_ReservationKey (co_Task c) \<and>
     tt_DeputyKey (co_Task (fst r)) = tt_DeputyKey (co_Task c)"

lemmas plan_defs = plan_ok_def plan_def already_def finish_def fail_def power_actions_def

lemma seq_operation_plan: "seq_operation acts operation x psf c = Some r \<Longrightarrow> plan_ok c r"
  by (cases operation)
    (auto simp: seq_operation_def seq_soft_restart_def seq_hard_restart_def seq_init_def Let_def plan_defs
      split: if_splits option.splits Option.bind_splits)

text \<open>
  C28: when a component is sequenced, its counter of outstanding actions grows by exactly the
  actions it is queued for; a component that is queued for an action keeps an open task and is
  on the reservation list, and a component whose task is finished is queued for nothing.
\<close>

theorem sequence_component_sound:
  assumes "sequence_component acts operation x c = Some s"
  shows "co_ActionCount (ss_Comp s) = co_ActionCount c + int (length (ss_Actions s))
    \<and> set (ss_Actions s) \<subseteq> set power_actions
    \<and> (ss_Actions s \<noteq> [] \<longrightarrow> open_task (co_Task (ss_Comp s)))
    \<and> (open_task (co_Task (ss_Comp s)) \<longrightarrow> ss_Store s \<and>
         ss_Res s = Some (reservation_of x (co_Task (ss_Comp s))))"
proof (cases "open_task (co_Task c)")
  case False
  with assms show ?thesis by (auto simp: sequence_component_def)
next
  case o: True
  obtain ps opname where p: "co_PState c = Some ps" "Operation_String operation = Some opname"
    using assms o by (auto simp: sequence_component_def split: Option.bind_splits)
  show ?thesis
  proof (cases "list_ex (\<lambda>s. s = opname) (ps_SupportedPowerTransitions ps)")
    case False
    with assms o p show ?thesis by (auto simp: sequence_component_def open_task_def)
  next
    case True
    with assms o p obtain c' acs where
      r: "seq_operation acts operation x (fst (ToPowerStateFilter (ps_PowerState ps))) c = Some (c', acs)"
        "s = \<lparr>ss_Comp = c', ss_Actions = acs,
            ss_Res = (if open_task (co_Task c') \<or> tt_ReservationKey (co_Task c') \<noteq> []
                      then Some (reservation_of x (co_Task c')) else None), ss_Store = True\<rparr>"
      by (auto simp: sequence_component_def split: Option.bind_splits)
    with seq_operation_plan [OF r(1)] o show ?thesis by (auto simp: plan_ok_def open_task_def)
  qed
qed

text \<open>The power state an operation is to leave the component in.\<close>

definition goal_state :: "Operation \<Rightarrow> string" where
  "goal_state operation = (if operation \<in> {Operation_Off, Operation_SoftOff, Operation_ForceOff} then ''off'' else ''on'')"

lemma seq_operation_goal:
  "seq_operation acts operation x psf c = Some (c', acs) \<Longrightarrow> acs \<noteq> [] \<Longrightarrow> endState (last acs) = goal_state operation"
  by (cases operation)
    (auto simp: seq_operation_def seq_soft_restart_def seq_hard_restart_def seq_init_def Let_def plan_defs
      endState_def goal_state_def split: if_splits option.splits Option.bind_splits)

text \<open>
  C29: the last action a component is queued for is one whose confirmed end state is the goal
  of the operation: off for the three kinds of off, on for on, init and the two restarts.
\<close>

theorem planned_actions_reach_goal:
  assumes "sequence_component acts operation x c = Some s" "ss_Actions s \<noteq> []"
  shows "endState (last (ss_Actions s)) = goal_state operation"
  using assms seq_operation_goal
  by (fastforce simp: sequence_component_def split: if_splits Option.bind_splits)

section \<open>The order of the power sequence\<close>

text \<open>Where a type stands in the power hierarchy: nodes depend on modules, those on chassis and outlets.\<close>

fun power_tier :: "HMSType \<Rightarrow> nat" where
  "power_tier Node = 0"
| "power_tier RouterModule = 1"
| "power_tier ComputeModule = 1"
| "power_tier Chassis = 2"
| "power_tier CabinetPDUPowerConnector = 3"
| "power_tier _ = 4"

definition is_off :: "string \<Rightarrow> bool" where
  "is_off a \<longleftrightarrow> a = ''gracefulshutdown'' \<or> a = ''forceoff''"

text \<open>\<open>a\<close> may come before \<open>b\<close>.\<close>

definition in_order :: "PowerSeqElem \<Rightarrow> PowerSeqElem \<Rightarrow> bool" where
  "in_order a b \<longleftrightarrow> \<not> (se_Action a = ''on'' \<and> is_off (se_Action b)) \<and>
     list_all (\<lambda>s. list_all (\<lambda>t.
        (if is_off (se_Action a) \<and> is_off (se_Action b) then power_tier s \<le> power_tier t else True) \<and>
        (if is_off (se_Action a) \<and> is_off (se_Action b) \<and> power_tier s = power_tier t
         then (se_Action a, se_Action b) = (''gracefulshutdown'', ''forceoff'') else True) \<and>
        (if se_Action a = ''on'' \<and> se_Action b = ''on'' then power_tier t < power_tier s else True))
       (se_CompTypes b)) (se_CompTypes a)"


definition slots :: "string \<Rightarrow> HMSType \<Rightarrow> nat" where
  "slots a ty = length (filter (\<lambda>el. se_Action el = a \<and> ty \<in> set (se_CompTypes el)) PowerSequenceFull)"

text \<open>
  The sequence has exactly one slot for each action of a node, module, chassis or outlet and
  for the graceful restart of every controllable type, and no slot at all to switch management
  switches and controllers on or off: such an action would stay queued and never run.
\<close>

lemma power_sequence_slots:
  "list_all (\<lambda>ty. list_all (\<lambda>a.
      slots a ty = (if power_tier ty < 4 \<or> a = ''gracefulrestart'' then 1 else 0)) power_actions) control_types"
  by code_simp

section \<open>The payload\<close>

text \<open>
  A payload is refused only for want of a matching Redfish reset type: with the exact
  action, or the fallback from graceful shutdown to off and from graceful restart to forced
  restart, it is built for every component that is not a PDU outlet; no other fallback exists.
\<close>

lemma payload_built_iff:
  assumes "GetHMSType x \<noteq> CabinetPDUPowerConnector"
  shows "(\<exists>body. generateTransitionPayload x fqdn acts action = Inr body) \<longleftrightarrow>
     has_action action acts \<or> (action = ''gracefulshutdown'' \<and> has_action ''off'' acts)
       \<or> (action = ''gracefulrestart'' \<and> has_action ''forcerestart'' acts)"
  using assms
  by (auto simp: generateTransitionPayload_def reset_type_def has_action_def split: option.splits if_splits)

section \<open>Examples\<close>

definition sample_power :: "string \<Rightarrow> xname \<Rightarrow> PowerStatusComponent" where
  "sample_power st x = \<lparr>ps_XName = x, ps_PowerState = st, ps_ManagementState = ''available'', ps_Error = [],
     ps_SupportedPowerTransitions = [''On'', ''Off'', ''Soft-Restart'', ''Init''], ps_LastUpdated = []\<rparr>"

definition sample_comp :: TransitionComponent where
  "sample_comp = (task_component sample_task)\<lparr>co_PState := Some (sample_power ''on'' ''x0c0s0b0n0''),
     co_Actions := [(''gracefulrestart'', ''GracefulRestart''), (''off'', ''Off''), (''on'', ''On'')]\<rparr>"

lemma sample_comp_facts:
  "open_task (co_Task sample_comp)" "co_PState sample_comp = Some (sample_power ''on'' ''x0c0s0b0n0'')"
  "''Soft-Restart'' \<in> set (ps_SupportedPowerTransitions (sample_power ''on'' ''x0c0s0b0n0''))"
  "fst (ToPowerStateFilter (ps_PowerState (sample_power ''on'' ''x0c0s0b0n0''))) = PowerStateFilter_On"
  "has_action ''gracefulrestart'' (co_Actions sample_comp)"
  by code_simp+

text \<open>With the compute module in the same request the restart of its node hangs.\<close>

theorem soft_restart_returns_iff_witness:
  "sequence_component (\<lambda>i. if i = ''x0c0s0'' then Some [] else None) Operation_SoftRestart ''x0c0s0b0n0'' sample_comp = None"
proof -
  have p: "GetHMSCompParent ''x0c0s0b0n0'' = ''x0c0s0b0''" "GetHMSCompParent ''x0c0s0b0'' = ''x0c0s0''"
    "IsHMSCompIDValid ''x0c0s0b0''" "IsHMSCompIDValid ''x0c0s0''" by code_simp+
  have "requested_above (\<lambda>i. if i = ''x0c0s0'' then Some [] else None :: (string \<times> string) list option) ''x0c0s0b0''"
    by (subst requested_above_step, subst requested_above_step) (simp add: p)
  then show ?thesis
    using soft_restart_returns_iff [OF sample_comp_facts, of "\<lambda>i. if i = ''x0c0s0'' then Some [] else None" "''x0c0s0b0n0''"]
    by (simp add: p)
qed

lemma sample_sequenced:
  "sequence_component (\<lambda>i. None) Operation_Off ''x0c0s0b0n0'' sample_comp =
    Some \<lparr>ss_Comp = sample_comp\<lparr>co_ActionCount := 1\<rparr>, ss_Actions = [''gracefulshutdown''],
      ss_Res = Some (new_reservation ''x0c0s0b0n0'' [] []), ss_Store = True\<rparr>"
  by code_simp

theorem sequence_component_sound_witness:
  "open_task (co_Task (sample_comp\<lparr>co_ActionCount := 1\<rparr>))"
  using sequence_component_sound [OF sample_sequenced] by simp

theorem planned_actions_reach_goal_witness: "endState ''gracefulshutdown'' = goal_state Operation_Off"
  using planned_actions_reach_goal [OF sample_sequenced] by simp

lemma payload_built_iff_example:
  "\<exists>body. generateTransitionPayload ''x0c0s0b0n0'' [] [(''off'', ''Off'')] ''gracefulshutdown'' = Inr body"
proof -
  have "GetHMSType ''x0c0s0b0n0'' \<noteq> CabinetPDUPowerConnector" by code_simp
  from payload_built_iff [OF this] show ?thesis by (simp add: has_action_def)
qed

end
