(* ===== verification/Reaper.thy ===== *)
theory Reaper
  imports Json
begin

text \<open>
  The array of the oldest records that both reapers fill, \<open>transitionsReaper\<close> of
  \<^verbatim>\<open>internal/domain/transitions.go\<close> and \<open>powerCapReaper\<close> of
  \<^verbatim>\<open>internal/domain/power-cap.go\<close>: the same nested loops over another record, so the
  creation time is an argument. \<open>None\<close> entries are nil. The inner loop of a record walks
  the array and shifts from its place on. The result is a stable sort, cut off.
\<close>

fun shift_in :: "'a \<Rightarrow> 'a option list \<Rightarrow> 'a option list" where
  "shift_in cur [] = []"
| "shift_in cur (None # xs) = Some cur # xs"
| "shift_in cur (Some x # xs) = Some cur # shift_in x xs"

fun insert_oldest :: "('a \<Rightarrow> time) \<Rightarrow> 'a \<Rightarrow> 'a option list \<Rightarrow> 'a option list" where
  "insert_oldest created tr [] = []"
| "insert_oldest created tr (None # xs) = Some tr # xs"
| "insert_oldest created tr (Some x # xs) =
     (if created x > created tr then shift_in tr (Some x # xs) else Some x # insert_oldest created tr xs)"

text \<open>Insertion after the entries that are not younger, into a sorted list.\<close>

definition insert_after :: "('a \<Rightarrow> time) \<Rightarrow> 'a \<Rightarrow> 'a list \<Rightarrow> 'a list" where
  "insert_after created tr xs = takeWhile (\<lambda>x. created x \<le> created tr) xs @ tr #
     dropWhile (\<lambda>x. created x \<le> created tr) xs"

lemma sort_key_snoc:
  "sort_key created (xs @ [tr]) = insert_after created tr (sort_key created xs)"
proof (rule properties_for_sort_key)
  let ?s = "sort_key created xs" and ?P = "\<lambda>x. created x \<le> created tr"
  have split: "takeWhile ?P ?s @ dropWhile ?P ?s = ?s" by simp
  show "mset (insert_after created tr ?s) = mset (xs @ [tr])"
  proof -
    have "mset (takeWhile ?P ?s) + mset (dropWhile ?P ?s) = mset xs"
      by (simp only: mset_append [symmetric] split mset_sort)
    then show ?thesis by (simp add: insert_after_def)
  qed
  have big: "created tr < created y" if y: "y \<in> set (dropWhile ?P ?s)" for y
  proof -
    obtain z zs where z: "dropWhile ?P ?s = z # zs" using y by (metis list.set_cases)
    have "\<not> ?P z" using hd_dropWhile [of ?P ?s] z by simp
    moreover have "sorted (map created (z # zs))"
      using sorted_sort_key [of created xs] split z by (metis map_append sorted_append)
    ultimately show ?thesis using y z by auto
  qed
  show "sorted (map created (insert_after created tr ?s))"
  proof -
    have "sorted (map created (takeWhile ?P ?s @ dropWhile ?P ?s))"
      by (simp only: split sorted_sort_key)
    then have "sorted (map created (takeWhile ?P ?s))" "sorted (map created (dropWhile ?P ?s))"
      by (simp_all only: map_append sorted_append)
    moreover have "\<And>x. x \<in> set (takeWhile ?P ?s) \<Longrightarrow> ?P x" by (auto dest: set_takeWhileD)
    ultimately show ?thesis
      using big by (fastforce simp: insert_after_def sorted_append)
  qed
  show "filter (\<lambda>x. created k = created x) (insert_after created tr ?s)
      = filter (\<lambda>x. created k = created x) (xs @ [tr])" for k
  proof -
    let ?Q = "\<lambda>x. created k = created x"
    have s: "filter ?Q ?s = filter ?Q xs"
      using sort_key_stable [of created "created k" xs] by (simp add: eq_commute)
    have j: "filter ?Q (takeWhile ?P ?s) @ filter ?Q (dropWhile ?P ?s) = filter ?Q ?s"
      by (metis filter_append split)
    have "?Q tr \<Longrightarrow> filter ?Q (dropWhile ?P ?s) = []"
      using big by (metis (mono_tags, lifting) filter_False less_irrefl)
    with s j show ?thesis by (cases "?Q tr") (auto simp: insert_after_def)
  qed
qed

definition pad_to :: "nat \<Rightarrow> 'a list \<Rightarrow> 'a option list" where
  "pad_to n xs = map Some (take n xs) @ replicate (n - length xs) None"

lemma pad_to_simps:
  "pad_to 0 xs = []" "pad_to (Suc n) [] = None # replicate n None" "pad_to (Suc n) (x # xs) = Some x # pad_to n xs"
  "pad_to n [] = replicate n None"
  by (simp_all add: pad_to_def)

lemma pad_to_full: "n \<le> length xs \<Longrightarrow> pad_to n xs = map Some (take n xs)"
  by (simp add: pad_to_def)

lemma shift_in_pad: "shift_in tr (pad_to n xs) = pad_to n (tr # xs)"
  by (induction n arbitrary: tr xs; case_tac xs) (simp_all add: pad_to_simps)

lemma insert_oldest_pad: "insert_oldest created tr (pad_to n xs) = pad_to n (insert_after created tr xs)"
proof (induction n arbitrary: xs)
  case (Suc n)
  then show ?case
    using shift_in_pad [of tr "Suc n" xs]
    by (cases xs) (auto simp: pad_to_simps insert_after_def)
qed (simp add: pad_to_simps)

lemma fill_oldest_eq:
  "foldl (\<lambda>arr tr. if P tr then insert_oldest created tr arr else arr) (replicate n None) trs
   = pad_to n (sort_key created (filter P trs))"
proof (induction trs rule: rev_induct)
  case Nil
  then show ?case by (simp add: pad_to_simps)
next
  case (snoc tr trs)
  then show ?case
    using sort_key_snoc [of created "filter P trs" tr] by (simp add: insert_oldest_pad)
qed

end
