(* ===== verification/Transitions.thy ===== *)
theory Transitions
  imports TransitionSeq Reaper
begin

text \<open>
  The worker of transitions, \<^verbatim>\<open>internal/domain/transitions.go\<close>: the operations the API calls,
  the bookkeeping of tasks, the reaper, the keep-alive and \<open>doTransition\<close> itself. The
  globals are arguments: the storage \<open>e\<close>, the limit of completed records, the HSM client
  and the task launcher (a vendored library). Logging is left out. A call that does not return
  is \<open>None\<close>; \<open>go doTransition\<close> is a list of identifiers for the caller to start.
\<close>

section \<open>Storing tasks\<close>

text \<open>Every call logs the error of storing a task and goes on.\<close>

definition save_task :: "ETCDStorage \<Rightarrow> TransitionTask \<Rightarrow> ('z, unit) io" where
  "save_task e t = do { _ \<leftarrow> StoreTransitionTask e t; State_Monad.return () }"

definition missing :: "err \<Rightarrow> bool" where
  "missing err \<longleftrightarrow> str_contains err ''does not exist''"

section \<open>Requests of the API\<close>

definition not_found_or_internal :: "err \<Rightarrow> 'o Passback" where
  "not_found_or_internal err = BuildErrorPassback (if missing err then 404 else 500) err"

text \<open>\<open>GetTransition\<close> of the domain; \<open>None\<close> is the panic of \<open>Operation.String\<close>.\<close>

definition domain_GetTransition :: "ETCDStorage \<Rightarrow> uuid \<Rightarrow> ('z, TransitionResp Passback option) io" where
  "domain_GetTransition e tid = do {
     (tr, first, err) \<leftarrow> GetTransition e tid;
     case err of
       Some x \<Rightarrow> State_Monad.return (Some (not_found_or_internal x))
     | None \<Rightarrow>
       if tr_TransitionID tr \<noteq> tid then
         State_Monad.return (Some (BuildErrorPassback 404 ''TransitionID does not exist''))
       else do {
         (tasks, err) \<leftarrow> (if \<not> tr_IsCompressed tr then GetAllTasksForTransition e tid
                          else State_Monad.return ([], None));
         case err of Some x \<Rightarrow> State_Monad.return (Some (BuildErrorPassback 500 x))
         | None \<Rightarrow> State_Monad.return (map_option (BuildSuccessPassback 200) (ToTransitionResp tr tasks True)) } }"

fun transition_statuses :: "ETCDStorage \<Rightarrow> Transition list \<Rightarrow> TransitionResp list \<Rightarrow> ('z, TransitionResp list Passback option) io" where
  "transition_statuses e [] rsp = State_Monad.return (Some (BuildSuccessPassback 200 rsp))"
| "transition_statuses e (tr # trs) rsp = do {
     (tasks, err) \<leftarrow> (if \<not> tr_IsCompressed tr then GetAllTasksForTransition e (tr_TransitionID tr)
                      else State_Monad.return ([], None));
     case err of Some x \<Rightarrow> State_Monad.return (Some (BuildErrorPassback 500 x))
     | None \<Rightarrow> (case ToTransitionResp tr tasks False of
         None \<Rightarrow> State_Monad.return None
       | Some r \<Rightarrow> transition_statuses e trs (rsp @ [r])) }"

definition GetTransitionStatuses :: "ETCDStorage \<Rightarrow> ('z, TransitionResp list Passback option) io" where
  "GetTransitionStatuses e = do {
     (trs, err) \<leftarrow> GetAllTransitions e;
     case err of Some x \<Rightarrow> State_Monad.return (Some (BuildErrorPassback 500 x))
     | None \<Rightarrow> transition_statuses e trs [] }"

abbreviation "abort_accepted \<equiv> BuildSuccessPassback 202 ''Accepted - abort initiated''"

text \<open>
  A transition found under another identifier sets a 404 and goes on: the answer is
  overwritten below, as in the source.
\<close>

fun abort_retry :: "ETCDStorage \<Rightarrow> uuid \<Rightarrow> nat \<Rightarrow> ('z, string Passback) io" where
  "abort_retry e tid 0 = State_Monad.return (BuildErrorPassback 500 ''Failed to signal abort'')"
| "abort_retry e tid (Suc n) = do {
     (tr, first, err) \<leftarrow> GetTransition e tid;
     case err of
       Some x \<Rightarrow> State_Monad.return (not_found_or_internal x)
     | None \<Rightarrow>
       if tr_Status tr = TransitionStatusCompleted then
         State_Monad.return (BuildErrorPassback 400 ''Transition is already finished and cannot be aborted.'')
       else if tr_Status tr = TransitionStatusAborted then State_Monad.return abort_accepted
       else do {
         (ok, err) \<leftarrow> TASTransition e (tr\<lparr>tr_Status := TransitionStatusAbortSignaled\<rparr>) first;
         case err of Some x \<Rightarrow> State_Monad.return (BuildErrorPassback 500 x)
         | None \<Rightarrow> if ok then State_Monad.return abort_accepted else abort_retry e tid n } }"

definition AbortTransitionID :: "ETCDStorage \<Rightarrow> uuid \<Rightarrow> ('z, string Passback) io" where
  "AbortTransitionID e tid = abort_retry e tid 3"

text \<open>The second component lists the workers started with \<open>go\<close>.\<close>

definition TriggerTransition :: "ETCDStorage \<Rightarrow> Transition \<Rightarrow> ('z, (TransitionCreation Passback \<times> uuid list) option) io" where
  "TriggerTransition e tr = do {
     err \<leftarrow> StoreTransition e tr;
     State_Monad.return (case err of Some x \<Rightarrow> Some (BuildErrorPassback 500 x, [])
       | None \<Rightarrow> map_option (\<lambda>op. (BuildSuccessPassback 200
           \<lparr>tc_TransitionID = tr_TransitionID tr, tc_Operation = op\<rparr>, [tr_TransitionID tr]))
           (Operation_String (tr_Operation tr))) }"

section \<open>The transition record\<close>

fun store_retry :: "ETCDStorage \<Rightarrow> Transition \<Rightarrow> bool \<Rightarrow> nat \<Rightarrow> ('z, bool \<times> err option) io" where
  "store_retry e tr abort 0 = State_Monad.return (abort, Some ''Retries expired storing transition'')"
| "store_retry e tr abort (Suc n) = do {
     (cur, trOld, err) \<leftarrow> GetTransition e (tr_TransitionID tr);
     if (case err of None \<Rightarrow> False | Some x \<Rightarrow> \<not> missing x) then State_Monad.return (abort, err)
     else do {
       t \<leftarrow> now;
       let tr = tr\<lparr>tr_LastActiveTime := t\<rparr>;
       if tr_TransitionID trOld \<noteq> tr_TransitionID tr then do {
         err \<leftarrow> StoreTransition e tr;
         State_Monad.return (abort, err) }
       else do {
         let signaled = (tr_Status trOld = TransitionStatusAbortSignaled);
         let tr = (if signaled then tr\<lparr>tr_Status := TransitionStatusAbortSignaled\<rparr> else tr);
         let abort = (abort \<or> signaled);
         (ok, err) \<leftarrow> TASTransition e tr trOld;
         if ok then State_Monad.return (abort, None) else store_retry e tr abort n } } }"

definition storeTransition :: "ETCDStorage \<Rightarrow> Transition \<Rightarrow> ('z, bool \<times> err option) io" where
  "storeTransition e tr = store_retry e tr False 3"

definition checkAbort :: "ETCDStorage \<Rightarrow> Transition \<Rightarrow> ('z, bool \<times> err option) io" where
  "checkAbort e tr = do {
     (t, first, err) \<leftarrow> GetTransition e (tr_TransitionID tr);
     State_Monad.return (case err of
         Some x \<Rightarrow> (False, if missing x then None else Some x)
       | None \<Rightarrow> if tr_TransitionID t \<noteq> tr_TransitionID tr then (False, None)
           else (tr_Status t = TransitionStatusAbortSignaled, None)) }"

definition delete_task_of :: "ETCDStorage \<Rightarrow> uuid \<Rightarrow> TransitionTask \<Rightarrow> ('z, unit) io" where
  "delete_task_of e tid t = do { _ \<leftarrow> DeleteTransitionTask e tid (tt_TaskID t); State_Monad.return () }"

text \<open>\<open>None\<close> is the panic of \<open>ToTransitionResp\<close> for a transition without an operation.\<close>

definition compressAndCompleteTransition :: "ETCDStorage \<Rightarrow> Transition \<Rightarrow> string \<Rightarrow> ('z, unit option) io" where
  "compressAndCompleteTransition e tr status = do {
     (tasks, err) \<leftarrow> GetAllTasksForTransition e (tr_TransitionID tr);
     case err of Some x \<Rightarrow> State_Monad.return (Some ())
     | None \<Rightarrow> (case ToTransitionResp tr tasks True of
         None \<Rightarrow> State_Monad.return None
       | Some rsp \<Rightarrow> do {
           let tr' = tr\<lparr>tr_TaskCounts := rsp_TaskCounts rsp, tr_Tasks := rsp_Tasks rsp,
                        tr_Status := status, tr_IsCompressed := True\<rparr>;
           err \<leftarrow> StoreTransition e tr';
           case err of Some x \<Rightarrow> State_Monad.return (Some ())
           | None \<Rightarrow> do {
               _ \<leftarrow> for_each (delete_task_of e (tr_TransitionID tr)) tasks;
               State_Monad.return (Some ()) } }) }"

definition abort_comp :: "ETCDStorage \<Rightarrow> xname \<Rightarrow> xmap \<Rightarrow> ('z, xmap) io" where
  "abort_comp e x m = (case map_of m x of None \<Rightarrow> State_Monad.return m
     | Some c \<Rightarrow>
       if open_task (co_Task c) then do {
         let c' = fail (''Aborted. Last status - '' @ tt_StatusDesc (co_Task c)) ''Transition aborted'' c;
         _ \<leftarrow> save_task e (co_Task c');
         State_Monad.return (AList.update x c' m) }
       else State_Monad.return m)"

definition doAbort :: "ETCDStorage \<Rightarrow> Transition \<Rightarrow> xmap \<Rightarrow> ('z, xmap option) io" where
  "doAbort e tr m = do {
     xs \<leftarrow> range_over (keys m);
     m' \<leftarrow> fold_io (abort_comp e) xs m;
     r \<leftarrow> compressAndCompleteTransition e tr TransitionStatusAborted;
     State_Monad.return (map_option (\<lambda>_. m') r) }"

section \<open>Keep-alive and reaper\<close>

text \<open>
  One firing of the keep-alive timer: the inner loop, \<open>n\<close> rounds of it. \<open>None\<close>: still
  retrying after \<open>n\<close> rounds; \<open>Some False\<close>: the thread stops.
\<close>

fun keepAlive_round :: "ETCDStorage \<Rightarrow> uuid \<Rightarrow> nat \<Rightarrow> ('z, bool option) io" where
  "keepAlive_round e tid 0 = State_Monad.return None"
| "keepAlive_round e tid (Suc n) = do {
     (tr, old, err) \<leftarrow> GetTransition e tid;
     case err of
       Some x \<Rightarrow> if missing x then State_Monad.return (Some False) else keepAlive_round e tid n
     | None \<Rightarrow>
       if tr_TransitionID tr \<noteq> tid then State_Monad.return (Some False)
       else if tr_Status tr = TransitionStatusAborted \<or> tr_Status tr = TransitionStatusCompleted
         then State_Monad.return (Some False)
       else do {
         t \<leftarrow> now;
         (ok, err) \<leftarrow> TASTransition e (tr\<lparr>tr_LastActiveTime := t\<rparr>) old;
         if err \<noteq> None then keepAlive_round e tid n
         else if ok then State_Monad.return (Some True) else keepAlive_round e tid n } }"

fun delete_tasks :: "ETCDStorage \<Rightarrow> uuid \<Rightarrow> TransitionTask list \<Rightarrow> ('z, err option) io" where
  "delete_tasks e tid [] = State_Monad.return None"
| "delete_tasks e tid (t # ts) = do {
     err \<leftarrow> DeleteTransitionTask e tid (tt_TaskID t);
     case err of Some x \<Rightarrow> State_Monad.return (Some x) | None \<Rightarrow> delete_tasks e tid ts }"

definition deleteTransition :: "ETCDStorage \<Rightarrow> uuid \<Rightarrow> ('z, err option) io" where
  "deleteTransition e tid = do {
     (tasks, err) \<leftarrow> GetAllTasksForTransition e tid;
     case err of Some x \<Rightarrow> State_Monad.return (Some x)
     | None \<Rightarrow> do {
         err \<leftarrow> delete_tasks e tid tasks;
         case err of Some x \<Rightarrow> State_Monad.return (Some x) | None \<Rightarrow> DeleteTransition e tid } }"

definition ended :: "Transition \<Rightarrow> bool" where
  "ended tr \<longleftrightarrow> tr_Status tr = TransitionStatusAborted \<or> tr_Status tr = TransitionStatusCompleted"

text \<open>
  One record of the reaper's first loop: the count of completed records and the workers to
  start, \<open>None\<close> after a panic.
\<close>

definition reap_one :: "ETCDStorage \<Rightarrow> Transition \<Rightarrow> (nat \<times> uuid list) option \<Rightarrow> ('z, (nat \<times> uuid list) option) io" where
  "reap_one e tr s = (case s of None \<Rightarrow> State_Monad.return None | Some (numComplete, started) \<Rightarrow> do {
     t1 \<leftarrow> now;
     t2 \<leftarrow> now;
     let expired = (tr_AutomaticExpirationTime tr < t1);
     let abandoned = (tr_LastActiveTime tr < t2 + seconds (TransitionKeepAliveInterval * - 3));
     if expired then
       if ended tr then do { _ \<leftarrow> deleteTransition e (tr_TransitionID tr); State_Monad.return s }
       else do {
         tr1 \<leftarrow> (if abandoned then do { t3 \<leftarrow> now;
                    State_Monad.return (tr\<lparr>tr_Status := TransitionStatusAbortSignaled, tr_LastActiveTime := t3\<rparr>) }
                 else State_Monad.return (tr\<lparr>tr_Status := TransitionStatusAbortSignaled\<rparr>));
         (ok, err) \<leftarrow> TASTransition e tr1 tr;
         State_Monad.return (if err = None \<and> ok \<and> abandoned
           then Some (numComplete, started @ [tr_TransitionID tr]) else s) }
     else if abandoned \<and> \<not> ended tr then do {
       t3 \<leftarrow> now;
       (ok, err) \<leftarrow> TASTransition e (tr\<lparr>tr_LastActiveTime := t3\<rparr>) tr;
       State_Monad.return (if err = None \<and> ok then Some (numComplete, started @ [tr_TransitionID tr]) else s) }
     else if ended tr then do {
       r \<leftarrow> (if \<not> tr_IsCompressed tr then compressAndCompleteTransition e tr (tr_Status tr)
             else State_Monad.return (Some ()));
       State_Monad.return (map_option (\<lambda>_. (Suc numComplete, started)) r) }
     else State_Monad.return s })"

text \<open>The array \<open>tToDelete\<close> of the oldest records that have ended.\<close>

definition select_oldest :: "nat \<Rightarrow> Transition list \<Rightarrow> Transition option list" where
  "select_oldest numDelete trs =
     foldl (\<lambda>arr tr. if ended tr then insert_oldest tr_CreateTime tr arr else arr) (replicate numDelete None) trs"

text \<open>Deleting the selected ones; a nil entry is dereferenced (\<open>None\<close>).\<close>

fun delete_selected :: "ETCDStorage \<Rightarrow> Transition option list \<Rightarrow> ('z, unit option) io" where
  "delete_selected e [] = State_Monad.return (Some ())"
| "delete_selected e (None # xs) = State_Monad.return None"
| "delete_selected e (Some tr # xs) = do { _ \<leftarrow> deleteTransition e (tr_TransitionID tr); delete_selected e xs }"

definition transitionsReaper :: "ETCDStorage \<Rightarrow> int \<Rightarrow> ('z, uuid list option) io" where
  "transitionsReaper e maxNumCompleted = do {
     (trs, err) \<leftarrow> GetAllTransitions e;
     if err \<noteq> None \<or> trs = [] then State_Monad.return (Some [])
     else do {
       s \<leftarrow> fold_io (reap_one e) trs (Some (0, []));
       case s of None \<Rightarrow> State_Monad.return None
       | Some (numComplete, started) \<Rightarrow>
           if maxNumCompleted \<le> 0 then State_Monad.return (Some started)
           else do {
             let numDelete = int numComplete - maxNumCompleted;
             if numDelete > 0 then do {
               r \<leftarrow> delete_selected e (select_oldest (nat numDelete) trs);
               State_Monad.return (map_option (\<lambda>_. started) r) }
             else State_Monad.return (Some started) } } }"

section \<open>The oldest records\<close>

lemma select_oldest_eq: "select_oldest n trs = pad_to n (sort_key tr_CreateTime (filter ended trs))"
  unfolding select_oldest_def by (rule fill_oldest_eq)

text \<open>
  C27: the array the reaper fills holds exactly the oldest \<open>numDelete\<close> completed or aborted
  records, oldest first and in the order of the list among equals; entries stay nil only when
  there are fewer such records.
\<close>

theorem reaper_selects_oldest:
  "select_oldest numDelete trs =
     map Some (take numDelete (sort_key tr_CreateTime (filter ended trs))) @
     replicate (numDelete - length (filter ended trs)) None"
  by (simp add: select_oldest_eq pad_to_def)

text \<open>The reaper counts at most as many completed records as the list has.\<close>

lemma run_bind_fst_cases:
  "fst (run_state (State_Monad.bind m f) w) = fst (run_state (f (fst (run_state m w))) (snd (run_state m w)))"
  by (simp add: case_prod_beta)

lemma reap_one_count:
  assumes "fst (run_state (reap_one e tr (Some (n, st))) w) = Some (n', st')"
  shows "n' \<le> n + (if ended tr then 1 else 0)"
  using assms
  by (auto simp: reap_one_def case_prod_beta Let_def split: if_splits)

lemma reap_one_None: "fst (run_state (reap_one e tr None) w) = None"
  by (simp add: reap_one_def)

lemma reap_all_count:
  "fst (run_state (fold_io (reap_one e) trs (Some (n, st))) w) = Some (n', st') \<Longrightarrow>
   n' \<le> n + length (filter ended trs)"
proof (induction trs arbitrary: n st w)
  case (Cons tr trs)
  obtain s w1 where s: "run_state (reap_one e tr (Some (n, st))) w = (s, w1)" by fastforce
  have none: "fst (run_state (fold_io (reap_one e) ts None) w) = None" for ts w
    by (induction ts arbitrary: w) (auto simp: case_prod_beta reap_one_None)
  from Cons.prems s have f: "fst (run_state (fold_io (reap_one e) trs s) w1) = Some (n', st')" by simp
  then obtain n1 st1 where s1: "s = Some (n1, st1)" using none [of trs w1] by (cases s) auto
  have "n1 \<le> n + (if ended tr then 1 else 0)" using reap_one_count [of e tr n st w] s s1 by simp
  moreover have "n' \<le> n1 + length (filter ended trs)" using Cons.IH f s1 by simp
  ultimately show ?case by (auto split: if_splits)
qed simp

lemma delete_selected_total: "fst (run_state (delete_selected e (map Some trs)) w) = Some ()"
  by (induction trs arbitrary: w) (simp_all add: case_prod_beta)

lemma compress_total:
  "tr_Operation tr \<noteq> Operation_Nil \<Longrightarrow> fst (run_state (compressAndCompleteTransition e tr st) w) = Some ()"
  by (cases "tr_Operation tr")
    (auto simp: compressAndCompleteTransition_def ToTransitionResp_def Let_def case_prod_beta split: option.splits if_splits)

lemma reap_one_total:
  "tr_Operation tr \<noteq> Operation_Nil \<Longrightarrow> fst (run_state (reap_one e tr (Some s)) w) \<noteq> None"
  by (cases s) (auto simp: reap_one_def case_prod_beta Let_def compress_total)

lemma reap_all_total:
  "\<forall>tr \<in> set trs. tr_Operation tr \<noteq> Operation_Nil \<Longrightarrow> fst (run_state (fold_io (reap_one e) trs (Some s)) w) \<noteq> None"
proof (induction trs arbitrary: s w)
  case (Cons tr trs)
  obtain s1 w1 where s1: "run_state (reap_one e tr (Some s)) w = (s1, w1)" by fastforce
  with reap_one_total [of tr e s w] Cons.prems obtain s2 where "s1 = Some s2" by auto
  with Cons s1 show ?case by simp
qed simp

lemma delete_oldest_total:
  assumes "d \<le> length (filter ended trs)"
  shows "fst (run_state (delete_selected e (select_oldest d trs)) w) = Some ()"
  using assms delete_selected_total by (simp add: select_oldest_eq pad_to_def)



section \<open>What every action keeps\<close>

context action_inv
begin

lemma keeps_compress [keeps_intro]: "keeps P (compressAndCompleteTransition e tr st)"
  unfolding compressAndCompleteTransition_def delete_task_of_def Let_def by (intro keeps_intro)

lemma keeps_save_task [keeps_intro]: "keeps P (save_task e t)"
  unfolding save_task_def by (intro keeps_intro)

lemma keeps_checkAbort [keeps_intro]: "keeps P (checkAbort e tr)"
  unfolding checkAbort_def by (intro keeps_intro)

lemma keeps_doAbort [keeps_intro]: "keeps P (doAbort e tr m)"
  unfolding doAbort_def abort_comp_def Let_def by (intro keeps_intro)

lemma keeps_store_retry [keeps_intro]: "keeps P (store_retry e tr ab n)"
  by (induction n arbitrary: tr ab) (auto simp: Let_def intro!: keeps_intro)

lemma keeps_abort_retry [keeps_intro]: "keeps P (abort_retry e tid n)"
  by (induction n) (auto simp: Let_def intro!: keeps_intro)

lemma keeps_keepAlive [keeps_intro]: "keeps P (keepAlive_round e tid n)"
  by (induction n) (auto simp: Let_def intro!: keeps_intro)

lemma keeps_delete_tasks [keeps_intro]: "keeps P (delete_tasks e tid ts)"
  by (induction ts) (auto intro!: keeps_intro)

lemma keeps_deleteTransition [keeps_intro]: "keeps P (deleteTransition e tid)"
  unfolding deleteTransition_def by (intro keeps_intro)

lemma keeps_delete_selected [keeps_intro]: "keeps P (delete_selected e xs)"
  by (induction e xs rule: delete_selected.induct) (auto intro!: keeps_intro)

lemma keeps_reap_one [keeps_intro]: "keeps P (reap_one e tr s)"
  unfolding reap_one_def Let_def by (intro keeps_intro)

lemma keeps_reaper [keeps_intro]: "keeps P (transitionsReaper e mx)"
  unfolding transitionsReaper_def Let_def by (intro keeps_intro)

end

section \<open>Aborting\<close>

text \<open>On etcd, without interference, a transition in one entry can be replaced.\<close>

lemma norm_norm [simp]: "norm_transition (norm_transition t) = norm_transition t"
  by (simp add: norm_transition_def)

lemma enc_norm [simp]: "enc_Transition (norm_transition t) = enc_Transition t"
  by (simp add: enc_Transition_def norm_transition_def omit_slice_def)

text \<open>
  C24: without interference, aborting a transition that is stored in one entry and is neither
  completed nor aborted succeeds at the first attempt: the caller gets 202 and the stored
  record is the same one with the status \<open>abort-signaled\<close>.
\<close>

theorem abort_signals:
  assumes w: "quiet w" and e: "es_kvHandle e = Kvs_etcd" and t: "stored_as e tid t0 [] (kvs w)"
    and open_tr: "\<not> ended t0"
    and one: "truncateAndPageTransitionIfNeeded e ((norm_transition t0)\<lparr>tr_Status := TransitionStatusAbortSignaled\<rparr>)
      = (t1, [])"
  shows "\<exists>w'. run_state (AbortTransitionID e tid) w = (abort_accepted, w') \<and>
    kvs w' = AList.update (fixUpKey (transition_key tid)) (enc_Transition t1) (kvs w)"
proof -
  obtain w1 where w1: "run_state (GetTransition e tid) w = ((norm_transition t0, norm_transition t0, None), w1)"
      "quiet w1" "kvs w1 = kvs w"
    using run_GetTransition_quiet [OF w t] by auto
  have k: "map_of (kvs w1) (fixUpKey (transition_key tid)) = Some (enc_Transition t0)"
    "tr_TransitionID (norm_transition t0) = tid" "tr_Status (norm_transition t0) = tr_Status t0"
    using t w1(3) by (auto simp: stored_as_def norm_transition_def)
  have tas: "run_state (TASTransition e ((norm_transition t0)\<lparr>tr_Status := TransitionStatusAbortSignaled\<rparr>) (norm_transition t0)) w1
      = ((True, None), (tick w1)\<lparr>kvs := AList.update (fixUpKey (transition_key tid)) (enc_Transition t1) (kvs w1)\<rparr>)"
    using w1(2) e k by (simp add: TASTransition_def one run_simps tas_def)
  show ?thesis
    using open_tr k
    by (simp add: AbortTransitionID_def numeral_3_eq_3 w1(1) tas ended_def) (simp add: w1(3))
qed

lemma update_same: "map_of m k = Some v \<Longrightarrow> AList.update k v m = m"
  by (induction m) (auto split: if_splits)

lemma map_of_filter_key: "map_of (filter (\<lambda>(k, v). P k) m) k = (if P k then map_of m k else None)"
  by (induction m) auto

lemma page_entry_stored:
  assumes "stored_as e tid t0 ps m" "p \<in> set ps"
  shows "map_of m (fst (page_entry p)) = Some (snd (page_entry p))"
proof -
  have idx: "map tp_Index ps = map int [0..<length ps]" and id: "\<forall>p \<in> set ps. tp_TransitionID p = tid"
    using assms(1) by (auto simp: stored_as_def page_ok_def)
  have i0: "0 \<le> tp_Index q" if "q \<in> set ps" for q
    using that idx by (metis (no_types, lifting) image_iff list.set_map of_nat_0_le_iff)
  have "distinct (map tp_Index ps)" using idx by (simp add: distinct_map)
  then have d: "distinct ps" "inj_on tp_Index (set ps)" by (simp_all add: distinct_map)
  have "inj_on (fst \<circ> page_entry) (set ps)"
  proof (rule inj_onI)
    fix q r assume "q \<in> set ps" "r \<in> set ps" "(fst \<circ> page_entry) q = (fst \<circ> page_entry) r"
    then show "q = r"
      using page_entry_inj [of q r] id i0 d(2) by (simp add: inj_on_eq_iff)
  qed
  with d(1) have "distinct (map fst (map page_entry ps))" by (simp add: distinct_map)
  then have "map_of (map page_entry ps) (fst (page_entry p)) = Some (snd (page_entry p))"
    using assms(2) by (intro map_of_is_SomeI) auto
  then have "map_of (pages_of e tid m) (fst (page_entry p)) = Some (snd (page_entry p))"
    using assms(1) by (simp add: stored_as_def)
  then show ?thesis unfolding pages_of_def map_of_filter_key by (simp split: if_splits)
qed

lemma put_pages_same: "(\<And>p. p \<in> set qs \<Longrightarrow> map_of m (fst (page_entry p)) = Some (snd (page_entry p))) \<Longrightarrow> foldl put_page m qs = m"
  by (induction qs) (auto simp: put_page_def update_same)

lemma abort_paged_round:
  assumes w: "quiet w" and e: "es_kvHandle e = Kvs_etcd" and t: "stored_as e tid t0 ps (kvs w)" "ps \<noteq> []"
    and d: "enc_Transition t0 \<noteq> enc_Transition (CopyTransition (norm_transition t0))"
    and open_tr: "\<not> ended t0" and same: "truncateAndPageTransitionIfNeeded e
      ((norm_transition (foldl add_page t0 ps))\<lparr>tr_Status := TransitionStatusAbortSignaled\<rparr>) = (t1, ps)"
  shows "\<exists>w'. run_state (abort_retry e tid n) w = (BuildErrorPassback 500 ''Failed to signal abort'', w') \<and> kvs w' = kvs w"
  using w t(1)
proof (induction n arbitrary: w)
  case (Suc n)
  let ?t = "norm_transition (foldl add_page t0 ps)" and ?first = "CopyTransition (norm_transition t0)"
  obtain w1 where w1: "run_state (GetTransition e tid) w = ((?t, ?first, None), w1)" "quiet w1" "kvs w1 = kvs w"
    using run_GetTransition_quiet [OF Suc.prems] t(2) by auto
  have k: "map_of (kvs w1) (fixUpKey (transition_key tid)) = Some (enc_Transition t0)"
    "tr_TransitionID ?t = tid" "tr_Status ?t = tr_Status t0"
    using Suc.prems(2) w1(3) by (auto simp: stored_as_def norm_transition_def foldl_add_page)
  obtain w2 where w2: "run_state (fold_io (store_page e) ps None) (tick w1) = (None, w2)" "quiet w2" "kvs w2 = kvs w"
    using run_store_pages [of "tick w1" e ps None] w1(2,3) put_pages_same [of ps "kvs w"]
      page_entry_stored [OF Suc.prems(2)] by auto
  have r: "(tick w1)\<lparr>kvs := kvs w1\<rparr> = tick w1" by (simp add: tick_def)
  have tas: "run_state (TASTransition e (?t\<lparr>tr_Status := TransitionStatusAbortSignaled\<rparr>) ?first) w1 = ((False, None), w2)"
    using w1(2) e k d w2(1) by (simp add: TASTransition_def same run_simps tas_def r)
  from Suc.IH [OF w2(2)] Suc.prems(2) w2(3) show ?case
    using open_tr k by (simp add: w1(1) tas ended_def)
qed simp

text \<open>
  C38: a transition stored over several pages cannot be aborted: all three attempts fail their
  test-and-set although nobody interferes, the caller gets 500 \<open>Failed to signal abort\<close> and
  the store is as before. (The pages of the attempted record are taken to be the stored ones:
  the abort changes only the status.)
\<close>

theorem abort_paged_fails:
  assumes w: "quiet w" and e: "es_kvHandle e = Kvs_etcd" and t: "stored_as e tid t0 ps (kvs w)" "ps \<noteq> []"
    and ne: "sl (tr_Location t0) \<noteq> []"
    and open_tr: "\<not> ended t0"
    and same: "truncateAndPageTransitionIfNeeded e
      ((norm_transition (foldl add_page t0 ps))\<lparr>tr_Status := TransitionStatusAbortSignaled\<rparr>) = (t1, ps)"
  shows "\<exists>w'. run_state (AbortTransitionID e tid) w = (BuildErrorPassback 500 ''Failed to signal abort'', w') \<and> kvs w' = kvs w"
  unfolding AbortTransitionID_def using ne
  by (intro abort_paged_round [OF w e t _ open_tr same] copy_differs) simp

section \<open>Examples\<close>

lemma sample_stored_one:
  "stored_as (sample_etcd\<lparr>es_DisableSizeChecks := True\<rparr>) (tr_TransitionID sample_transition) sample_transition []
     [(fixUpKey (transition_key (tr_TransitionID sample_transition)), enc_Transition sample_transition)]"
  using pages_of_transition_key [of "sample_etcd\<lparr>es_DisableSizeChecks := True\<rparr>" "tr_TransitionID sample_transition"
      "tr_TransitionID sample_transition" "enc_Transition sample_transition" "[]"] sample_facts(1)
  by (simp add: stored_as_def page_ok_def sample_fresh)

theorem abort_signals_witness:
  "\<exists>w'. run_state (AbortTransitionID (sample_etcd\<lparr>es_DisableSizeChecks := True\<rparr>) (tr_TransitionID sample_transition))
     (empty_world\<lparr>kvs := [(fixUpKey (transition_key (tr_TransitionID sample_transition)), enc_Transition sample_transition)]\<rparr>)
     = (abort_accepted, w')"
proof -
  let ?e = "sample_etcd\<lparr>es_DisableSizeChecks := True\<rparr>" and ?t = "norm_transition sample_transition"
  have "\<not> ended sample_transition" by code_simp
  moreover have "truncateAndPageTransitionIfNeeded ?e (?t\<lparr>tr_Status := TransitionStatusAbortSignaled\<rparr>)
      = (?t\<lparr>tr_Status := TransitionStatusAbortSignaled\<rparr>, [])"
    by (simp add: truncateAndPageTransitionIfNeeded_def)
  ultimately show ?thesis
    using abort_signals [of "empty_world\<lparr>kvs := [(fixUpKey (transition_key (tr_TransitionID sample_transition)), enc_Transition sample_transition)]\<rparr>"
        ?e "tr_TransitionID sample_transition" sample_transition] sample_stored_one
    by (auto simp: sample_etcd_def)
qed

definition sample_pages :: "Transition \<times> TransitionPage list" where
  "sample_pages = breakIntoPagesIfNeeded sample_etcd sample_transition (page_size_for sample_etcd sample_transition)"

definition sample_again :: Transition where
  "sample_again = (norm_transition (foldl add_page (fst sample_pages) (snd sample_pages)))\<lparr>tr_Status := TransitionStatusAbortSignaled\<rparr>"

lemma sample_pages_facts:
  "snd sample_pages \<noteq> []" "sl (tr_Location (fst sample_pages)) \<noteq> []" "\<not> ended (fst sample_pages)"
  "tr_Tasks sample_again = None"
  "snd (breakIntoPagesIfNeeded sample_etcd sample_again (page_size_for sample_etcd sample_again)) = snd sample_pages"
  by code_simp+

theorem abort_paged_fails_witness:
  "\<exists>(w :: world) w'. run_state (AbortTransitionID sample_etcd (tr_TransitionID sample_transition)) w
     = (BuildErrorPassback 500 ''Failed to signal abort'', w')"
proof -
  let ?tid = "tr_TransitionID sample_transition"
  have p: "truncateAndPageTransitionIfNeeded sample_etcd sample_transition = (fst sample_pages, snd sample_pages)"
    by (simp add: sample_pages_def sample_paging [OF sample_tasks])
  have e: "0 < es_PageSize sample_etcd" "es_kvHandle sample_etcd = Kvs_etcd" by (simp_all add: sample_etcd_def)
  obtain w1 :: world where w1: "quiet w1" "stored_as sample_etcd ?tid (fst sample_pages) (snd sample_pages) (kvs w1)"
    using run_StoreTransition_quiet [OF _ sample_facts(1) e(1) _ p, of empty_world] sample_fresh by auto
  have "truncateAndPageTransitionIfNeeded sample_etcd sample_again = (fst (truncateAndPageTransitionIfNeeded sample_etcd sample_again), snd sample_pages)"
    unfolding sample_paging(2) [OF sample_pages_facts(4)] by (simp add: sample_pages_facts(5) [symmetric])
  from abort_paged_fails [OF w1(1) e(2) w1(2) sample_pages_facts(1-3) this [unfolded sample_again_def]]
  show ?thesis by blast
qed

end
