(* ===== verification/TransitionWorker.thy ===== *)
theory TransitionWorker
  imports Transitions
begin

text \<open>
  \<open>doTransition\<close> and its helpers, \<^verbatim>\<open>internal/domain/transitions.go\<close>. The worker is cut
  into its phases in the order of the source; each returns \<open>Next\<close> with the worker's state,
  \<open>Done\<close> when the source returns, or \<open>Stuck\<close> when it would dereference nil or not
  return. The HSM provider is the Go interface \<open>HSMProvider\<close>, a record of actions; the
  vendored task launcher and the credential store are arguments too. The keep-alive thread is
  one of the writers that \<open>w_peers\<close> stands for.
\<close>

datatype 'a flow = Next 'a | Done | Stuck

definition bind_flow :: "('z, 'a flow) io \<Rightarrow> ('a \<Rightarrow> ('z, 'b flow) io) \<Rightarrow> ('z, 'b flow) io" where
  "bind_flow m f = do { r \<leftarrow> m; case r of Next a \<Rightarrow> f a | Done \<Rightarrow> State_Monad.return Done | Stuck \<Rightarrow> State_Monad.return Stuck }"

fun fold_flow :: "('a \<Rightarrow> 'b \<Rightarrow> ('z, 'b flow) io) \<Rightarrow> 'a list \<Rightarrow> 'b \<Rightarrow> ('z, 'b flow) io" where
  "fold_flow f [] b = State_Monad.return (Next b)"
| "fold_flow f (x # xs) b = bind_flow (f x b) (fold_flow f xs)"

section \<open>Gathering\<close>

type_synonym pmap = "(xname \<times> PowerStatusComponent) list"

fun hierarchy_loop :: "ETCDStorage \<Rightarrow> xname list \<Rightarrow> pmap \<Rightarrow> xname list \<Rightarrow> ('z, err + pmap \<times> xname list) io" where
  "hierarchy_loop e [] m badList = State_Monad.return (Inr (m, badList))"
| "hierarchy_loop e (x # xs) m badList =
     (if map_of m x \<noteq> None then hierarchy_loop e xs m badList
      else if GetHMSType x \<in> set status_types then do {
        r \<leftarrow> GetPowerStatus e x;
        case r of
          Inl err \<Rightarrow> if missing err then hierarchy_loop e xs m (badList @ [x]) else State_Monad.return (Inl err)
        | Inr ps \<Rightarrow> hierarchy_loop e xs (AList.update x ps m) badList }
      else if GetHMSType x = RouterModule then do {
        (l, err) \<leftarrow> GetPowerStatusHierarchy e x;
        case err of Some er \<Rightarrow> State_Monad.return (Inl er)
        | None \<Rightarrow>
          if l = [] then hierarchy_loop e xs m (badList @ [x])
          else do {
            let rs = filter (\<lambda>ps. GetHMSType (ps_XName ps) = RouterModule) l;
            let found = list_ex (\<lambda>ps. ps_XName ps = x) rs;
            hierarchy_loop e xs (foldl (\<lambda>m ps. AList.update (ps_XName ps) ps m) m rs)
              (if found then badList else badList @ [x]) } }
      else hierarchy_loop e xs m (badList @ [x]))"

definition getPowerStateHierarchy :: "ETCDStorage \<Rightarrow> xname list \<Rightarrow> ('z, err + pmap \<times> xname list) io" where
  "getPowerStateHierarchy e xnames = hierarchy_loop e xnames [] []"

definition location_task :: "Transition \<Rightarrow> uuid \<Rightarrow> LocationParameter \<Rightarrow> TransitionTask" where
  "location_task tr u loc =
     (let t = (NewTransitionTask u (tr_TransitionID tr) (tr_Operation tr))\<lparr>tt_Xname := loc_Xname loc, tt_DeputyKey := loc_DeputyKey loc\<rparr>;
          ty = GetHMSType (loc_Xname loc) in
      if ty \<in> set control_types then t\<lparr>tt_StatusDesc := ''Gathering data''\<rparr>
      else if ty = HMSTypeInvalid then t\<lparr>tt_Status := TransitionTaskStatusFailed, tt_Error := ''Invalid xname'',
        tt_StatusDesc := ''Failed to achieve transition''\<rparr>
      else t\<lparr>tt_Status := TransitionTaskStatusUnsupported,
        tt_Error := ''No power control for component type '' @ HMSType_String ty,
        tt_StatusDesc := ''Failed to achieve transition''\<rparr>)"

type_synonym setup_state = "Transition \<times> xmap \<times> xname list"

definition setup_location :: "ETCDStorage \<Rightarrow> LocationParameter \<Rightarrow> setup_state \<Rightarrow> ('z, setup_state) io" where
  "setup_location e loc st = (case st of (tr, m, xnames) \<Rightarrow>
     if map_of m (loc_Xname loc) \<noteq> None then State_Monad.return st
     else do {
       u \<leftarrow> new_uuid;
       let t = location_task tr u loc;
       _ \<leftarrow> save_task e t;
       State_Monad.return (tr\<lparr>tr_TaskIDs := sl_append (tr_TaskIDs tr) [u]\<rparr>,
         AList.update (loc_Xname loc) (task_component t) m,
         if tt_Status t = TransitionTaskStatusNew then xnames @ [loc_Xname loc] else xnames) })"

definition setup_previous :: "uuid list \<Rightarrow> TransitionTask \<Rightarrow> Transition \<times> xname list \<Rightarrow> Transition \<times> xname list" where
  "setup_previous known t st = (case st of (tr, xnames) \<Rightarrow>
     (if tt_TaskID t \<in> set known then tr else tr\<lparr>tr_TaskIDs := sl_append (tr_TaskIDs tr) [tt_TaskID t]\<rparr>,
      if open_task t then xnames @ [tt_Xname t] else xnames))"

definition setupTransitionTasks :: "ETCDStorage \<Rightarrow> Transition \<Rightarrow> ('z, setup_state) io" where
  "setupTransitionTasks e tr = do {
     (tasks, err) \<leftarrow> GetAllTasksForTransition e (tr_TransitionID tr);
     let m = foldl (\<lambda>m t. AList.update (tt_Xname t) (task_component t) m) [] tasks;
     comps \<leftarrow> range_over (map snd m);
     let (tr', xnames) = fold (\<lambda>c. setup_previous (sl (tr_TaskIDs tr)) (co_Task c)) comps (tr, []);
     fold_io (setup_location e) (sl (tr_Location tr)) (tr', m, xnames) }"

definition getPowerSupplies :: "ETCDStorage \<Rightarrow> HsmData \<Rightarrow> ('z, PowerSupply list) io" where
  "getPowerSupplies e h = fold_io (\<lambda>p acc. do {
       r \<leftarrow> GetPowerStatus e p;
       State_Monad.return (acc @ [\<lparr>sup_ID = p, sup_State = (case r of Inl _ \<Rightarrow> PowerStateFilter_Undefined
          | Inr ps \<Rightarrow> fst (ToPowerStateFilter (ps_PowerState ps)))\<rparr>]) }) (hd_PoweredBy h) []"

section \<open>Dependent components\<close>

fun scan_supplies :: "xmap \<Rightarrow> PowerSupply list \<Rightarrow> xname \<Rightarrow> bool \<times> xname" where
  "scan_supplies m [] failSupply = (False, failSupply)"
| "scan_supplies m (s # ss) failSupply =
     (if map_of m (sup_ID s) = None \<and> sup_State s = PowerStateFilter_On then (True, failSupply)
      else if sup_State s = PowerStateFilter_On then scan_supplies m ss (sup_ID s)
      else scan_supplies m ss failSupply)"

definition dependent_parents :: "xmap \<Rightarrow> string \<Rightarrow> xname \<Rightarrow> xname list" where
  "dependent_parents m powerAction x =
     (if powerAction = ''gracefulshutdown'' \<and> GetHMSType x = Node then
        GetHMSCompParent (GetHMSCompParent x) #
        (case map_of m x of None \<Rightarrow> []
         | Some c \<Rightarrow>
             let (willHavePower, failSupply) = scan_supplies m (co_PowerSupplies c) []
             in if co_PowerSupplies c \<noteq> [] \<and> \<not> willHavePower \<and> failSupply \<noteq> [] then [failSupply] else [])
      else [])"

definition fail_parent :: "ETCDStorage \<Rightarrow> string \<Rightarrow> xname \<Rightarrow> xmap \<Rightarrow> ('z, xmap) io" where
  "fail_parent e errMsg p m = (case map_of m p of None \<Rightarrow> State_Monad.return m
     | Some c \<Rightarrow> do {
         let c' = fail errMsg errMsg c;
         _ \<leftarrow> save_task e (co_Task c');
         State_Monad.return (AList.update p c' m) })"

definition failDependentComps :: "ETCDStorage \<Rightarrow> xmap \<Rightarrow> string \<Rightarrow> xname \<Rightarrow> string \<Rightarrow> ('z, xmap) io" where
  "failDependentComps e m powerAction x errMsg =
     fold_io (fail_parent e errMsg) (dependent_parents m powerAction x) m"

text \<open>
  The pattern of the worker: change the task of a component, fail its dependents, store the
  changed task. The pointer is read again after the dependents, as the source does.
\<close>

definition set_comp :: "xname \<Rightarrow> (TransitionComponent \<Rightarrow> TransitionComponent) \<Rightarrow> xmap \<Rightarrow> xmap" where
  "set_comp x f m = (case map_of m x of None \<Rightarrow> m | Some c \<Rightarrow> AList.update x (f c) m)"

definition save_comp :: "ETCDStorage \<Rightarrow> xname \<Rightarrow> xmap \<Rightarrow> ('z, unit) io" where
  "save_comp e x m = (case map_of m x of None \<Rightarrow> State_Monad.return () | Some c \<Rightarrow> save_task e (co_Task c))"

definition fail_with_deps :: "ETCDStorage \<Rightarrow> string \<Rightarrow> xname \<Rightarrow> string \<Rightarrow> string \<Rightarrow> string \<Rightarrow> xmap \<Rightarrow> ('z, xmap) io" where
  "fail_with_deps e powerAction x desc err depErrMsg m = do {
     m' \<leftarrow> failDependentComps e (set_comp x (fail desc err) m) powerAction x depErrMsg;
     _ \<leftarrow> save_comp e x m';
     State_Monad.return m' }"

section \<open>Sequencing\<close>

type_synonym seqmap = "((string \<times> HMSType) \<times> xname list) list"

definition seq_get :: "seqmap \<Rightarrow> string \<Rightarrow> HMSType \<Rightarrow> xname list" where
  "seq_get sm a ty = (case map_of sm (a, ty) of None \<Rightarrow> [] | Some xs \<Rightarrow> xs)"

definition seq_add :: "HMSType \<Rightarrow> xname \<Rightarrow> string \<Rightarrow> seqmap \<Rightarrow> seqmap" where
  "seq_add ty x a sm = AList.update (a, ty) (seq_get sm a ty @ [x]) sm"

type_synonym seq_state = "xmap \<times> seqmap \<times> ReservationData list"

definition sequence_step :: "ETCDStorage \<Rightarrow> Operation \<Rightarrow> xname \<Rightarrow> seq_state \<Rightarrow> ('z, seq_state flow) io" where
  "sequence_step e operation x st = (case st of (m, sm, res) \<Rightarrow>
     case map_of m x of None \<Rightarrow> State_Monad.return Stuck
     | Some c \<Rightarrow>
       (case sequence_component (\<lambda>i. map_option co_Actions (map_of m i)) operation x c of
          None \<Rightarrow> State_Monad.return Stuck
        | Some s \<Rightarrow> do {
            _ \<leftarrow> (if ss_Store s then save_task e (co_Task (ss_Comp s)) else State_Monad.return ());
            State_Monad.return (Next (AList.update x (ss_Comp s) m,
              fold (seq_add (GetHMSType x) x) (ss_Actions s) sm,
              res @ (case ss_Res s of None \<Rightarrow> [] | Some r \<Rightarrow> [r]))) }))"

definition sequenceComponents :: "ETCDStorage \<Rightarrow> Operation \<Rightarrow> xmap \<Rightarrow> ('z, seq_state flow) io" where
  "sequenceComponents e operation m = do {
     xs \<leftarrow> range_over (keys m);
     fold_flow (sequence_step e operation) xs (m, [], []) }"

definition wait_one :: "ETCDStorage \<Rightarrow> bool \<Rightarrow> xname \<Rightarrow> xmap \<times> bool \<Rightarrow> ('z, xmap \<times> bool) io" where
  "wait_one e isFirst x st = (case st of (m, isWaiting) \<Rightarrow> do {
     m' \<leftarrow> (if isFirst then do {
               let m1 = set_comp x (upd_task (\<lambda>t. t\<lparr>tt_StatusDesc := ''Waiting for controller to be ready''\<rparr>)) m;
               _ \<leftarrow> save_comp e x m1;
               State_Monad.return m1 }
            else State_Monad.return m);
     r \<leftarrow> GetPowerStatus e x;
     State_Monad.return (m', isWaiting \<or> (case r of Inl _ \<Rightarrow> False
       | Inr ps \<Rightarrow> to_lower (ps_ManagementState ps) \<noteq> ''available'')) })"

text \<open>\<open>time.Sleep\<close> only lets the world move on.\<close>

definition sleep :: "('z, unit) io" where
  "sleep = do { _ \<leftarrow> step; State_Monad.return () }"

fun wait_retry :: "ETCDStorage \<Rightarrow> xname list \<Rightarrow> nat \<Rightarrow> nat \<Rightarrow> xmap \<Rightarrow> ('z, xmap) io" where
  "wait_retry e xs retry 0 m = State_Monad.return m"
| "wait_retry e xs retry (Suc left) m = do {
     (m', isWaiting) \<leftarrow> fold_io (wait_one e (retry = 0)) xs (m, False);
     if \<not> isWaiting then State_Monad.return m'
     else do { _ \<leftarrow> sleep; wait_retry e xs (Suc retry) left m' } }"

definition waitForBMC :: "ETCDStorage \<Rightarrow> xname list \<Rightarrow> xmap \<Rightarrow> ('z, xmap) io" where
  "waitForBMC e compList m = wait_retry e compList 0 20 m"

section \<open>What the worker calls\<close>

record 'z HSMProvider =
  hp_FillHSMData :: "xname list \<Rightarrow> ('z, hsm_map \<times> err option) io"
  hp_FillPowerMapData :: "hsm_map \<Rightarrow> ('z, hsm_map \<times> err option) io"
  hp_ReserveComponents :: "ReservationData list \<Rightarrow> ('z, (err \<times> rsv_state + rsv_state) option) io"
  hp_CheckDeputyKeys :: "ReservationData list \<Rightarrow> ('z, (ReservationData list \<times> err option) option) io"
  hp_ReleaseComponents :: "ReservationData list \<Rightarrow> ('z, (ReservationData list \<times> xname list \<times> err option) option) io"

definition HSMv2 :: "bool \<Rightarrow> string \<Rightarrow> nat \<Rightarrow> 'z HsmHttp \<Rightarrow> 'z ReservationSvc \<Rightarrow> 'z HSMProvider" where
  "HSMv2 lockEnabled smurl maxQuery ht sv =
     \<lparr>hp_FillHSMData = FillHSMData ht smurl maxQuery, hp_FillPowerMapData = FillPowerMapData ht smurl,
      hp_ReserveComponents = ReserveComponents lockEnabled sv, hp_CheckDeputyKeys = CheckDeputyKeys sv,
      hp_ReleaseComponents = ReleaseComponents lockEnabled sv\<rparr>"

record TrsRequest =
  rq_ID :: uuid
  rq_URL :: string
  rq_Payload :: string
  rq_Auth :: "(string \<times> string) option"

datatype BodyRead = Body_Nil | Body_Err err | Body_Ok

record TrsDone =
  td_ID :: uuid
  td_Err :: "err option"
  td_StatusCode :: int
  td_Body :: BodyRead

text \<open>\<open>Launch\<close> with the receives from its channel; \<open>GetControllerCredentials\<close>.\<close>

record 'z WorkerEnv =
  we_HSM :: "'z HSMProvider"
  we_Launch :: "TrsRequest list \<Rightarrow> ('z, TrsDone list) io"
  we_VaultEnabled :: bool
  we_Creds :: "xname \<Rightarrow> ('z, string \<times> string) io"

record Worker =
  wk_tr :: Transition
  wk_map :: xmap
  wk_seq :: seqmap
  wk_res :: "ReservationData list"
  wk_waitBMC :: bool

section \<open>Phases of \<open>doTransition\<close>\<close>

definition complete :: "ETCDStorage \<Rightarrow> Transition \<Rightarrow> string \<Rightarrow> ('z, 'a flow) io" where
  "complete e tr status = do { r \<leftarrow> compressAndCompleteTransition e tr status;
     State_Monad.return (case r of None \<Rightarrow> Stuck | Some _ \<Rightarrow> Done) }"

text \<open>Store the record; on a signalled abort the source calls \<open>doAbort\<close> and carries on.\<close>

definition store_and_abort :: "ETCDStorage \<Rightarrow> Transition \<Rightarrow> xmap \<Rightarrow> ('z, xmap flow) io" where
  "store_and_abort e tr m = do {
     (abortSignaled, err) \<leftarrow> storeTransition e tr;
     if abortSignaled then do {
       r \<leftarrow> doAbort e tr m;
       State_Monad.return (case r of None \<Rightarrow> Stuck | Some m' \<Rightarrow> Next m') }
     else State_Monad.return (Next m) }"

definition phase_setup :: "ETCDStorage \<Rightarrow> uuid \<Rightarrow> ('z, (Transition \<times> xmap \<times> xname list) flow) io" where
  "phase_setup e tid = do {
     (tr, first, err) \<leftarrow> GetTransition e tid;
     if err \<noteq> None then State_Monad.return Done
     else if ended tr then State_Monad.return Done
     else do {
       (tr, m, xnames) \<leftarrow> setupTransitionTasks e tr;
       if xnames = [] then complete e tr TransitionStatusCompleted
       else do {
         let tr = tr\<lparr>tr_Status := TransitionStatusInProgress\<rparr>;
         bind_flow (store_and_abort e tr m) (\<lambda>m. State_Monad.return (Next (tr, m, xnames))) } } }"

definition missing_xname :: "ETCDStorage \<Rightarrow> xname \<Rightarrow> xmap \<Rightarrow> ('z, xmap) io" where
  "missing_xname e x m = (case map_of m x of None \<Rightarrow> State_Monad.return m
     | Some c \<Rightarrow> do {
         let ty = GetHMSType x;
         let c' = fail ''Failed to achieve transition''
            (if ty \<notin> set control_types then ''No power control for component type '' @ HMSType_String ty
             else ''Missing xname'') c;
         _ \<leftarrow> save_task e (co_Task c');
         State_Monad.return (AList.update x c' m) })"

definition phase_states :: "ETCDStorage \<Rightarrow> Transition \<Rightarrow> xmap \<Rightarrow> xname list \<Rightarrow> ('z, (xmap \<times> pmap) flow) io" where
  "phase_states e tr m xnames = do {
     r \<leftarrow> getPowerStateHierarchy e xnames;
     case r of Inl err \<Rightarrow> State_Monad.return Done
     | Inr (pStates, missingXnames) \<Rightarrow> do {
         m' \<leftarrow> fold_io (missing_xname e) missingXnames m;
         if pStates = [] then complete e tr TransitionStatusCompleted
         else State_Monad.return (Next (m', pStates)) } }"

definition fail_open :: "ETCDStorage \<Rightarrow> string \<Rightarrow> string \<Rightarrow> xname \<Rightarrow> xmap \<Rightarrow> ('z, xmap) io" where
  "fail_open e desc err x m = (case map_of m x of None \<Rightarrow> State_Monad.return m
     | Some c \<Rightarrow>
       if open_task (co_Task c) then do {
         let c' = fail desc err c;
         _ \<leftarrow> save_task e (co_Task c');
         State_Monad.return (AList.update x c' m) }
       else State_Monad.return m)"

definition phase_hsm :: "ETCDStorage \<Rightarrow> 'z HSMProvider \<Rightarrow> xname list \<Rightarrow> pmap \<Rightarrow> xmap \<Rightarrow> ('z, xmap \<times> hsm_map) io" where
  "phase_hsm e hp xnames pStates m = do {
     xnameHierarchy \<leftarrow> range_over (keys pStates);
     (hsmData, err) \<leftarrow> hp_FillHSMData hp xnameHierarchy;
     m1 \<leftarrow> (if err \<noteq> None then
               fold_io (fail_open e ''Failed to achieve transition'' ''Error retrieving HSM data'') xnames m
             else if length hsmData \<noteq> length xnameHierarchy then
               fold_io (\<lambda>x m. if map_of hsmData x = None
                  then fail_open e ''Failed to achieve transition'' ''Xname not found in HSM'' x m
                  else State_Monad.return m) xnames m
             else State_Monad.return m);
     (hsmData, err) \<leftarrow> hp_FillPowerMapData hp hsmData;
     m2 \<leftarrow> (if err \<noteq> None then
               fold_io (fail_open e ''Failed to achieve transition'' ''Error retrieving HSM data'') xnames m1
             else State_Monad.return m1);
     State_Monad.return (m2, hsmData) }"

definition lower_actions :: "string list \<Rightarrow> (string \<times> string) list" where
  "lower_actions as = foldl (\<lambda>m a. AList.update (to_lower a) a m) [] as"

text \<open>
  Attaching the data. The Rosetta branch fills the router's own action map with the actions
  of the switch and leaves the switch without any, as in the source.
\<close>

definition attach_one :: "ETCDStorage \<Rightarrow> pmap \<Rightarrow> hsm_map \<Rightarrow> xname \<Rightarrow> Transition \<times> xmap \<Rightarrow> ('z, Transition \<times> xmap) io" where
  "attach_one e pStates hsmData x st = (case st of (tr, m) \<Rightarrow>
     case (map_of m x, map_of pStates x, map_of hsmData x) of
       (Some c, Some ps, Some h) \<Rightarrow>
         if \<not> open_task (co_Task c) then State_Monad.return st
         else do {
           sup \<leftarrow> getPowerSupplies e h;
           let actions = lower_actions (hd_AllowableActions h);
           let m1 = AList.update x (c\<lparr>co_PState := Some ps, co_HSMData := Some h, co_Actions := actions, co_PowerSupplies := sup\<rparr>) m;
           let sw = x @ ''e0'';
           if GetHMSType x = RouterModule \<and> (bd_Class (hd_BaseData h) = ''Hill'' \<or> bd_Class (hd_BaseData h) = ''Mountain'')
              \<and> tr_Operation tr \<noteq> Operation_On then
             (case (map_of m1 sw, map_of pStates sw, map_of hsmData sw) of
                (None, Some sps, Some sh) \<Rightarrow> do {
                  u \<leftarrow> new_uuid;
                  let t = (NewTransitionTask u (tr_TransitionID tr) (tr_Operation tr))\<lparr>tt_Xname := sw, tt_StatusDesc := ''Gathering data''\<rparr>;
                  _ \<leftarrow> save_task e t;
                  let actions' = foldl (\<lambda>m a. AList.update (to_lower a) a m) actions (hd_AllowableActions sh);
                  ssup \<leftarrow> getPowerSupplies e sh;
                  State_Monad.return (tr\<lparr>tr_TaskIDs := sl_append (tr_TaskIDs tr) [u]\<rparr>,
                    AList.update sw ((task_component t)\<lparr>co_PState := Some sps, co_HSMData := Some sh, co_PowerSupplies := ssup\<rparr>)
                      (set_comp x (\<lambda>c. c\<lparr>co_Actions := actions'\<rparr>) m1)) }
              | _ \<Rightarrow> State_Monad.return (tr, m1))
           else State_Monad.return (tr, m1) }
     | _ \<Rightarrow> State_Monad.return st)"

definition reserve_failed_action :: "TransitionComponent \<Rightarrow> string option" where
  "reserve_failed_action c = (case tt_Operation (co_Task c) of
      Operation_SoftRestart \<Rightarrow> Some ''gracefulshutdown'' | Operation_HardRestart \<Rightarrow> Some ''gracefulshutdown''
    | Operation_SoftOff \<Rightarrow> Some ''gracefulshutdown'' | Operation_Off \<Rightarrow> Some ''gracefulshutdown''
    | Operation_ForceOff \<Rightarrow> Some ''forceoff'' | Operation_On \<Rightarrow> Some ''on''
    | Operation_Init \<Rightarrow> map_option (\<lambda>ps. if to_lower (ps_PowerState ps) = ''on'' then ''gracefulshutdown'' else ''on'') (co_PState c)
    | Operation_Nil \<Rightarrow> Some [])"

definition reserve_one :: "ETCDStorage \<Rightarrow> ReservationData list \<Rightarrow> xname list \<Rightarrow> ReservationData \<Rightarrow> xmap \<Rightarrow> ('z, xmap flow) io" where
  "reserve_one e reserved got res m = (case map_of m (rd_XName res) of None \<Rightarrow> State_Monad.return Stuck
     | Some c \<Rightarrow>
       (case (if rd_XName res \<in> set got then find (\<lambda>r. rd_XName r = rd_XName res) (rev reserved) else None) of
          Some r \<Rightarrow> do {
            let m' = AList.update (rd_XName res) (upd_task (\<lambda>t. t\<lparr>tt_ReservationKey := rd_ReservationKey r, tt_DeputyKey := rd_DeputyKey r\<rparr>) c) m;
            _ \<leftarrow> save_comp e (rd_XName res) m';
            State_Monad.return (Next m') }
        | None \<Rightarrow>
          if \<not> open_task (co_Task c) then State_Monad.return (Next m)
          else (case reserve_failed_action c of None \<Rightarrow> State_Monad.return Stuck
            | Some powerAction \<Rightarrow> do {
                let x = tt_Xname (co_Task c);
                let (err, dep) = (if rd_DeputyKey res = []
                  then (''Unable to reserve component'', ''Unable to reserve dependent component, '' @ x @ ''.'')
                  else (''Invalid deputy key and unable to reserve component'',
                        ''Invalid deputy key and unable to reserve dependent component, '' @ x @ ''.''));
                m' \<leftarrow> fail_with_deps e powerAction x ''Failed to achieve transition'' err dep m;
                State_Monad.return (Next m') })))"

text \<open>
  When reserving fails as a whole, the loop reports \<open>err.Error()\<close> and then reuses
  \<open>err\<close> for the result of storing the task: for the next component it can be nil.
\<close>

definition reserve_fail_one :: "ETCDStorage \<Rightarrow> xname \<Rightarrow> xmap \<times> err option \<Rightarrow> ('z, (xmap \<times> err option) flow) io" where
  "reserve_fail_one e x st = (case st of (m, err) \<Rightarrow>
     case map_of m x of None \<Rightarrow> State_Monad.return (Next st)
     | Some c \<Rightarrow>
       if \<not> open_task (co_Task c) then State_Monad.return (Next st)
       else (case err of None \<Rightarrow> State_Monad.return Stuck
         | Some er \<Rightarrow> do {
             let c' = fail ''Error acquiring reservations'' er c;
             err' \<leftarrow> StoreTransitionTask e (co_Task c');
             State_Monad.return (Next (AList.update x c' m, err')) }))"

text \<open>
  Reserving. \<open>resMap\<close> has the returned pointers by name; the loop runs over the slice that
  \<open>ReserveComponents\<close> updated.
\<close>

definition phase_reserve :: "ETCDStorage \<Rightarrow> 'z HSMProvider \<Rightarrow> Transition \<Rightarrow> seq_state \<Rightarrow> ('z, seq_state flow) io" where
  "phase_reserve e hp tr st = (case st of (m, sm, res) \<Rightarrow> do {
     r \<leftarrow> hp_ReserveComponents hp res;
     case r of None \<Rightarrow> State_Monad.return Stuck
     | Some (Inl (err, _)) \<Rightarrow> do {
         xs \<leftarrow> range_over (keys m);
         bind_flow (fold_flow (reserve_fail_one e) xs (m, Some err)) (\<lambda>_. complete e tr TransitionStatusCompleted) }
     | Some (Inr (res', got)) \<Rightarrow>
         bind_flow (fold_flow (reserve_one e res' got) res' m) (\<lambda>m'. State_Monad.return (Next (m', sm, res'))) })"

section \<open>The power sequence\<close>

definition expired_one :: "ETCDStorage \<Rightarrow> string \<Rightarrow> ReservationData \<Rightarrow> xmap \<Rightarrow> ('z, xmap) io" where
  "expired_one e powerAction res m = (case (rd_Error res, map_of m (rd_XName res)) of
       (Some _, Some c) \<Rightarrow>
         if open_task (co_Task c) then
           fail_with_deps e powerAction (tt_Xname (co_Task c)) ''Failed to achieve transition'' ''Reservation expired''
             (''Reservation expired for dependency, '' @ tt_Xname (co_Task c) @ ''.'') m
         else State_Monad.return m
     | _ \<Rightarrow> State_Monad.return m)"

text \<open>Preparing the requests: \<open>trsTaskMap\<close>, the requests so far and the unused task ids.\<close>

type_synonym send_state = "xmap \<times> (uuid \<times> xname) list \<times> TrsRequest list \<times> uuid list"

definition send_one :: "ETCDStorage \<Rightarrow> 'z WorkerEnv \<Rightarrow> string \<Rightarrow> xname \<Rightarrow> send_state \<Rightarrow> ('z, send_state flow) io" where
  "send_one e we powerAction x st = (case st of (m, tm, reqs, ids) \<Rightarrow>
     case map_of m x of None \<Rightarrow> State_Monad.return Stuck
     | Some c \<Rightarrow>
       if tt_Status (co_Task c) = TransitionTaskStatusFailed then State_Monad.return (Next st)
       else if tt_State (co_Task c) = TaskState_Waiting \<and> tt_Operation (co_Task c) = getOpForPowerAction powerAction then do {
         u \<leftarrow> new_uuid;
         State_Monad.return (Next (m, AList.update u x tm, reqs, ids)) }
       else (case (co_PState c, co_HSMData c, ids) of
         (Some ps, Some h, i # ids') \<Rightarrow>
           (case generateTransitionPayload (ps_XName ps) (hd_RfFQDN h) (co_Actions c) powerAction of
              Inl err \<Rightarrow> do {
                m' \<leftarrow> fail_with_deps e powerAction (tt_Xname (co_Task c)) ''Failed to construct payload'' err
                   (''Failed to apply transition, '' @ powerAction @ '', to dependency, '' @ tt_Xname (co_Task c) @ ''.'') m;
                State_Monad.return (Next (m', tm, reqs, ids)) }
            | Inr payload \<Rightarrow> do {
                let c' = upd_task (\<lambda>t. t\<lparr>tt_StatusDesc := ''Applying transition, '' @ powerAction,
                    tt_State := TaskState_Sending, tt_Operation := getOpForPowerAction powerAction\<rparr>) c;
                auth \<leftarrow> (if we_VaultEnabled we then do { (user, pw) \<leftarrow> we_Creds we (ps_XName ps);
                    State_Monad.return (if user = [] \<and> pw = [] then None else Some (user, pw)) }
                  else State_Monad.return None);
                _ \<leftarrow> save_task e (co_Task c');
                State_Monad.return (Next (AList.update x c' m, AList.update i x tm,
                  reqs @ [\<lparr>rq_ID = i, rq_URL = ''https://'' @ hd_RfFQDN h @ hd_PowerActionURI h,
                    rq_Payload = payload, rq_Auth = auth\<rparr>], ids')) })
       | _ \<Rightarrow> State_Monad.return Stuck))"

text \<open>The error of one response; the test of the status code can never hold.\<close>

definition task_error :: "TrsDone \<Rightarrow> err option" where
  "task_error d = (case td_Err d of Some x \<Rightarrow> Some x
     | None \<Rightarrow>
       if td_StatusCode d < 200 \<and> td_StatusCode d \<ge> 300 then Some (''bad status code: '' @ itoa (td_StatusCode d))
       else (case td_Body d of Body_Nil \<Rightarrow> Some ''empty body'' | Body_Err x \<Rightarrow> Some x | Body_Ok \<Rightarrow> None))"

definition response_one :: "ETCDStorage \<Rightarrow> bool \<Rightarrow> string \<Rightarrow> TrsDone \<Rightarrow> xmap \<times> (uuid \<times> xname) list
    \<Rightarrow> ('z, (xmap \<times> (uuid \<times> xname) list) flow) io" where
  "response_one e noWait powerAction d st = (case st of (m, tm) \<Rightarrow>
     case map_of tm (td_ID d) of None \<Rightarrow> State_Monad.return Stuck
     | Some x \<Rightarrow>
       (case task_error d of
          Some er \<Rightarrow> do {
            m' \<leftarrow> fail_with_deps e powerAction x (''Failed to apply transition, '' @ powerAction) er
               (''Failed to apply transition, '' @ powerAction @ '', to dependency, '' @ x @ ''.'') m;
            State_Monad.return (Next (m', AList.delete (td_ID d) tm)) }
        | None \<Rightarrow> do {
            let m' = set_comp x (\<lambda>c.
               if noWait then
                 let c1 = c\<lparr>co_ActionCount := co_ActionCount c - 1\<rparr> in
                 if co_ActionCount c1 = 0 then
                   upd_task (\<lambda>t. t\<lparr>tt_Status := TransitionTaskStatusSucceeded,
                     tt_StatusDesc := ''Transition applied, '' @ powerAction @ ''. Not confirming.'', tt_State := TaskState_Confirmed\<rparr>) c1
                 else upd_task (\<lambda>t. t\<lparr>tt_Status := TransitionTaskStatusInProgress,
                     tt_StatusDesc := ''Transition applied, '' @ powerAction @ ''. Waiting for next transition.'', tt_State := TaskState_Confirmed\<rparr>) c1
               else upd_task (\<lambda>t. t\<lparr>tt_Status := TransitionTaskStatusInProgress,
                     tt_StatusDesc := ''Confirming successful transition, '' @ powerAction, tt_State := TaskState_Waiting\<rparr>) c) m;
            _ \<leftarrow> save_comp e x m';
            State_Monad.return (Next (m', tm)) }))"

section \<open>Confirming\<close>

definition confirm_one :: "ETCDStorage \<Rightarrow> string \<Rightarrow> uuid \<times> xname \<Rightarrow> xmap \<times> (uuid \<times> xname) list
    \<Rightarrow> ('z, xmap \<times> (uuid \<times> xname) list) io" where
  "confirm_one e powerAction ux st = (case st of (m, tm) \<Rightarrow> do {
     r \<leftarrow> GetPowerStatus e (snd ux);
     case r of
       Inl er \<Rightarrow> do {
         m' \<leftarrow> fail_with_deps e powerAction (snd ux) ''Failed to confirm transition'' er
            (''Failed to confirm transition, '' @ powerAction @ '', to dependency, '' @ snd ux @ ''.'') m;
         State_Monad.return (m', AList.delete (fst ux) tm) }
     | Inr ps \<Rightarrow>
         if to_lower (ps_PowerState ps) = endState powerAction then do {
           let m' = set_comp (snd ux) (\<lambda>c.
              let c1 = c\<lparr>co_ActionCount := co_ActionCount c - 1\<rparr> in
              if co_ActionCount c1 = 0 then
                upd_task (\<lambda>t. t\<lparr>tt_State := TaskState_Confirmed, tt_Status := TransitionTaskStatusSucceeded,
                   tt_StatusDesc := ''Transition confirmed, '' @ powerAction\<rparr>) c1
              else upd_task (\<lambda>t. t\<lparr>tt_State := TaskState_Confirmed,
                   tt_StatusDesc := ''Transition confirmed, '' @ powerAction @ ''. Waiting for next transition''\<rparr>) c1) m;
           _ \<leftarrow> save_comp e (snd ux) m';
           State_Monad.return (m', AList.delete (fst ux) tm) }
         else State_Monad.return st })"

definition timeout_one :: "ETCDStorage \<Rightarrow> bool \<Rightarrow> string \<Rightarrow> xname \<Rightarrow> xmap \<times> seqmap \<Rightarrow> ('z, xmap \<times> seqmap) io" where
  "timeout_one e isSoft powerAction x st = (case st of (m, sm) \<Rightarrow>
     case map_of m x of None \<Rightarrow> State_Monad.return st
     | Some c \<Rightarrow>
       if powerAction = ''gracefulshutdown'' \<and> \<not> isSoft \<and> has_action ''forceoff'' (co_Actions c)
       then State_Monad.return (m, seq_add (GetHMSType x) x ''forceoff'' sm)
       else do {
         m' \<leftarrow> fail_with_deps e powerAction x ''Failed to achieve transition''
            (''Timeout waiting for transition, '' @ powerAction @ ''.'')
            (''Timeout waiting for transition, '' @ powerAction @ '', on dependency, '' @ x @ ''.'') m;
         State_Monad.return (m', sm) })"

text \<open>
  The confirmation loop, at most \<open>fuel\<close> rounds of 15 seconds. \<open>deadline = None\<close> waits
  forever. Running out of fuel is \<open>Stuck\<close>.
\<close>

fun confirm_loop :: "nat \<Rightarrow> ETCDStorage \<Rightarrow> bool \<Rightarrow> time option \<Rightarrow> string \<Rightarrow> Transition \<Rightarrow> xmap \<Rightarrow> seqmap \<Rightarrow> (uuid \<times> xname) list
    \<Rightarrow> ('z, (xmap \<times> seqmap) flow) io" where
  "confirm_loop 0 e isSoft deadline powerAction tr m sm tm = State_Monad.return Stuck"
| "confirm_loop (Suc fuel) e isSoft deadline powerAction tr m sm tm = do {
     (abort, err) \<leftarrow> checkAbort e tr;
     if abort then do {
       r \<leftarrow> doAbort e tr m;
       State_Monad.return (case r of None \<Rightarrow> Stuck | Some _ \<Rightarrow> Done) }
     else do {
       _ \<leftarrow> sleep;
       uxs \<leftarrow> range_over tm;
       (m, tm) \<leftarrow> fold_io (confirm_one e powerAction) uxs (m, tm);
       if tm = [] then State_Monad.return (Next (m, sm))
       else (case deadline of
           None \<Rightarrow> confirm_loop fuel e isSoft deadline powerAction tr m sm tm
         | Some dl \<Rightarrow> do {
             t \<leftarrow> now;
             if t > dl then do {
               xs \<leftarrow> range_over (map snd tm);
               (m, sm) \<leftarrow> fold_io (timeout_one e isSoft powerAction) xs (m, sm);
               State_Monad.return (Next (m, sm)) }
             else confirm_loop fuel e isSoft deadline powerAction tr m sm tm }) } }"

definition powers_bmc :: "string \<Rightarrow> HMSType list \<Rightarrow> bool" where
  "powers_bmc powerAction tys \<longleftrightarrow>
     (powerAction = ''on'' \<and> list_ex (\<lambda>ty. ty = RouterModule \<or> ty = ComputeModule) tys) \<or>
     (powerAction = ''gracefulrestart'' \<and> list_ex (\<lambda>ty. ty = ChassisBMC \<or> ty = NodeBMC \<or> ty = RouterBMC) tys)"

section \<open>\<open>doTransition\<close>\<close>

fun draw_uuids :: "nat \<Rightarrow> ('z, uuid list) io" where
  "draw_uuids 0 = State_Monad.return []"
| "draw_uuids (Suc n) = do { u \<leftarrow> new_uuid; us \<leftarrow> draw_uuids n; State_Monad.return (u # us) }"

text \<open>Sending one tier: the requests of the components and their responses.\<close>

definition send_tier :: "ETCDStorage \<Rightarrow> 'z WorkerEnv \<Rightarrow> bool \<Rightarrow> string \<Rightarrow> xname list \<Rightarrow> xmap
    \<Rightarrow> ('z, (xmap \<times> (uuid \<times> xname) list) flow) io" where
  "send_tier e we noWait powerAction compList m = do {
     ids \<leftarrow> draw_uuids (length compList);
     bind_flow (fold_flow (send_one e we powerAction) compList (m, [], [], ids)) (\<lambda>(m, tm, reqs, ids).
       if reqs = [] then State_Monad.return (Next (m, tm))
       else do {
         dones \<leftarrow> we_Launch we reqs;
         fold_flow (response_one e noWait powerAction) dones (m, tm) }) }"

text \<open>
  One element of \<open>PowerSequenceFull\<close>. The confirmation is entered when tasks are left in
  the map or the caller wants to wait.
\<close>

definition sequence_elem :: "nat \<Rightarrow> ETCDStorage \<Rightarrow> 'z WorkerEnv \<Rightarrow> PowerSeqElem \<Rightarrow> Worker \<Rightarrow> ('z, Worker flow) io" where
  "sequence_elem fuel e we elm wk =
     (let powerAction = se_Action elm;
          tr = wk_tr wk;
          isSoft = (tr_Operation tr = Operation_SoftOff);
          noWait = (tr_TaskDeadline tr = 0);
          waitForever = (tr_TaskDeadline tr < 0);
          compList = concat (map (seq_get (wk_seq wk) powerAction) (se_CompTypes elm)) in
      if compList = [] then State_Monad.return (Next wk)
      else do {
        m \<leftarrow> (if wk_waitBMC wk then waitForBMC e compList (wk_map wk) else State_Monad.return (wk_map wk));
        (abort, err) \<leftarrow> checkAbort e tr;
        if abort then do {
          r \<leftarrow> doAbort e tr m;
          State_Monad.return (case r of None \<Rightarrow> Stuck | Some _ \<Rightarrow> Done) }
        else do {
          r \<leftarrow> hp_CheckDeputyKeys (we_HSM we) (wk_res wk);
          case r of None \<Rightarrow> State_Monad.return Stuck
          | Some (res, err) \<Rightarrow> do {
              m \<leftarrow> fold_io (expired_one e powerAction) res m;
              bind_flow (send_tier e we noWait powerAction compList m) (\<lambda>(m, tm).
                if tm \<noteq> [] \<or> \<not> noWait then do {
                  deadline \<leftarrow> (if waitForever then State_Monad.return None
                     else do { t \<leftarrow> now; State_Monad.return (Some (t + minutes (tr_TaskDeadline tr))) });
                  bind_flow (confirm_loop fuel e isSoft deadline powerAction tr m (wk_seq wk) tm) (\<lambda>(m, sm).
                    State_Monad.return (Next (wk\<lparr>wk_map := m, wk_seq := sm, wk_res := res,
                      wk_waitBMC := powers_bmc powerAction (se_CompTypes elm)\<rparr>))) }
                else State_Monad.return (Next (wk\<lparr>wk_map := m, wk_res := res, wk_waitBMC := False\<rparr>))) } } })"

text \<open>
  The worker up to its reservations, and the rest, after which the deferred
  \<open>ReleaseComponents\<close> runs on every return. The result tells whether it returned.
\<close>

definition phase_prepare :: "ETCDStorage \<Rightarrow> 'z WorkerEnv \<Rightarrow> uuid \<Rightarrow> ('z, (Transition \<times> seq_state) flow) io" where
  "phase_prepare e we tid =
     bind_flow (phase_setup e tid) (\<lambda>(tr, m, xnames).
     bind_flow (phase_states e tr m xnames) (\<lambda>(m, pStates). do {
       (m, hsmData) \<leftarrow> phase_hsm e (we_HSM we) xnames pStates m;
       (tr, m) \<leftarrow> fold_io (attach_one e pStates hsmData) xnames (tr, m);
       bind_flow (store_and_abort e tr m) (\<lambda>m.
       bind_flow (sequenceComponents e (tr_Operation tr) m) (\<lambda>st. State_Monad.return (Next (tr, st)))) }))"

definition phase_sequence :: "nat \<Rightarrow> ETCDStorage \<Rightarrow> 'z WorkerEnv \<Rightarrow> Transition \<Rightarrow> seq_state \<Rightarrow> ('z, Worker flow) io" where
  "phase_sequence fuel e we tr st = (case st of (m, sm, res) \<Rightarrow>
     bind_flow (fold_flow (sequence_elem fuel e we) PowerSequenceFull
       \<lparr>wk_tr = tr, wk_map = m, wk_seq = sm, wk_res = res, wk_waitBMC = False\<rparr>)
       (\<lambda>wk. complete e tr TransitionStatusCompleted))"

definition doTransition :: "nat \<Rightarrow> ETCDStorage \<Rightarrow> 'z WorkerEnv \<Rightarrow> uuid \<Rightarrow> ('z, bool) io" where
  "doTransition fuel e we tid = do {
     r \<leftarrow> bind_flow (phase_prepare e we tid) (\<lambda>(tr, st).
            bind_flow (phase_reserve e (we_HSM we) tr st) (\<lambda>st. do {
              r \<leftarrow> phase_sequence fuel e we tr st;
              case r of Stuck \<Rightarrow> State_Monad.return Stuck
              | _ \<Rightarrow> do {
                  rel \<leftarrow> hp_ReleaseComponents (we_HSM we) (snd (snd st));
                  State_Monad.return (if rel = None then Stuck else Done) } }));
     State_Monad.return (r \<noteq> (Stuck :: Worker flow)) }"

section \<open>A failed reservation\<close>

lemma run_StoreTransitionTask_quiet [run_simps]:
  "quiet w \<Longrightarrow> run_state (StoreTransitionTask e t) w = (None,
     (tick w)\<lparr>kvs := AList.update (fixUpKey (task_key (tt_TransitionID t) (tt_TaskID t))) (enc_Task t) (kvs w)\<rparr>)"
  by (simp add: StoreTransitionTask_def run_simps)

lemma reserve_fail_nil:
  "quiet w \<Longrightarrow> x \<in> set xs \<Longrightarrow> map_of m x = Some c \<Longrightarrow> open_task (co_Task c) \<Longrightarrow>
   fst (run_state (fold_flow (reserve_fail_one e) xs (m, None)) w) = Stuck"
proof (induction xs)
  case (Cons z xs)
  then show ?case
    by (cases "map_of m z") (auto simp: bind_flow_def reserve_fail_one_def)
qed simp

lemma open_fail [simp]: "\<not> open_task (co_Task (fail d er c))"
  by (simp add: open_task_def fail_def)

lemma reserve_fail_twice:
  "quiet w \<Longrightarrow> x \<in> set xs \<Longrightarrow> y \<in> set xs \<Longrightarrow> x \<noteq> y \<Longrightarrow> distinct xs \<Longrightarrow>
   map_of m x = Some c \<Longrightarrow> open_task (co_Task c) \<Longrightarrow> map_of m y = Some d \<Longrightarrow> open_task (co_Task d) \<Longrightarrow>
   fst (run_state (fold_flow (reserve_fail_one e) xs (m, Some er)) w) = Stuck"
proof (induction xs)
  case (Cons z xs)
  show ?case
  proof (cases "\<exists>b. map_of m z = Some b \<and> open_task (co_Task b)")
    case False
    then have "z \<noteq> x" "z \<noteq> y" using Cons.prems by auto
    with False Cons show ?thesis
      by (cases "map_of m z") (auto simp: bind_flow_def reserve_fail_one_def)
  next
    case True
    then obtain b where b: "map_of m z = Some b" "open_task (co_Task b)" by blast
    let ?b = "fail ''Error acquiring reservations'' er b"
    obtain w1 where w1: "run_state (reserve_fail_one e z (m, Some er)) w = (Next (AList.update z ?b m, None), w1)" "quiet w1"
      using b Cons.prems(1) by (simp add: reserve_fail_one_def run_simps Let_def)
    obtain u g where u: "u \<in> set xs" "map_of (AList.update z ?b m) u = Some g" "open_task (co_Task g)"
    proof (cases "z = x")
      case True
      with Cons.prems show ?thesis by (intro that [of y d]) auto
    next
      case False
      with Cons.prems show ?thesis by (intro that [of x c]) auto
    qed
    from reserve_fail_nil [OF w1(2) u] show ?thesis by (simp add: bind_flow_def w1(1))
  qed
qed simp

text \<open>
  C37: when the reservation service answers with an error and two components of the transition
  are still open, the worker dereferences a nil error while it fails the second one, and with
  it the service goes down: the loop overwrites the error it is reporting.
\<close>

theorem reserve_error_panics:
  assumes r: "run_state (hp_ReserveComponents hp res) w = (Some (Inl (er, st)), w1)" and w1: "quiet w1"
    and m: "distinct (keys m)" "x \<noteq> y"
    and x: "map_of m x = Some c" "open_task (co_Task c)"
    and y: "map_of m y = Some d" "open_task (co_Task d)"
  shows "fst (run_state (phase_reserve e hp tr (m, sm, res)) w) = Stuck"
proof -
  let ?xs = "shuffle (w_order w1 (ticks w1)) (keys m)"
  have k: "x \<in> set ?xs" "y \<in> set ?xs" "distinct ?xs"
    using m x y by (auto simp: map_of_in_keys)
  have "fst (run_state (fold_flow (reserve_fail_one e) ?xs (m, Some er)) (tick w1)) = Stuck"
    by (rule reserve_fail_twice [OF _ k(1,2) m(2) k(3) x y]) (simp add: w1)
  then show ?thesis
    using w1 by (simp add: phase_reserve_def r run_simps bind_flow_def case_prod_beta)
qed

section \<open>Nothing requested is lost\<close>

definition opened :: "xmap \<Rightarrow> xname set" where
  "opened m = {x. \<exists>c. map_of m x = Some c \<and> open_task (co_Task c)}"

lemma open_location_task: "open_task (location_task tr u loc) \<longleftrightarrow> tt_Status (location_task tr u loc) = TransitionTaskStatusNew"
  by (simp add: open_task_def location_task_def NewTransitionTask_def Let_def)

lemma opened_update: "opened (AList.update x c m) = (if open_task (co_Task c) then insert x (opened m) else opened m - {x})"
  by (auto simp: opened_def)

lemma setup_location_run:
  assumes r: "fst (run_state (setup_location e loc (tr, m, xs)) w) = (tr', m', xs')" and xs: "set xs = opened m"
  shows "set xs' = opened m' \<and> set (keys m) \<subseteq> set (keys m') \<and> loc_Xname loc \<in> set (keys m')"
proof (cases "map_of m (loc_Xname loc)")
  case None
  then have o: "loc_Xname loc \<notin> opened m" by (simp add: opened_def)
  let ?u = "fst (run_state new_uuid w)"
  have "m' = AList.update (loc_Xname loc) (task_component (location_task tr ?u loc)) m"
    "xs' = (if tt_Status (location_task tr ?u loc) = TransitionTaskStatusNew then xs @ [loc_Xname loc] else xs)"
    using r None by (auto simp: setup_location_def case_prod_beta Let_def)
  with xs o show ?thesis by (auto simp: opened_update task_component_def open_location_task)
next
  case (Some c)
  with r xs show ?thesis by (simp add: setup_location_def map_of_in_keys)
qed

lemma setup_locations_run:
  "fst (run_state (fold_io (setup_location e) locs (tr, m, xs)) w) = (tr', m', xs') \<Longrightarrow> set xs = opened m \<Longrightarrow>
   set xs' = opened m' \<and> set (keys m) \<subseteq> set (keys m') \<and> (\<forall>loc \<in> set locs. loc_Xname loc \<in> set (keys m'))"
proof (induction locs arbitrary: tr m xs w)
  case (Cons loc locs)
  obtain tr1 m1 xs1 w1 where r: "run_state (setup_location e loc (tr, m, xs)) w = ((tr1, m1, xs1), w1)"
    by (metis prod.collapse)
  have f: "fst (run_state (fold_io (setup_location e) locs (tr1, m1, xs1)) w1) = (tr', m', xs')"
    using Cons.prems(1) by (simp add: r)
  have one: "set xs1 = opened m1 \<and> set (keys m) \<subseteq> set (keys m1) \<and> loc_Xname loc \<in> set (keys m1)"
    by (rule setup_location_run [OF _ Cons.prems(2), where e = e and tr = tr and w = w and tr' = tr1]) (simp add: r)
  with Cons.IH [OF f] show ?case by auto
qed simp

lemma set_range_over: "set (fst (run_state (range_over xs) w)) = set xs"
  by (simp add: range_over_def step_def)

text \<open>The components rebuilt from stored tasks are keyed by the xname of their task.\<close>

definition keyed :: "xmap \<Rightarrow> bool" where
  "keyed m \<longleftrightarrow> distinct (keys m) \<and> (\<forall>(x, c) \<in> set m. tt_Xname (co_Task c) = x)"

lemma keyed_update: "keyed m \<Longrightarrow> tt_Xname (co_Task c) = x \<Longrightarrow> keyed (AList.update x c m)"
proof -
  assume k: "keyed m" and c: "tt_Xname (co_Task c) = x"
  have "tt_Xname (co_Task d) = y" if "(y, d) \<in> set (AList.update x c m)" for y d
  proof -
    have "map_of (AList.update x c m) y = Some d"
      using that k by (intro map_of_is_SomeI) (simp_all add: keyed_def keys_def distinct_update)
    then show ?thesis using c k map_of_SomeD [of m y d] by (auto simp: keyed_def split: if_splits)
  qed
  with k show ?thesis by (auto simp: keyed_def)
qed

lemma keyed_tasks: "keyed (foldl (\<lambda>m t. AList.update (tt_Xname t) (task_component t) m) [] tasks)"
  by (induction tasks rule: rev_induct) (auto simp: keyed_update task_component_def, simp add: keyed_def keys_def)

lemma setup_previous_xnames:
  "set (snd (fold (\<lambda>c. setup_previous known (co_Task c)) comps (tr, xs))) =
   set xs \<union> {tt_Xname (co_Task c) | c. c \<in> set comps \<and> open_task (co_Task c)}"
  by (induction comps arbitrary: tr xs) (auto simp: setup_previous_def)

lemma opened_keyed: "keyed m \<Longrightarrow> opened m = {tt_Xname (co_Task c) | c. c \<in> snd ` set m \<and> open_task (co_Task c)}"
proof -
  assume k: "keyed m"
  have e: "map_of m x = Some c \<longleftrightarrow> (x, c) \<in> set m" for x c
    using k by (simp add: keyed_def keys_def)
  have n: "tt_Xname (co_Task c) = x" if "(x, c) \<in> set m" for x c
    using k that unfolding keyed_def by blast
  show ?thesis
  proof (intro set_eqI iffI)
    fix x assume "x \<in> opened m"
    then obtain c where "(x, c) \<in> set m" "open_task (co_Task c)" by (auto simp: opened_def e)
    with n [of x c] show "x \<in> {tt_Xname (co_Task c) | c. c \<in> snd ` set m \<and> open_task (co_Task c)}" by force
  next
    fix x assume "x \<in> {tt_Xname (co_Task c) | c. c \<in> snd ` set m \<and> open_task (co_Task c)}"
    then obtain c y where "(y, c) \<in> set m" "open_task (co_Task c)" "x = tt_Xname (co_Task c)" by auto
    with n [of y c] show "x \<in> opened m" by (auto simp: opened_def e)
  qed
qed

lemma setup_covers:
  assumes "fst (run_state (setupTransitionTasks e tr) w) = (tr', m, xs)"
  shows "(\<forall>loc \<in> set (sl (tr_Location tr)). loc_Xname loc \<in> set (keys m)) \<and> set xs = opened m"
proof -
  obtain tasks err w1 where g: "run_state (GetAllTasksForTransition e (tr_TransitionID tr)) w = ((tasks, err), w1)"
    by (metis prod.collapse)
  let ?m = "foldl (\<lambda>m t. AList.update (tt_Xname t) (task_component t) m) [] tasks"
  obtain comps w2 where c: "run_state (range_over (map snd ?m)) w1 = (comps, w2)" by fastforce
  then have "set comps = set (map snd ?m)" by (metis set_range_over fst_conv)
  then have sc: "set comps = snd ` set ?m" by (simp only: set_map)
  obtain tr1 xs1 where p: "fold (\<lambda>c. setup_previous (sl (tr_TaskIDs tr)) (co_Task c)) comps (tr, []) = (tr1, xs1)"
    by fastforce
  have "set xs1 = opened ?m"
    using setup_previous_xnames [of "sl (tr_TaskIDs tr)" comps tr "[]"] p sc opened_keyed [OF keyed_tasks] by auto
  moreover have "fst (run_state (fold_io (setup_location e) (sl (tr_Location tr)) (tr1, ?m, xs1)) w2) = (tr', m, xs)"
    using assms by (simp add: setupTransitionTasks_def g c p Let_def)
  ultimately show ?thesis using setup_locations_run by blast
qed

text \<open>
  C23: setting up a transition loses no request: in every world, every requested location ends
  up with a component and a task in the worker's map (also when it restarts from stored tasks),
  and the worker's list of xnames is exactly the set of components with an open task.
\<close>

theorem setup_covers_request:
  assumes "fst (run_state (setupTransitionTasks e tr) w) = (tr', m, xs)"
  shows "(\<forall>loc \<in> set (sl (tr_Location tr)). loc_Xname loc \<in> set (keys m)) \<and> set xs = opened m"
  by (rule setup_covers [OF assms])

section \<open>Examples\<close>

text \<open>An HSM whose reservation service refuses, and two nodes that are still new.\<close>

definition offline_http :: "'z HsmHttp" where
  "offline_http = \<lparr>ht_query = (\<lambda>_. State_Monad.return (Http_Fail ''refused'')),
     ht_endpoints = (\<lambda>_. State_Monad.return (Http_Fail ''refused'')),
     ht_powermaps = State_Monad.return (Http_Fail ''refused'')\<rparr>"

definition refusing_hsm :: "'z HSMProvider" where
  "refusing_hsm = HSMv2 True ''http://smd'' 10 offline_http
     (granting_svc\<lparr>sv_FlexAquire := (\<lambda>_. State_Monad.return (Inl ''timeout''))\<rparr>)"

definition sample_xmap :: xmap where
  "sample_xmap = [(''x0c0s0b0n0'', task_component sample_task),
     (''x0c0s1b0n0'', task_component (sample_task\<lparr>tt_Xname := ''x0c0s1b0n0''\<rparr>))]"

lemma refused: "\<exists>st w'. run_state (hp_ReserveComponents refusing_hsm
     [new_reservation ''x0c0s0b0n0'' [] [], new_reservation ''x0c0s1b0n0'' [] []]) empty_world =
   (Some (Inl (''ERROR aquiring needed reservations: timeout'', st)), w') \<and> quiet w'"
  by (simp add: refusing_hsm_def HSMv2_def ReserveComponents_def Let_def then_stage_def reserve_reacquire_def
      reserve_deputies_def reserve_acquire_def res_keys_def dep_keys_def reserve_prepare_def needy_def
      new_reservation_def run_simps granting_svc_def)

theorem reserve_error_panics_witness:
  "fst (run_state (phase_reserve sample_etcd refusing_hsm sample_transition
     (sample_xmap, [], [new_reservation ''x0c0s0b0n0'' [] [], new_reservation ''x0c0s1b0n0'' [] []])) empty_world) = Stuck"
proof -
  obtain st w' where r: "run_state (hp_ReserveComponents refusing_hsm
     [new_reservation ''x0c0s0b0n0'' [] [], new_reservation ''x0c0s1b0n0'' [] []]) empty_world =
    (Some (Inl (''ERROR aquiring needed reservations: timeout'', st)), w')" "quiet w'"
    using refused by blast
  have n: "open_task (co_Task (task_component sample_task))"
    "open_task (co_Task (task_component (sample_task\<lparr>tt_Xname := ''x0c0s1b0n0''\<rparr>)))" by code_simp+
  show ?thesis
    by (rule reserve_error_panics [OF r, where x = "''x0c0s0b0n0''" and y = "''x0c0s1b0n0''",
        OF _ _ _ n(1) _ n(2)]) (simp_all add: sample_xmap_def keys_def)
qed

theorem setup_covers_request_witness:
  "''x0c0s1b0n0'' \<in> set (keys (fst (snd (fst (run_state (setupTransitionTasks sample_etcd sample_transition) empty_world)))))"
  using setup_covers_request [of sample_etcd sample_transition empty_world] by (cases
    "fst (run_state (setupTransitionTasks sample_etcd sample_transition) empty_world)") (auto simp: sample_transition_def)

end
