(* ===== verification/WorkerSafety.thy ===== *)
theory WorkerSafety
  imports TransitionWorker
begin

text \<open>
  What the worker guarantees on every run: a component whose task has failed stays failed and
  is sent nothing more, a node that could not be shut down keeps its compute module powered,
  and the confirmation of a tier ends once its deadline has passed. The first two are proved
  with a small calculus of postconditions for actions; the last with the interpretation of
  \<open>action_inv\<close> for the clock.
\<close>

section \<open>Postconditions of phases\<close>

definition nexts :: "('a \<Rightarrow> bool) \<Rightarrow> ('z, 'a flow) io \<Rightarrow> bool" where
  "nexts Q m \<longleftrightarrow> gives (\<lambda>r. \<forall>a. r = Next a \<longrightarrow> Q a) m"

lemma nexts_return [simp]: "nexts Q (State_Monad.return r) = (\<forall>a. r = Next a \<longrightarrow> Q a)"
  by (simp add: nexts_def)

lemma nextsD: "nexts Q m \<Longrightarrow> fst (run_state m w) = Next a \<Longrightarrow> Q a"
  by (simp add: nexts_def gives_def)

lemma nexts_skip: "(\<And>a. nexts R (f a)) \<Longrightarrow> nexts R (State_Monad.bind m f)"
  unfolding nexts_def by (rule gives_skip)

lemma nexts_gives: "gives Q m \<Longrightarrow> (\<And>a. Q a \<Longrightarrow> nexts R (f a)) \<Longrightarrow> nexts R (State_Monad.bind m f)"
  unfolding nexts_def by (rule gives_bind)

lemma nexts_bind: "nexts Q m \<Longrightarrow> (\<And>a. Q a \<Longrightarrow> nexts R (f a)) \<Longrightarrow> nexts R (bind_flow m f)"
  unfolding bind_flow_def nexts_def
  by (rule gives_bind [where Q = "\<lambda>r. \<forall>a. r = Next a \<longrightarrow> Q a"]) (auto split: flow.splits)

lemma nexts_cases:
  "(b \<Longrightarrow> nexts Q m) \<Longrightarrow> (\<not> b \<Longrightarrow> nexts Q n) \<Longrightarrow> nexts Q (if b then m else n)"
  "(\<And>u v. p = (u, v) \<Longrightarrow> nexts Q (f u v)) \<Longrightarrow> nexts Q (case p of (u, v) \<Rightarrow> f u v)"
  "(r = None \<Longrightarrow> nexts Q m) \<Longrightarrow> (\<And>a. r = Some a \<Longrightarrow> nexts Q (g a)) \<Longrightarrow> nexts Q (case r of None \<Rightarrow> m | Some a \<Rightarrow> g a)"
  by (auto split: prod.splits option.splits)

lemma nexts_fold: "(\<And>x b. x \<in> set xs \<Longrightarrow> I b \<Longrightarrow> nexts I (f x b)) \<Longrightarrow> I b \<Longrightarrow> nexts I (fold_flow f xs b)"
  by (induction xs arbitrary: b) (auto intro: nexts_bind)

section \<open>A failed task stays failed\<close>

definition failed_in :: "xname \<Rightarrow> xmap \<Rightarrow> bool" where
  "failed_in x m \<longleftrightarrow> (\<exists>c. map_of m x = Some c \<and> tt_Status (co_Task c) = TransitionTaskStatusFailed)"

lemma failed_update: "failed_in x m \<Longrightarrow> (y = x \<Longrightarrow> tt_Status (co_Task c) = TransitionTaskStatusFailed) \<Longrightarrow>
   failed_in x (AList.update y c m)"
  by (auto simp: failed_in_def)

lemma failed_fail [simp]: "tt_Status (co_Task (fail d er c)) = TransitionTaskStatusFailed"
  by (simp add: fail_def)

lemma failed_set_comp: "failed_in x m \<Longrightarrow>
   (\<And>c. y = x \<Longrightarrow> tt_Status (co_Task c) = TransitionTaskStatusFailed \<Longrightarrow> tt_Status (co_Task (f c)) = TransitionTaskStatusFailed) \<Longrightarrow>
   failed_in x (set_comp y f m)"
  by (auto simp: set_comp_def failed_in_def split: option.splits)

lemma gives_fail_parent: "failed_in x m \<Longrightarrow> gives (failed_in x) (fail_parent e er p m)"
  by (auto simp: fail_parent_def Let_def intro!: gives_skip failed_update split: option.splits)

lemma gives_failDependent: "failed_in x m \<Longrightarrow> gives (failed_in x) (failDependentComps e m pa y er)"
  unfolding failDependentComps_def by (intro gives_fold_io gives_fail_parent)

lemma gives_fail_with_deps: "failed_in x m \<Longrightarrow> gives (failed_in x) (fail_with_deps e pa y d er dep m)"
  unfolding fail_with_deps_def
  by (rule gives_bind [OF gives_failDependent]) (auto intro!: failed_set_comp gives_skip)

lemma gives_expired: "failed_in x m \<Longrightarrow> gives (failed_in x) (expired_one e pa res m)"
  by (auto simp: expired_one_def intro!: gives_fail_with_deps split: option.splits)

lemma gives_wait_one: "failed_in x (fst s) \<Longrightarrow> gives (\<lambda>s. failed_in x (fst s)) (wait_one e b y s)"
  unfolding wait_one_def
  by (cases s) (auto simp: Let_def intro!: gives_bind [where Q = "failed_in x"] gives_skip failed_set_comp)

lemma gives_wait_retry: "failed_in x m \<Longrightarrow> gives (failed_in x) (wait_retry e xs r n m)"
proof (induction n arbitrary: r m)
  case (Suc n)
  have "gives (\<lambda>s. failed_in x (fst s)) (fold_io (wait_one e (r = 0)) xs (m, False))"
    using Suc.prems by (intro gives_fold_io gives_wait_one) auto
  then show ?case
    unfolding wait_retry.simps by (rule gives_bind) (auto intro!: gives_skip Suc.IH)
qed simp

text \<open>The invariant while requests are prepared and answered: the component has no request.\<close>

definition unsent :: "xname \<Rightarrow> xmap \<Rightarrow> (uuid \<times> xname) list \<Rightarrow> bool" where
  "unsent x m tm \<longleftrightarrow> failed_in x m \<and> x \<notin> snd ` set tm"

lemma snd_update_subset: "snd ` set (AList.update i y tm) \<subseteq> insert y (snd ` set tm)"
  by (induction tm) auto

lemma unsent_update: "unsent x m tm \<Longrightarrow> y \<noteq> x \<Longrightarrow> unsent x m (AList.update i y tm)"
  using snd_update_subset [of i y tm] by (auto simp: unsent_def)

lemma unsent_delete: "unsent x m tm \<Longrightarrow> unsent x m (AList.delete i tm)"
  by (auto simp: unsent_def AList.delete_eq)

text \<open>Every request has an entry in the task map.\<close>

definition sent_ok :: "xname \<Rightarrow> send_state \<Rightarrow> bool" where
  "sent_ok x s = (case s of (m, tm, reqs, ids) \<Rightarrow>
     unsent x m tm \<and> (\<forall>r \<in> set reqs. map_of tm (rq_ID r) \<noteq> None))"

lemma nexts_send: "sent_ok x s \<Longrightarrow> nexts (sent_ok x) (send_one e we pa y s)"
proof -
  obtain m tm reqs ids where s: "s = (m, tm, reqs, ids)" by (metis prod.exhaust)
  assume a: "sent_ok x s"
  then have u: "unsent x m tm" by (simp add: s sent_ok_def)
  show ?thesis
  proof (cases "\<exists>c. map_of m y = Some c \<and> tt_Status (co_Task c) \<noteq> TransitionTaskStatusFailed")
    case False
    with a show ?thesis by (auto simp: s send_one_def split: option.splits)
  next
    case True
    then obtain c where c: "map_of m y = Some c" "tt_Status (co_Task c) \<noteq> TransitionTaskStatusFailed" by blast
    with u have ne: "y \<noteq> x" by (auto simp: unsent_def failed_in_def)
    have failing: "nexts (sent_ok x) (do { m' \<leftarrow> fail_with_deps e pa z d er dep m; State_Monad.return (Next (m', tm, reqs, js)) })"
      for z d er dep js
      using u a by (intro nexts_gives [OF gives_fail_with_deps]) (auto simp: s sent_ok_def unsent_def)
    have sending: "nexts (sent_ok x) (State_Monad.return (Next (AList.update y c' m, AList.update i y tm,
        reqs @ [\<lparr>rq_ID = i, rq_URL = url, rq_Payload = p, rq_Auth = auth\<rparr>], js)))" for c' i url p auth js
      using unsent_update [OF _ ne] u a ne by (auto simp: s sent_ok_def unsent_def failed_update)
    have waiting: "nexts (sent_ok x) (State_Monad.return (Next (m, AList.update i y tm, reqs, js)))" for i js
      using unsent_update [OF u ne] a by (auto simp: s sent_ok_def)
    show ?thesis
      unfolding s send_one_def Let_def prod.case c(1) option.case using c(2)
      by (auto intro: nexts_skip sending waiting failing simp del: bind_assoc split: option.splits sum.splits list.splits)
  qed
qed

lemma set_comp_other: "failed_in x m \<Longrightarrow> y \<noteq> x \<Longrightarrow> failed_in x (set_comp y f m)"
  by (rule failed_set_comp) auto

lemma nexts_response: "unsent x (fst s) (snd s) \<Longrightarrow>
   nexts (\<lambda>s. unsent x (fst s) (snd s)) (response_one e noWait pa d s)"
proof -
  obtain m tm where s: "s = (m, tm)" by fastforce
  assume "unsent x (fst s) (snd s)"
  then have u: "unsent x m tm" by (simp add: s)
  then have v: "failed_in x m" "map_of tm i = Some y \<Longrightarrow> y \<noteq> x" for i y
    by (simp_all add: unsent_def) (metis image_eqI map_of_SomeD snd_conv)
  have failing: "nexts (\<lambda>s. unsent x (fst s) (snd s)) (do { m' \<leftarrow> fail_with_deps e pa z a er dep m;
      State_Monad.return (Next (m', AList.delete i tm)) })" for z a er dep i
    using v u by (intro nexts_gives [OF gives_fail_with_deps]) (auto simp: unsent_def AList.delete_eq)
  have applied: "nexts (\<lambda>s. unsent x (fst s) (snd s)) (do { _ \<leftarrow> save_comp e y (set_comp y f m);
      State_Monad.return (Next (set_comp y f m, tm)) })" if "y \<noteq> x" for y f
    using u v set_comp_other [OF v(1) that] by (intro nexts_skip) (simp add: unsent_def)
  show ?thesis
    unfolding s response_one_def prod.case Let_def
    by (cases "map_of tm (td_ID d)"; cases "task_error d") (auto intro: failing applied dest: v(2))
qed

lemma gives_confirm: "unsent x (fst s) (snd s) \<Longrightarrow> snd ux \<noteq> x \<Longrightarrow>
   gives (\<lambda>s. unsent x (fst s) (snd s)) (confirm_one e pa ux s)"
proof -
  obtain m tm where s: "s = (m, tm)" by fastforce
  assume "unsent x (fst s) (snd s)" and ne: "snd ux \<noteq> x"
  then have u: "unsent x m tm" "failed_in x m" by (simp_all add: s unsent_def)
  have failing: "gives (\<lambda>s. unsent x (fst s) (snd s)) (do { m' \<leftarrow> fail_with_deps e pa z a er dep m;
      State_Monad.return (m', AList.delete i tm) })" for z a er dep i
    using u by (intro gives_bind [OF gives_fail_with_deps]) (auto simp: unsent_def AList.delete_eq)
  have confirmed: "gives (\<lambda>s. unsent x (fst s) (snd s)) (do { _ \<leftarrow> save_comp e (snd ux) (set_comp (snd ux) f m);
      State_Monad.return (set_comp (snd ux) f m, AList.delete i tm) })" for f i
    using u set_comp_other [OF u(2) ne] by (intro gives_skip) (auto simp: unsent_def AList.delete_eq)
  show ?thesis
    unfolding s confirm_one_def prod.case Let_def
    by (intro gives_skip) (auto intro: failing confirmed simp: u split: sum.splits)
qed

lemma gives_timeout: "failed_in x (fst s) \<Longrightarrow> gives (\<lambda>s. failed_in x (fst s)) (timeout_one e soft pa y s)"
  by (cases s) (auto simp: timeout_one_def intro!: gives_bind [OF gives_fail_with_deps] split: option.splits)

lemma gives_range_over: "gives (\<lambda>ys. set ys = set xs) (range_over xs)"
  by (simp add: gives_def set_range_over)

lemma gives_confirm_round: "unsent x m tm \<Longrightarrow>
   gives (\<lambda>s. unsent x (fst s) (snd s)) (do { uxs \<leftarrow> range_over tm; fold_io (confirm_one e pa) uxs (m, tm) })"
  by (rule gives_bind [OF gives_range_over], rule gives_fold_io, rule gives_confirm)
    (auto simp: unsent_def)

lemma nexts_abort: "nexts Q (do { r \<leftarrow> doAbort e tr m; State_Monad.return (case r of None \<Rightarrow> Stuck | Some _ \<Rightarrow> Done) })"
  by (rule nexts_skip) (simp split: option.splits)

lemma nexts_timed_out: "failed_in x m \<Longrightarrow> nexts (\<lambda>s. failed_in x (fst s))
   (do { (m, sm) \<leftarrow> fold_io (timeout_one e soft pa) xs (m, sm); State_Monad.return (Next (m, sm)) })"
  by (intro nexts_gives [OF gives_fold_io [OF gives_timeout]]) (auto split: prod.splits)

lemma nexts_confirm_loop: "unsent x m tm \<Longrightarrow>
   nexts (\<lambda>s. failed_in x (fst s)) (confirm_loop fuel e soft deadline pa tr m sm tm :: ('z, (xmap \<times> seqmap) flow) io)"
proof (induction fuel arbitrary: m tm)
  case (Suc fuel)
  let ?rest = "\<lambda>(m, tm). if tm = [] then State_Monad.return (Next (m, sm))
       else (case deadline of
           None \<Rightarrow> confirm_loop fuel e soft deadline pa tr m sm tm
         | Some dl \<Rightarrow> do {
             t \<leftarrow> now;
             if t > dl then do {
               xs \<leftarrow> range_over (map snd tm);
               (m, sm) \<leftarrow> fold_io (timeout_one e soft pa) xs (m, sm);
               State_Monad.return (Next (m, sm)) }
             else confirm_loop fuel e soft deadline pa tr m sm tm }) :: ('z, (xmap \<times> seqmap) flow) io"
  have "nexts (\<lambda>s. failed_in x (fst s)) (?rest s)" if "unsent x (fst s) (snd s)" for s
  proof (cases s)
    case (Pair m' tm')
    with that have u: "unsent x m' tm'" "failed_in x m'" by (simp_all add: unsent_def)
    show ?thesis
      unfolding Pair prod.case
      by (intro nexts_cases nexts_timed_out [OF u(2)] Suc.IH [OF u(1)] nexts_skip) (simp add: u(2))
  qed
  then have "nexts (\<lambda>s. failed_in x (fst s)) (do { uxs \<leftarrow> range_over tm; s \<leftarrow> fold_io (confirm_one e pa) uxs (m, tm); ?rest s })"
    unfolding bind_assoc [symmetric] by (rule nexts_gives [OF gives_confirm_round [OF Suc.prems]])
  then show ?case
    unfolding confirm_loop.simps
    by (intro nexts_skip [where m = "checkAbort e tr"]) (auto intro!: nexts_abort nexts_skip [where m = sleep] simp del: bind_assoc)
qed simp

lemma nexts_send_tier: "failed_in x m \<Longrightarrow>
   nexts (\<lambda>s. unsent x (fst s) (snd s)) (send_tier e we noWait pa xs m)"
proof -
  assume m: "failed_in x m"
  have "sent_ok x (m, [], [], ids)" for ids using m by (simp add: sent_ok_def unsent_def)
  then have sends: "nexts (sent_ok x) (fold_flow (send_one e we pa) xs (m, [], [], ids))" for ids
    by (intro nexts_fold nexts_send)
  have answers: "nexts (\<lambda>s. unsent x (fst s) (snd s)) (fold_flow (response_one e noWait pa) ds (m', tm))"
    if "unsent x m' tm" for ds m' tm
    using that by (intro nexts_fold nexts_response) auto
  show ?thesis
    unfolding send_tier_def
    by (intro nexts_skip nexts_bind [OF sends])
      (auto simp: sent_ok_def intro!: nexts_skip answers split: prod.splits)
qed

lemma nexts_sequence_elem: "failed_in x (wk_map wk) \<Longrightarrow>
   nexts (\<lambda>wk. failed_in x (wk_map wk)) (sequence_elem fuel e we elm wk)"
proof -
  assume m: "failed_in x (wk_map wk)"
  have wait: "gives (failed_in x) (if wk_waitBMC wk then waitForBMC e xs (wk_map wk) else State_Monad.return (wk_map wk))" for xs
    using m by (simp add: waitForBMC_def gives_wait_retry)
  have expire: "failed_in x m' \<Longrightarrow> gives (failed_in x) (fold_io (expired_one e pa) res m')" for m' pa res
    by (intro gives_fold_io gives_expired)
  show ?thesis
    unfolding sequence_elem_def Let_def
    by (intro nexts_cases nexts_abort nexts_gives [OF wait] nexts_gives [OF expire] nexts_bind [OF nexts_send_tier]
        nexts_bind [OF nexts_confirm_loop] nexts_skip)
      (auto simp: m unsent_def)
qed

section \<open>Safety\<close>

text \<open>
  C2: a component whose task has failed is sent nothing: whatever the other components of the
  tier are and in every world, none of the requests prepared for the tier belongs to it, and
  its task is still failed afterwards.
\<close>

theorem failed_gets_no_request:
  assumes "failed_in x m"
    and "fst (run_state (fold_flow (send_one e we powerAction) compList (m, [], [], ids)) w) = Next (m', tm, reqs, ids')"
  shows "failed_in x m' \<and> (\<forall>r \<in> set reqs. \<exists>y. map_of tm (rq_ID r) = Some y \<and> y \<noteq> x)"
proof -
  have "sent_ok x (m, [], [], ids)" using assms(1) by (simp add: sent_ok_def unsent_def)
  then have "nexts (sent_ok x) (fold_flow (send_one e we powerAction) compList (m, [], [], ids))"
    by (intro nexts_fold nexts_send)
  from nextsD [OF this assms(2)] have ok: "unsent x m' tm" "\<forall>r \<in> set reqs. map_of tm (rq_ID r) \<noteq> None"
    by (simp_all add: sent_ok_def)
  moreover have "map_of tm i \<noteq> Some x" for i
    using ok(1) unfolding unsent_def by (metis image_eqI map_of_SomeD snd_conv)
  ultimately show ?thesis unfolding unsent_def by (metis option.exhaust)
qed

text \<open>
  C1: the power sequence never revives a component: over any number of tiers, with whatever
  answers, timeouts, expired reservations and waits for controllers, a task that has failed is
  failed when the sequence is through.
\<close>

theorem failed_stays_failed:
  assumes "failed_in x (wk_map wk)"
    and "fst (run_state (fold_flow (sequence_elem fuel e we) elems wk) w) = Next wk'"
  shows "failed_in x (wk_map wk')"
proof -
  have "nexts (\<lambda>wk. failed_in x (wk_map wk)) (fold_flow (sequence_elem fuel e we) elems wk)"
    using assms(1) by (intro nexts_fold nexts_sequence_elem)
  from nextsD [OF this assms(2)] show ?thesis .
qed

lemma fail_parent_fails: "map_of m p = Some c \<Longrightarrow> gives (failed_in p) (fail_parent e er p m)"
  by (auto simp: fail_parent_def Let_def failed_in_def intro!: gives_skip)

text \<open>
  C3: a node that fails to shut down protects its compute module: when a step of a graceful
  shutdown fails for a node, the module two levels above is failed with it, so that by the
  above it is not powered off under the node that is still running.
\<close>

theorem node_failure_spares_module:
  assumes x: "GetHMSType x = Node" and p: "p = GetHMSCompParent (GetHMSCompParent x)" "p \<noteq> x"
    and m: "map_of m p = Some c"
    and r: "fst (run_state (fail_with_deps e ''gracefulshutdown'' x desc err depErrMsg m) w) = m'"
  shows "failed_in p m'"
proof -
  let ?m = "set_comp x (fail desc err) m"
  obtain ps where ps: "dependent_parents ?m ''gracefulshutdown'' x = p # ps"
    using x p by (simp add: dependent_parents_def)
  have "map_of ?m p = Some c" using m p(2) by (auto simp: set_comp_def split: option.splits)
  then have "gives (failed_in p) (failDependentComps e ?m ''gracefulshutdown'' x depErrMsg)"
    unfolding failDependentComps_def ps fold_io.simps
    by (intro gives_bind [OF fail_parent_fails] gives_fold_io gives_fail_parent)
  then have "gives (failed_in p) (fail_with_deps e ''gracefulshutdown'' x desc err depErrMsg m)"
    unfolding fail_with_deps_def by (rule gives_bind) (auto intro!: gives_skip)
  with r show ?thesis by (auto simp: gives_def)
qed

section \<open>The confirmation ends\<close>

context action_inv
begin

lemma keeps_save_comp [keeps_intro]: "keeps P (save_comp e x m)"
  unfolding save_comp_def by (intro keeps_intro)

lemma keeps_fail_with_deps [keeps_intro]: "keeps P (fail_with_deps e pa x d er dep m)"
  unfolding fail_with_deps_def failDependentComps_def fail_parent_def Let_def by (intro keeps_intro)

lemma keeps_sleep [keeps_intro]: "keeps P sleep"
  unfolding sleep_def by (intro keeps_intro)

lemma keeps_confirm_one [keeps_intro]: "keeps P (confirm_one e pa ux s)"
  unfolding confirm_one_def Let_def by (intro keeps_intro)

lemma keeps_setup [keeps_intro]: "keeps P (setupTransitionTasks e tr)"
  unfolding setupTransitionTasks_def setup_location_def Let_def by (intro keeps_intro)

lemma keeps_wait_retry [keeps_intro]: "keeps P (wait_retry e xs r n m)"
  by (induction n arbitrary: r m) (auto simp: wait_one_def Let_def intro!: keeps_intro)

end

lemma sleep_ticks: "Suc (ticks w) \<le> ticks (snd (run_state sleep w)) \<and> w_clock (snd (run_state sleep w)) = w_clock w"
  by (simp add: sleep_def step_def)

lemma clock_run: "keeps (clock_inv n c) m \<Longrightarrow> run_state m w = (a, w') \<Longrightarrow> clock_inv n c w \<Longrightarrow> clock_inv n c w'"
  using keepsD [of "clock_inv n c" m w] by simp

lemma doAbort_total: "tr_Operation tr \<noteq> Operation_Nil \<Longrightarrow> fst (run_state (doAbort e tr m) w) \<noteq> None"
  by (auto simp: doAbort_def case_prod_beta compress_total)

text \<open>
  The confirmation of a tier ends: if the clock is past the deadline from step \<open>N\<close> on, then
  \<open>N\<close> rounds are enough, whatever other instances write, whichever store calls fail and
  whatever state the components report.
\<close>

lemma confirm_loop_ends:
  assumes "tr_Operation tr \<noteq> Operation_Nil" and "\<forall>n \<ge> N. dl < w_clock w n"
    and "N \<le> ticks w + fuel" and "0 < fuel"
  shows "fst (run_state (confirm_loop fuel e isSoft (Some dl) powerAction tr m sm tm) w) \<noteq> Stuck"
  using assms(2-4)
proof (induction fuel arbitrary: w m tm)
  case (Suc fuel)
  obtain ab er w1 where w1: "run_state (checkAbort e tr) w = ((ab, er), w1)" by (metis prod.collapse)
  obtain w2 where w2: "run_state sleep w1 = ((), w2)" by (cases "run_state sleep w1") auto
  obtain uxs w3 where w3: "run_state (range_over tm) w2 = (uxs, w3)" by fastforce
  obtain m' tm' w4 where w4: "run_state (fold_io (confirm_one e powerAction) uxs (m, tm)) w3 = ((m', tm'), w4)"
    by (metis prod.collapse)
  let ?c = "w_clock w" and ?n = "Suc (ticks w)"
  have "clock_inv (ticks w) ?c w" by (simp add: clock_inv_def)
  then have "clock_inv (ticks w) ?c w1" by (rule clock_run [OF clock.keeps_checkAbort w1])
  then have "clock_inv ?n ?c w2" using sleep_ticks [of w1] w2 by (auto simp: clock_inv_def)
  then have "clock_inv ?n ?c w3" by (rule clock_run [OF clock.keeps_range_over w3])
  then have "clock_inv ?n ?c w4" by (rule clock_run [OF keeps_fold_io [OF clock.keeps_confirm_one] w4])
  then have k4: "?n \<le> ticks w4" "w_clock w4 = ?c" by (simp_all add: clock_inv_def)
  obtain t w5 where w5: "run_state now w4 = (t, w5)" by fastforce
  then have t: "t = ?c (ticks w4)" and k5: "ticks w5 = Suc (ticks w4)" "w_clock w5 = ?c"
    using k4 by (auto simp: now_def step_def)
  have "0 < fuel" if "\<not> dl < t"
    using that t k4(1) Suc.prems by (cases fuel) auto
  moreover have "N \<le> ticks w5 + fuel" "\<forall>n \<ge> N. dl < w_clock w5 n" using Suc.prems k4 k5 by auto
  ultimately have "fst (run_state (confirm_loop fuel e isSoft (Some dl) powerAction tr m' sm tm') w5) \<noteq> Stuck"
    if "\<not> dl < t" using that Suc.IH [of w5] by blast
  moreover obtain r w6 where "run_state (doAbort e tr m) w1 = (Some r, w6)"
    using doAbort_total [OF assms(1), of e m w1] by (cases "run_state (doAbort e tr m) w1") auto
  ultimately show ?case
    by (auto simp: w1 w2 w3 w4 w5 case_prod_beta)
qed simp

section \<open>Examples\<close>

definition sample_env :: "'z WorkerEnv" where
  "sample_env = \<lparr>we_HSM = refusing_hsm, we_Launch = (\<lambda>rs. State_Monad.return []), we_VaultEnabled = False,
     we_Creds = (\<lambda>_. State_Monad.return ([], []))\<rparr>"

definition sample_failed :: xmap where
  "sample_failed = [(''x0c0s0b0n0'', fail ''Failed'' ''Timeout'' sample_comp), (''x0c0s0'', sample_comp)]"

lemma sample_failed_in: "failed_in ''x0c0s0b0n0'' sample_failed"
  by (simp add: failed_in_def sample_failed_def)

theorem failed_gets_no_request_witness:
  "failed_in ''x0c0s0b0n0'' sample_failed \<and>
   fst (run_state (fold_flow (send_one sample_etcd sample_env ''on'') [''x0c0s0b0n0''] (sample_failed, [], [], [sample_uuid 7])) empty_world)
     = Next (sample_failed, [], [], [sample_uuid 7])"
proof -
  have r: "fst (run_state (fold_flow (send_one sample_etcd sample_env ''on'') [''x0c0s0b0n0''] (sample_failed, [], [], [sample_uuid 7])) empty_world)
     = Next (sample_failed, [], [], [sample_uuid 7])"
    by (simp add: bind_flow_def send_one_def sample_failed_def)
  with failed_gets_no_request [OF sample_failed_in r] show ?thesis by simp
qed

lemma sample_no_abort: "\<exists>er. run_state (checkAbort sample_etcd sample_transition) empty_world = ((False, er), tick empty_world)"
  by (simp add: checkAbort_def GetTransition_def run_simps)

lemma sample_tier: "\<exists>wk'. fst (run_state (fold_flow (sequence_elem 5 sample_etcd sample_env) [\<lparr>se_Action = ''on'', se_CompTypes = [Node]\<rparr>]
     \<lparr>wk_tr = sample_transition, wk_map = sample_failed, wk_seq = [((''on'', Node), [''x0c0s0b0n0''])], wk_res = [],
      wk_waitBMC = False\<rparr>) empty_world) = Next wk'"
proof -
  have d: "tr_TaskDeadline sample_transition = 0" by code_simp
  from sample_no_abort obtain er where
    "run_state (checkAbort sample_etcd sample_transition) empty_world = ((False, er), tick empty_world)" by blast
  then show ?thesis
    by (simp add: bind_flow_def sequence_elem_def seq_get_def Let_def sample_env_def refusing_hsm_def HSMv2_def
        CheckDeputyKeys_def send_tier_def send_one_def sample_failed_def run_simps d)
qed

theorem failed_stays_failed_witness:
  "\<exists>wk'. fst (run_state (fold_flow (sequence_elem 5 sample_etcd sample_env) [\<lparr>se_Action = ''on'', se_CompTypes = [Node]\<rparr>]
     \<lparr>wk_tr = sample_transition, wk_map = sample_failed, wk_seq = [((''on'', Node), [''x0c0s0b0n0''])], wk_res = [],
      wk_waitBMC = False\<rparr>) empty_world) = Next wk' \<and> failed_in ''x0c0s0b0n0'' (wk_map wk')"
proof -
  obtain wk' where r: "fst (run_state (fold_flow (sequence_elem 5 sample_etcd sample_env) [\<lparr>se_Action = ''on'', se_CompTypes = [Node]\<rparr>]
     \<lparr>wk_tr = sample_transition, wk_map = sample_failed, wk_seq = [((''on'', Node), [''x0c0s0b0n0''])], wk_res = [],
      wk_waitBMC = False\<rparr>) empty_world) = Next wk'"
    using sample_tier by blast
  from failed_stays_failed [OF _ r, of "''x0c0s0b0n0''"] r show ?thesis by (simp add: sample_failed_in)
qed

theorem node_failure_spares_module_witness:
  "failed_in ''x0c0s0'' (fst (run_state (fail_with_deps sample_etcd ''gracefulshutdown'' ''x0c0s0b0n0'' ''Failed'' ''Timeout'' ''Dependency''
     sample_failed) empty_world))"
proof -
  have t: "GetHMSType ''x0c0s0b0n0'' = Node" "''x0c0s0'' = GetHMSCompParent (GetHMSCompParent ''x0c0s0b0n0'')" by code_simp+
  have m: "map_of sample_failed ''x0c0s0'' = Some sample_comp" by (simp add: sample_failed_def)
  show ?thesis by (rule node_failure_spares_module [OF t _ m refl]) simp
qed

lemma confirm_loop_ends_example:
  "fst (run_state (confirm_loop 3 sample_etcd False (Some 2) ''on'' (sample_transition\<lparr>tr_Operation := Operation_On\<rparr>)
     sample_xmap [] [(sample_uuid 7, ''x0c0s0b0n0'')]) empty_world) \<noteq> Stuck"
  by (rule confirm_loop_ends [where N = 3]) (auto simp: empty_world_def)

end
