(* ===== verification/HsmContract.thy ===== *)
theory HsmContract
  imports TransitionWorker
begin

text \<open>
  The Go interface \<open>HSMProvider\<close> as a contract. \<open>hsm_contract\<close> states what the transition
  worker relies on; \<open>hsm_services\<close> states what is documented of the services behind the
  client: the state manager and the reservation library answer about what they are asked, and
  a reservation as a whole is not refused. The sublocale shows that \<open>HSMv2\<close>, the client of
  \<^verbatim>\<open>internal/hsm/state_manager.go\<close>, then keeps the contract.
\<close>

lemma gives_cases:
  "(b \<Longrightarrow> gives Q m) \<Longrightarrow> (\<not> b \<Longrightarrow> gives Q n) \<Longrightarrow> gives Q (if b then m else n)"
  "(\<And>u v. p = (u, v) \<Longrightarrow> gives Q (f u v)) \<Longrightarrow> gives Q (case p of (u, v) \<Rightarrow> f u v)"
  "(r = None \<Longrightarrow> gives Q m) \<Longrightarrow> (\<And>a. r = Some a \<Longrightarrow> gives Q (g a)) \<Longrightarrow> gives Q (case r of None \<Rightarrow> m | Some a \<Rightarrow> g a)"
  "(\<And>a. r' = Inl a \<Longrightarrow> gives Q (h a)) \<Longrightarrow> (\<And>b. r' = Inr b \<Longrightarrow> gives Q (i b)) \<Longrightarrow> gives Q (case r' of Inl a \<Rightarrow> h a | Inr b \<Rightarrow> i b)"
  by (auto split: prod.splits option.splits sum.splits)

lemma distinct_foldl_update: "distinct (keys m) \<Longrightarrow> distinct (keys (foldl (\<lambda>m a. AList.update (f a) (g a) m) m as))"
  by (induction as arbitrary: m) (auto simp: keys_def distinct_update)

section \<open>The laws of the provider\<close>

text \<open>
  What the worker relies on: data comes only for components that were asked for, the power map
  changes no entry of the list, a reservation keeps the slice and does not fail as a whole
  (a failure of a single component is reported in it), and no call meets a nil pointer.
\<close>

locale hsm_contract =
  fixes hp :: "'z HSMProvider"
  assumes fill: "gives (\<lambda>r. distinct (keys (fst r)) \<and> set (keys (fst r)) \<subseteq> set xs) (hp_FillHSMData hp xs)"
    and power: "gives (\<lambda>r. set (keys (fst r)) = set (keys h)) (hp_FillPowerMapData hp h)"
    and reserve: "gives (\<lambda>r. \<exists>res' got. r = Some (Inr (res', got)) \<and> map rd_XName res' = map rd_XName res) (hp_ReserveComponents hp res)"
    and check: "gives (\<lambda>r. r \<noteq> None) (hp_CheckDeputyKeys hp res)"
    and release: "gives (\<lambda>r. r \<noteq> None) (hp_ReleaseComponents hp res)"

section \<open>The services behind the client\<close>

definition never_refuses :: "('z, 'm) ReservationSvc_scheme \<Rightarrow> bool" where
  "never_refuses sv \<longleftrightarrow> (\<forall>ks. gives (\<lambda>r. \<exists>a. r = Inr a) (sv_Reacquire sv ks)) \<and>
     (\<forall>ks. gives (\<lambda>r. \<exists>a. r = Inr a) (sv_ValidateDeputyKeys sv ks)) \<and>
     (\<forall>xs. gives (\<lambda>r. \<exists>a. r = Inr a) (sv_FlexAquire sv xs))"

definition answers_names :: "('z, 'm) HsmHttp_scheme \<Rightarrow> bool" where
  "answers_names ht \<longleftrightarrow> (\<forall>xs. gives (\<lambda>r. \<forall>cs. r = Http_Ok cs \<longrightarrow> bd_ID ` set cs \<subseteq> set xs) (ht_query ht xs))"

text \<open>A stage of a reservation that was not refused as a whole.\<close>

abbreviation accepted :: "(err \<times> rsv_state + rsv_state) option \<Rightarrow> bool" where
  "accepted r \<equiv> \<forall>a. r \<noteq> Some (Inl a)"

lemma safe_accepted: "safe_stage ns r \<Longrightarrow> accepted r \<Longrightarrow> \<exists>res' got. r = Some (Inr (res', got)) \<and> map rd_XName res' = ns"
  by (cases r; cases "the r") (auto simp: safe_stage_def)

lemma http_error_Inr: "http_error url r = Inr a \<longleftrightarrow> r = Http_Ok a"
  by (cases r) (simp_all add: http_error_def Let_def)

locale hsm_services =
  fixes ht :: "'z HsmHttp" and sv :: "'z ReservationSvc"
  assumes asked: "answers_asked sv" and willing: "never_refuses sv" and names: "answers_names ht"
begin

text \<open>Reserving.\<close>

lemma accepted_then: "gives accepted m \<Longrightarrow> (\<And>st. gives accepted (f st)) \<Longrightarrow> gives accepted (then_stage m f)"
  unfolding then_stage_def by (rule gives_bind) (auto split: option.splits sum.splits)

lemma accepted_stages:
  "gives accepted (reserve_reacquire sv ks st)" "gives accepted (reserve_deputies sv ks' st)" "gives accepted (reserve_acquire sv st)"
proof -
  have w: "gives (\<lambda>r. \<exists>a. r = Inr a) (sv_Reacquire sv ks)" "gives (\<lambda>r. \<exists>a. r = Inr a) (sv_ValidateDeputyKeys sv ks')"
      "\<And>xs. gives (\<lambda>r. \<exists>a. r = Inr a) (sv_FlexAquire sv xs)"
    using willing by (simp_all add: never_refuses_def)
  show "gives accepted (reserve_reacquire sv ks st)"
    unfolding reserve_reacquire_def
    by (intro gives_cases gives_bind [OF w(1)] gives_skip [where m = "sv_FlexCheck sv xs" for xs]) auto
  show "gives accepted (reserve_deputies sv ks' st)"
    unfolding reserve_deputies_def by (intro gives_cases gives_bind [OF w(2)]) auto
  show "gives accepted (reserve_acquire sv st)"
    unfolding reserve_acquire_def
    by (rule gives_skip, intro gives_cases gives_bind [OF w(3)]) auto
qed

lemma reserve_accepted:
  "gives (\<lambda>r. \<exists>res' got. r = Some (Inr (res', got)) \<and> map rd_XName res' = map rd_XName res) (ReserveComponents lk sv res)"
proof -
  have "gives accepted (ReserveComponents lk sv res)"
    unfolding ReserveComponents_def Let_def
    by (intro gives_cases accepted_then accepted_stages) simp
  moreover have "gives (safe_stage (map rd_XName res)) (ReserveComponents lk sv res)"
    using ReserveComponents_safe [OF asked] by (simp add: gives_def)
  ultimately show ?thesis
    unfolding gives_def by (blast intro: safe_accepted)
qed

text \<open>Checking and releasing: two folds over answers about known components.\<close>

lemma two_updates:
  assumes "i ` set good \<subseteq> rd_XName ` set comps" "j ` set bad \<subseteq> rd_XName ` set comps"
    and "\<And>k r. rd_XName (f k r) = rd_XName r" "\<And>k r. rd_XName (g k r) = rd_XName r"
  shows "\<exists>c1 c2. upd_all i f good comps = Some c1 \<and> upd_all j g bad c1 = Some c2"
proof -
  obtain c1 where c1: "upd_all i f good comps = Some c1" "map rd_XName c1 = map rd_XName comps"
    using upd_all_known [of f i good comps] assms(1,3) by auto
  from assms(2) have "j ` set bad \<subseteq> set (map rd_XName c1)" unfolding c1(2) set_map .
  from upd_all_known [where f = g, OF assms(4) this] c1(1) show ?thesis by blast
qed

lemma asked_gives:
  "gives (\<lambda>r. \<forall>good bad. r = Inr (good, bad) \<longrightarrow> fst ` (set good \<union> set bad) \<subseteq> fst ` set ks) (sv_ValidateDeputyKeys sv ks)"
  "gives (\<lambda>r. \<forall>good bad. r = Inr (good, bad) \<longrightarrow> set good \<union> fst ` set bad \<subseteq> set xs) (sv_FlexRelease sv xs)"
  using asked by (simp_all add: answers_asked_def gives_def)

lemma check_safe: "gives (\<lambda>r. r \<noteq> None) (CheckDeputyKeys sv res)"
proof -
  let ?c = "map (\<lambda>r. r\<lparr>rd_Error := None\<rparr>) res"
  define ks where "ks = map (\<lambda>r. (rd_XName r, rd_DeputyKey r)) (filter (\<lambda>r. rd_DeputyKey r \<noteq> []) res)"
  have known: "fst ` set ks \<subseteq> rd_XName ` set ?c" by (auto simp: ks_def image_image)
  have upd: "\<exists>c1 c2. fold_opt (\<lambda>(i, ex). upd_comp i (\<lambda>r. r\<lparr>rd_ExpirationTime := ex, rd_Error := None\<rparr>)) good ?c = Some c1 \<and>
      fold_opt (\<lambda>(i, why). upd_comp i (\<lambda>r. r\<lparr>rd_Error := Some why\<rparr>)) bad c1 = Some c2"
    if a: "fst ` set good \<subseteq> fst ` set ks" "fst ` set bad \<subseteq> fst ` set ks" for good bad
    using two_updates [OF order_trans [OF a(1) known] order_trans [OF a(2) known],
        of "\<lambda>k r. r\<lparr>rd_ExpirationTime := snd k, rd_Error := None\<rparr>" "\<lambda>k r. r\<lparr>rd_Error := Some (snd k)\<rparr>"]
    by (simp add: upd_all_def case_prod_beta')
  show ?thesis
    unfolding CheckDeputyKeys_def Let_def ks_def [symmetric]
    apply (intro gives_cases gives_bind [OF asked_gives(1)])
    subgoal by simp
    subgoal by simp
    subgoal for r b good bad using upd [of good bad] by (auto simp: image_Un)
    done
qed

lemma release_safe: "gives (\<lambda>r. r \<noteq> None) (ReleaseComponents lk sv res)"
proof -
  define xs where "xs = map rd_XName (filter rd_ReservationOwner res)"
  have known: "set xs \<subseteq> rd_XName ` set res" by (auto simp: xs_def)
  have upd: "\<exists>c1 c2. fold_opt (\<lambda>i. upd_comp i (\<lambda>r. r\<lparr>rd_ReservationOwner := False, rd_ReservationKey := [],
                  rd_ExpirationTime := [], rd_DeputyKey := [], rd_Error := None\<rparr>)) good res = Some c1 \<and>
      fold_opt (\<lambda>(i, why). upd_comp i (\<lambda>r. r\<lparr>rd_Error := Some why\<rparr>)) bad c1 = Some c2"
    if a: "set good \<subseteq> set xs" "fst ` set bad \<subseteq> set xs" for good bad
    using two_updates [of "\<lambda>i. i", unfolded image_ident, OF order_trans [OF a(1) known] order_trans [OF a(2) known],
        of "\<lambda>k r. r\<lparr>rd_ReservationOwner := False, rd_ReservationKey := [],
          rd_ExpirationTime := [], rd_DeputyKey := [], rd_Error := None\<rparr>" "\<lambda>k r. r\<lparr>rd_Error := Some (snd k)\<rparr>"]
    by (simp add: upd_all_def case_prod_beta')
  show ?thesis
    unfolding ReleaseComponents_def Let_def xs_def [symmetric]
    apply (intro gives_cases gives_bind [OF asked_gives(2)])
    subgoal by simp
    subgoal by simp
    subgoal by simp
    subgoal for r b good bad using upd [of good bad] by auto
    done
qed

text \<open>Filling in the data.\<close>

lemma fill_groups_keys: "gives (\<lambda>r. keys (fst r) = keys m) (fill_groups ht smurl gs m)"
proof (induction gs arbitrary: m)
  case (Cons ids gs)
  then show ?case
    unfolding fill_groups.simps by (intro gives_skip gives_cases gives_mono [OF Cons.IH]) simp_all
qed simp

lemma fill_names: "gives (\<lambda>r. distinct (keys (fst r)) \<and> set (keys (fst r)) \<subseteq> set xs) (FillHSMData ht smurl n xs)"
proof -
  let ?ok = "\<lambda>h. distinct (keys h) \<and> set (keys h) \<subseteq> set xs"
  have known: "?ok (foldl (\<lambda>m c. AList.update (bd_ID c) (new_hsmdata c) m) [] cs)" if "bd_ID ` set cs \<subseteq> set xs" for cs
  proof -
    have "set (keys (foldl (\<lambda>m c. AList.update (bd_ID c) (new_hsmdata c) m) m0 cs)) \<subseteq> set (keys m0) \<union> bd_ID ` set cs" for m0
    proof (induction cs arbitrary: m0)
      case (Cons c cs)
      from Cons.IH [of "AList.update (bd_ID c) (new_hsmdata c) m0"] show ?case by auto
    qed simp
    from this [of "[]"] that distinct_foldl_update [of "[]"] show ?thesis by (auto simp: keys_def)
  qed
  have asks: "gives (\<lambda>r. \<forall>cs. r = Inr cs \<longrightarrow> bd_ID ` set cs \<subseteq> set xs) (GetStateComponents ht smurl xs)"
    unfolding GetStateComponents_def
    by (rule gives_bind [OF names [unfolded answers_names_def, rule_format]]) (simp add: http_error_Inr)
  have endpoints: "gives (\<lambda>r. keys (fst r) = keys m) (FillComponentEndpointData ht smurl n m)" for m
    unfolding FillComponentEndpointData_def by (intro gives_skip fill_groups_keys)
  show ?thesis
    unfolding FillHSMData_def Let_def
    apply (rule gives_bind [OF asks], intro gives_cases)
    subgoal by (simp add: keys_def)
    subgoal for r cs by (rule gives_bind [OF endpoints], intro gives_cases) (use known [of cs] in simp)
    done
qed

lemma power_names: "gives (\<lambda>r. set (keys (fst r)) = set (keys h)) (FillPowerMapData ht smurl h)"
proof -
  have "keys (foldl (\<lambda>m pm. case map_of m (pm_ID pm) of None \<Rightarrow> m
         | Some h \<Rightarrow> AList.update (pm_ID pm) (h\<lparr>hd_PoweredBy := pm_PoweredBy pm\<rparr>) m) h pms) = keys h" for pms :: "PowerMap list"
    by (induction pms arbitrary: h) (auto simp: in_keys_iff keys_alist_update_in split: option.splits)
  then show ?thesis
    unfolding FillPowerMapData_def by (intro gives_skip) (auto split: sum.splits)
qed

lemma v2_contract: "hsm_contract (HSMv2 lockEnabled smurl maxQuery ht sv)"
  by unfold_locales
    (unfold HSMv2_def HSMProvider.simps, (rule fill_names power_names reserve_accepted check_safe release_safe)+)

end

sublocale hsm_services \<subseteq> v2: hsm_contract "HSMv2 lockEnabled smurl maxQuery ht sv" for lockEnabled smurl maxQuery
  by (rule v2_contract)

section \<open>Services that keep the contract\<close>

text \<open>A state manager that knows every component it is asked about, with the granting reservations.\<close>

definition knowing_http :: "'z HsmHttp" where
  "knowing_http = \<lparr>ht_query = (\<lambda>xs. State_Monad.return (Http_Ok (map (\<lambda>x. \<lparr>bd_ID = x, bd_Type = HMSType_String (GetHMSType x),
       bd_State = ''Ready'', bd_Role = ''Compute'', bd_Class = ''Mountain''\<rparr>) xs))),
     ht_endpoints = (\<lambda>_. State_Monad.return (Http_Ok [])), ht_powermaps = State_Monad.return (Http_Ok [])\<rparr>"

interpretation ready_hsm: hsm_services knowing_http granting_svc
  by unfold_locales
    (simp_all add: granting_svc_answers, auto simp: never_refuses_def answers_names_def granting_svc_def knowing_http_def)

end
