(* ===== verification/WorkerReturns.thy ===== *)
theory WorkerReturns
  imports WorkerSafety HsmContract
begin

text \<open>
  The worker returns: \<open>doTransition\<close> on the HSM client of the service reaches its end without
  dereferencing nil and without waiting for ever, whatever other instances write, whichever
  calls of the store fail and whatever the hardware reports. What it needs from outside is
  collected in two locales: \<open>hsm_contract\<close>, the laws of the Go interface
  \<open>HSMProvider\<close>, which \<open>HSMv2\<close> satisfies when the services behind it answer about what they were
  asked, and \<open>worker_services\<close>, which adds the task launcher, the credentials and a clock
  that passes every deadline.
\<close>

section \<open>Runs that reach their end\<close>

text \<open>An action that keeps \<open>P\<close> and gives a value with \<open>Q\<close>, in every world with \<open>P\<close>.\<close>

definition holds :: "('z world_scheme \<Rightarrow> bool) \<Rightarrow> ('a \<Rightarrow> bool) \<Rightarrow> ('z, 'a) io \<Rightarrow> bool" where
  "holds P Q m \<longleftrightarrow> triple P m (\<lambda>r w. P w \<and> Q r)"

definition ok_flow :: "('a \<Rightarrow> bool) \<Rightarrow> 'a flow \<Rightarrow> bool" where
  "ok_flow Q r \<longleftrightarrow> (case r of Next a \<Rightarrow> Q a | Done \<Rightarrow> True | Stuck \<Rightarrow> False)"

lemma ok_flow_simps [simp]: "ok_flow Q (Next a) = Q a" "ok_flow Q Done" "\<not> ok_flow Q Stuck"
  by (simp_all add: ok_flow_def)

abbreviation lands :: "('z world_scheme \<Rightarrow> bool) \<Rightarrow> ('a \<Rightarrow> bool) \<Rightarrow> ('z, 'a flow) io \<Rightarrow> bool" where
  "lands P Q \<equiv> holds P (ok_flow Q)"

lemma holdsI: "keeps P m \<Longrightarrow> gives Q m \<Longrightarrow> holds P Q m"
  by (simp add: holds_def triple_def keeps_def gives_def)

lemma holdsD: "holds P Q m \<Longrightarrow> P w \<Longrightarrow> Q (fst (run_state m w))"
  by (simp add: holds_def triple_def)

lemma holds_keeps: "holds P Q m \<Longrightarrow> keeps P m"
  by (simp add: holds_def triple_def keeps_def)

lemma holds_return [simp]: "Q a \<Longrightarrow> holds P Q (State_Monad.return a)"
  by (simp add: holds_def triple_return)

lemma holds_bind: "holds P Q m \<Longrightarrow> (\<And>a. Q a \<Longrightarrow> holds P R (f a)) \<Longrightarrow> holds P R (State_Monad.bind m f)"
  by (simp add: holds_def triple_def split: prod.splits) (metis fst_conv snd_conv)

lemma holds_skip: "keeps P m \<Longrightarrow> (\<And>a. holds P R (f a)) \<Longrightarrow> holds P R (State_Monad.bind m f)"
  by (rule holds_bind [where Q = "\<lambda>_. True"], rule holdsI) (simp_all add: gives_def)

lemma holds_gives: "keeps P m \<Longrightarrow> gives Q m \<Longrightarrow> (\<And>a. Q a \<Longrightarrow> holds P R (f a)) \<Longrightarrow> holds P R (State_Monad.bind m f)"
  by (rule holds_bind [OF holdsI])

lemma holds_mono: "holds P Q m \<Longrightarrow> (\<And>a. Q a \<Longrightarrow> R a) \<Longrightarrow> holds P R m"
  by (simp add: holds_def triple_def)

lemma holds_cases:
  "(b \<Longrightarrow> holds P Q m) \<Longrightarrow> (\<not> b \<Longrightarrow> holds P Q n) \<Longrightarrow> holds P Q (if b then m else n)"
  "(\<And>u v. p = (u, v) \<Longrightarrow> holds P Q (f u v)) \<Longrightarrow> holds P Q (case p of (u, v) \<Rightarrow> f u v)"
  "(r = None \<Longrightarrow> holds P Q m) \<Longrightarrow> (\<And>a. r = Some a \<Longrightarrow> holds P Q (g a)) \<Longrightarrow> holds P Q (case r of None \<Rightarrow> m | Some a \<Rightarrow> g a)"
  "(\<And>a. r' = Inl a \<Longrightarrow> holds P Q (h a)) \<Longrightarrow> (\<And>b. r' = Inr b \<Longrightarrow> holds P Q (i b)) \<Longrightarrow> holds P Q (case r' of Inl a \<Rightarrow> h a | Inr b \<Rightarrow> i b)"
  by (auto split: prod.splits option.splits sum.splits)

lemma holds_fold: "(\<And>x b. x \<in> set xs \<Longrightarrow> I b \<Longrightarrow> holds P I (f x b)) \<Longrightarrow> I b \<Longrightarrow> holds P I (fold_io f xs b)"
  by (induction xs arbitrary: b) (auto intro: holds_bind)

lemma lands_bind: "lands P Q m \<Longrightarrow> (\<And>a. Q a \<Longrightarrow> lands P R (f a)) \<Longrightarrow> lands P R (bind_flow m f)"
  unfolding bind_flow_def by (rule holds_bind, assumption) (auto split: flow.splits)

lemma lands_fold: "(\<And>x b. x \<in> set xs \<Longrightarrow> I b \<Longrightarrow> lands P I (f x b)) \<Longrightarrow> I b \<Longrightarrow> lands P I (fold_flow f xs b)"
  by (induction xs arbitrary: b) (auto intro: lands_bind)

lemma lands_nexts:
  assumes "keeps P m" "\<And>w. P w \<Longrightarrow> fst (run_state m w) \<noteq> Stuck" "nexts Q m"
  shows "lands P Q m"
  unfolding holds_def triple_def
proof (intro allI impI conjI)
  fix w assume w: "P w"
  show "P (snd (run_state m w))" by (rule keepsD [OF assms(1) w])
  show "ok_flow Q (fst (run_state m w))"
    using assms(2) [OF w] nextsD [OF assms(3), of w] by (cases "fst (run_state m w)") auto
qed

lemma keeps_bind_flow [keeps_intro]: "keeps P m \<Longrightarrow> (\<And>a. keeps P (f a)) \<Longrightarrow> keeps P (bind_flow m f)"
  unfolding bind_flow_def by (intro keeps_bind) (auto split: flow.splits intro: keeps_return)

lemma keeps_fold_flow [keeps_intro]: "(\<And>x b. keeps P (f x b)) \<Longrightarrow> keeps P (fold_flow f xs b)"
  by (induction xs arbitrary: b) (auto intro: keeps_intro)

section \<open>The phases keep what every action keeps\<close>

context action_inv
begin

lemma keeps_gathering [keeps_intro]:
  "keeps P (hierarchy_loop e xs m bad)" "keeps P (getPowerStateHierarchy e xs)" "keeps P (getPowerSupplies e h)"
proof -
  show h: "keeps P (hierarchy_loop e xs m bad)" for xs m bad
    by (induction xs arbitrary: m bad) (auto simp: Let_def intro!: keeps_intro)
  then show "keeps P (getPowerStateHierarchy e xs)" by (simp add: getPowerStateHierarchy_def)
  show "keeps P (getPowerSupplies e h)" unfolding getPowerSupplies_def by (intro keeps_intro)
qed

lemma keeps_failing [keeps_intro]:
  "keeps P (missing_xname e x m)" "keeps P (fail_open e d er x m)" "keeps P (expired_one e pa r m)"
  "keeps P (timeout_one e soft pa x s)"
  unfolding missing_xname_def fail_open_def expired_one_def timeout_one_def Let_def
  by (cases "map_of m x", auto intro: keeps_intro) (auto split: option.splits prod.splits intro!: keeps_intro)

lemma keeps_attach [keeps_intro]: "keeps P (attach_one e ps hs x s)"
  by (auto simp: attach_one_def Let_def split: prod.splits option.splits intro!: keeps_intro)

lemma keeps_waitForBMC [keeps_intro]: "keeps P (waitForBMC e xs m)"
  unfolding waitForBMC_def by (rule keeps_wait_retry)

lemma keeps_draw_uuids [keeps_intro]: "keeps P (draw_uuids n)"
  by (induction n) (auto intro!: keeps_intro)

lemma keeps_storeTransition [keeps_intro]: "keeps P (storeTransition e tr)"
  unfolding storeTransition_def by (rule keeps_store_retry)

lemma keeps_confirm_loop [keeps_intro]: "keeps P (confirm_loop fuel e soft dl pa tr m sm tm)"
  by (induction fuel arbitrary: m sm tm) (auto split: option.splits intro!: keeps_intro)

end

section \<open>What the map of components provides\<close>

text \<open>A component that can be sequenced and sent: its state and its HSM data are there.\<close>

definition equipped :: "TransitionComponent \<Rightarrow> bool" where
  "equipped c \<longleftrightarrow> co_PState c \<noteq> None \<and> co_HSMData c \<noteq> None"

definition kitted :: "xname set \<Rightarrow> xmap \<Rightarrow> bool" where
  "kitted S m \<longleftrightarrow> (\<forall>x \<in> S. \<exists>c. map_of m x = Some c \<and> equipped c)"

definition ready :: "xmap \<Rightarrow> bool" where
  "ready m \<longleftrightarrow> (\<forall>x c. map_of m x = Some c \<and> open_task (co_Task c) \<longrightarrow> equipped c)"

text \<open>
  The changes the worker makes to a component after the data has been attached: nothing is
  taken away, and no task is opened again.
\<close>

definition kept :: "TransitionComponent \<Rightarrow> TransitionComponent \<Rightarrow> bool" where
  "kept c d \<longleftrightarrow> co_PState d = co_PState c \<and> co_HSMData d = co_HSMData c \<and> (open_task (co_Task d) \<longrightarrow> open_task (co_Task c))"

definition tame :: "xmap \<Rightarrow> xmap \<Rightarrow> bool" where
  "tame m m' \<longleftrightarrow> (\<forall>x. rel_option kept (map_of m x) (map_of m' x))"

lemma kept_refl [simp]: "kept c c"
  by (simp add: kept_def)

lemma kept_trans: "kept c d \<Longrightarrow> kept d b \<Longrightarrow> kept c b"
  by (simp add: kept_def)

lemma kept_equipped: "kept c d \<Longrightarrow> equipped d = equipped c"
  by (simp add: kept_def equipped_def)

lemma tame_refl [simp]: "tame m m"
  by (simp add: tame_def option.rel_refl)

lemma tame_trans: "tame m1 m2 \<Longrightarrow> tame m2 m3 \<Longrightarrow> tame m1 m3"
  unfolding tame_def by (metis option.rel_transp [of kept] kept_trans transp_def)

lemma tameD: "tame m m' \<Longrightarrow> map_of m x = Some c \<Longrightarrow> \<exists>d. map_of m' x = Some d \<and> kept c d"
  unfolding tame_def by (metis option.rel_cases option.sel option.distinct(1))

lemma tameD2: "tame m m' \<Longrightarrow> map_of m' x = Some d \<Longrightarrow> \<exists>c. map_of m x = Some c \<and> kept c d"
  unfolding tame_def by (metis option.rel_cases option.sel option.distinct(1))

lemma tame_kitted: "tame m m' \<Longrightarrow> kitted S m \<Longrightarrow> kitted S m'"
  unfolding kitted_def using kept_equipped tameD by blast

lemma tame_ready:
  assumes "tame m m'" "ready m"
  shows "ready m'"
  unfolding ready_def
proof (intro allI impI)
  fix x d assume d: "map_of m' x = Some d \<and> open_task (co_Task d)"
  with tameD2 [OF assms(1)] obtain c where c: "map_of m x = Some c" "kept c d" by blast
  with d have "open_task (co_Task c)" by (simp add: kept_def)
  with c(1) assms(2) have "equipped c" by (auto simp: ready_def)
  with kept_equipped [OF c(2)] show "equipped d" by simp
qed

lemma tame_opened:
  assumes "tame m m'"
  shows "opened m' \<subseteq> opened m"
proof
  fix x assume "x \<in> opened m'"
  then obtain d where d: "map_of m' x = Some d" "open_task (co_Task d)" by (auto simp: opened_def)
  with tameD2 [OF assms] obtain c where "map_of m x = Some c" "kept c d" by blast
  with d(2) show "x \<in> opened m" by (auto simp: opened_def kept_def)
qed

lemma tame_keys: "tame m m' \<Longrightarrow> set (keys m') = set (keys m)"
  unfolding set_eq_iff in_keys_iff using tameD tameD2 by (metis not_None_eq)

definition tame_change :: "(TransitionComponent \<Rightarrow> TransitionComponent) \<Rightarrow> bool" where
  "tame_change f \<longleftrightarrow> (\<forall>c. kept c (f c))"

lemma tame_fail [simp]: "tame_change (fail d er)"
  by (simp add: tame_change_def kept_def fail_def open_task_def)

lemma tame_update: "map_of m x = Some c \<Longrightarrow> tame_change f \<Longrightarrow> tame m (AList.update x (f c) m)"
  by (simp add: tame_def tame_change_def option.rel_refl)

lemma tame_set_comp: "tame_change f \<Longrightarrow> tame m (set_comp x f m)"
  by (auto simp: set_comp_def tame_update split: option.splits)

section \<open>Tame actions\<close>

lemma gives_tame_fold:
  assumes "\<And>x m. gives (tame m) (f x m)"
  shows "gives (tame m) (fold_io f xs m)"
  by (rule gives_fold_io) (use assms in \<open>auto intro: gives_mono tame_trans\<close>)

lemma gives_tame_update: "map_of m x = Some c \<Longrightarrow> tame_change f \<Longrightarrow>
   gives (tame m) (do { _ \<leftarrow> a; State_Monad.return (AList.update x (f c) m) })"
  by (rule gives_skip) (simp add: tame_update)

lemma tame_fail_parent: "gives (tame m) (fail_parent e er p m)"
  by (cases "map_of m p") (simp_all add: fail_parent_def Let_def gives_tame_update)

lemma tame_missing: "gives (tame m) (missing_xname e x m)"
  by (cases "map_of m x") (simp_all add: missing_xname_def Let_def gives_tame_update)

lemma tame_fail_open: "gives (tame m) (fail_open e d er x m)"
  by (cases "map_of m x") (auto simp: fail_open_def Let_def gives_tame_update)

lemma tame_abort: "gives (tame m) (abort_comp e x m)"
  by (cases "map_of m x") (auto simp: abort_comp_def Let_def gives_tame_update)

lemma tame_fail_with_deps: "gives (tame m) (fail_with_deps e pa x d er dep m)"
proof -
  have "gives (tame m) (failDependentComps e (set_comp x (fail d er) m) pa x dep)"
    unfolding failDependentComps_def
    by (rule gives_mono [OF gives_tame_fold [OF tame_fail_parent]]) (blast intro: tame_trans tame_set_comp tame_fail)
  then show ?thesis unfolding fail_with_deps_def by (rule gives_bind) (auto intro!: gives_skip)
qed

lemma tame_expired: "gives (tame m) (expired_one e pa r m)"
  by (auto simp: expired_one_def tame_fail_with_deps split: option.splits)

lemma tame_timeout: "gives (\<lambda>s. tame m (fst s)) (timeout_one e soft pa x (m, sm))"
  by (auto simp: timeout_one_def intro!: gives_bind [OF tame_fail_with_deps] split: option.splits)

section \<open>Gathering the data\<close>

definition same_request :: "Transition \<Rightarrow> Transition \<Rightarrow> bool" where
  "same_request tr tr' \<longleftrightarrow> tr_Operation tr' = tr_Operation tr \<and> tr_TaskDeadline tr' = tr_TaskDeadline tr"

lemma same_request_simps [simp]: "same_request tr tr" "same_request tr (tr\<lparr>tr_TaskIDs := ids\<rparr>)" "same_request tr (tr\<lparr>tr_Status := st\<rparr>)"
  by (simp_all add: same_request_def)

lemma same_request_trans: "same_request a b \<Longrightarrow> same_request b c \<Longrightarrow> same_request a c"
  by (simp add: same_request_def)

lemma same_setup_previous: "same_request tr (fst (fold (\<lambda>c. setup_previous known (co_Task c)) comps (tr, xs)))"
proof (induction comps arbitrary: tr xs)
  case (Cons c comps)
  obtain tr1 xs1 where p: "setup_previous known (co_Task c) (tr, xs) = (tr1, xs1)" by fastforce
  then have "same_request tr tr1" by (auto simp: setup_previous_def split: if_splits)
  with Cons.IH [of tr1 xs1] show ?case by (auto simp: p intro: same_request_trans)
qed simp

lemma same_setup_locations: "same_request tr (fst s) \<Longrightarrow> gives (\<lambda>s. same_request tr (fst s)) (fold_io (setup_location e) locs s)"
  by (rule gives_fold_io)
    (auto simp: setup_location_def Let_def same_request_def intro!: gives_skip split: prod.splits)

lemma gives_setup: "gives (\<lambda>(tr', m, xs). same_request tr tr' \<and> set xs = opened m) (setupTransitionTasks e tr)"
  unfolding gives_def
proof
  fix w :: "'z world_scheme"
  obtain tr' m xs where r: "fst (run_state (setupTransitionTasks e tr) w) = (tr', m, xs)" by (metis prod.exhaust)
  have "gives (\<lambda>s. same_request tr (fst s)) (setupTransitionTasks e tr :: ('z, setup_state) io)"
    unfolding setupTransitionTasks_def Let_def
    by (auto intro!: gives_skip same_setup_locations split: prod.splits) (metis fst_conv same_setup_previous)
  then have "same_request tr tr'" using r unfolding gives_def by (metis fst_conv)
  with setup_covers [OF r] r
  show "case fst (run_state (setupTransitionTasks e tr) w) of (tr', m, xs) \<Rightarrow> same_request tr tr' \<and> set xs = opened m" by simp
qed

text \<open>Every name asked for has a power state or is on the list of bad names.\<close>

lemma map_of_foldl_update: "map_of m x \<noteq> None \<Longrightarrow> map_of (foldl (\<lambda>m a. AList.update (f a) (g a) m) m as) x \<noteq> None"
  by (induction as arbitrary: m) (auto simp: update_conv')

lemma map_of_foldl_in: "a \<in> set as \<Longrightarrow> map_of (foldl (\<lambda>m a. AList.update (f a) (g a) m) m as) (f a) \<noteq> None"
proof (induction as arbitrary: m)
  case (Cons b as)
  then show ?case using map_of_foldl_update [of "AList.update (f b) (g b) m" "f b" f g as] by (cases "a = b") auto
qed simp

definition found :: "xname set \<Rightarrow> err + pmap \<times> xname list \<Rightarrow> bool" where
  "found X r \<longleftrightarrow> (case r of Inl _ \<Rightarrow> True | Inr (m, bad) \<Rightarrow> distinct (keys m) \<and> (\<forall>x \<in> X. map_of m x \<noteq> None \<or> x \<in> set bad))"

lemma gives_hierarchy: "distinct (keys m) \<Longrightarrow> (\<And>x. x \<in> X \<Longrightarrow> map_of m x \<noteq> None \<or> x \<in> set bad) \<Longrightarrow>
   gives (found (X \<union> set xs)) (hierarchy_loop e xs m bad :: ('z, err + pmap \<times> xname list) io)"
proof (induction xs arbitrary: X m bad)
  case Nil
  then show ?case by (auto simp: found_def)
next
  case (Cons x xs)
  define Y where "Y = X \<union> set (x # xs)"
  let ?G = "gives (found Y) :: ('z, err + pmap \<times> xname list) io \<Rightarrow> bool"
  have i: "insert x X \<union> set xs = Y" by (auto simp: Y_def)
  note IH = Cons.IH [where X = "insert x X", unfolded i]
  have skip: "?G (hierarchy_loop e xs m (bad @ [x]))"
    by (rule IH) (use Cons.prems in auto)
  have add: "?G (hierarchy_loop e xs (AList.update x ps m) bad)" for ps
    by (rule IH) (use Cons.prems in \<open>auto simp: keys_def distinct_update\<close>)
  have routers: "?G (hierarchy_loop e xs (foldl (\<lambda>m ps. AList.update (ps_XName ps) ps m) m rs)
      (if list_ex (\<lambda>ps. ps_XName ps = x) rs then bad else bad @ [x]))" for rs
  proof (rule IH)
    show "distinct (keys (foldl (\<lambda>m ps. AList.update (ps_XName ps) ps m) m rs))" by (rule distinct_foldl_update) fact
    fix y assume "y \<in> insert x X"
    then show "map_of (foldl (\<lambda>m ps. AList.update (ps_XName ps) ps m) m rs) y \<noteq> None \<or>
        y \<in> set (if list_ex (\<lambda>ps. ps_XName ps = x) rs then bad else bad @ [x])"
      using Cons.prems(2) [of y] map_of_foldl_update [of m y ps_XName "\<lambda>ps. ps" rs] map_of_foldl_in [of _ rs ps_XName "\<lambda>ps. ps" m]
      by (auto simp: list_ex_iff)
  qed
  have known: "?G (hierarchy_loop e xs m bad)" if "map_of m x \<noteq> None"
    by (rule IH) (use Cons.prems that in auto)
  have stop: "?G (State_Monad.return (Inl er))" for er by (simp add: found_def)
  show ?case
    unfolding hierarchy_loop.simps Let_def Y_def [symmetric]
    by (intro gives_cases gives_skip known skip add routers stop)
qed

lemma gives_states: "gives (found (set xs)) (getPowerStateHierarchy e xs)"
  using gives_hierarchy [of "[]" "{}" "[]" xs e] by (simp add: getPowerStateHierarchy_def keys_def)

text \<open>A fold that closes the tasks of the names it runs over.\<close>

lemma gives_closing:
  assumes "\<And>x m. x \<in> X \<Longrightarrow> gives (\<lambda>m'. tame m m' \<and> x \<notin> opened m') (f x m)" "\<And>x m. gives (tame m) (f x m)"
  shows "gives (\<lambda>m'. tame m m' \<and> opened m' \<subseteq> opened m - (X \<inter> set xs)) (fold_io f xs m)"
proof (induction xs arbitrary: m)
  case (Cons x xs)
  have one: "gives (\<lambda>m'. tame m m' \<and> opened m' \<subseteq> opened m - (X \<inter> {x})) (f x m)"
    using assms(1) [of x m] assms(2) [of m x] by (cases "x \<in> X") (auto elim!: gives_mono dest: tame_opened)
  show ?case
    unfolding fold_io.simps
    by (rule gives_bind [OF one], rule gives_mono [OF Cons.IH]) (auto intro: tame_trans dest: tame_opened)
qed (simp add: gives_def)

lemma closes_missing: "gives (\<lambda>m'. tame m m' \<and> x \<notin> opened m') (missing_xname e x m)"
  by (cases "map_of m x")
    (auto simp: missing_xname_def Let_def opened_def tame_update intro!: gives_skip)

lemma closes_fail_open: "gives (\<lambda>m'. tame m m' \<and> x \<notin> opened m') (fail_open e d er x m)"
  by (cases "map_of m x")
    (auto simp: fail_open_def Let_def opened_def tame_update intro!: gives_skip)

section \<open>The HSM phase\<close>

text \<open>The components without HSM data are failed, all of them after an error.\<close>

abbreviation with_data :: "xmap \<Rightarrow> hsm_map \<Rightarrow> xmap \<Rightarrow> bool" where
  "with_data m h m' \<equiv> tame m m' \<and> opened m' \<subseteq> set (keys h)"

lemma gives_fail_all: "tame m m0 \<Longrightarrow> opened m \<subseteq> set xs \<Longrightarrow> gives (with_data m h) (fold_io (fail_open e d er) xs m0)"
  by (rule gives_mono [OF gives_closing [where X = UNIV, OF closes_fail_open tame_fail_open]])
    (auto intro: tame_trans dest: tame_opened)

lemma gives_fail_missing:
  assumes "opened m \<subseteq> set xs"
  shows "gives (with_data m h) (fold_io (\<lambda>x m. if map_of h x = None then fail_open e d er x m else State_Monad.return m) xs m)"
proof -
  have "gives (\<lambda>m'. tame m m' \<and> opened m' \<subseteq> opened m - ({x. map_of h x = None} \<inter> set xs))
      (fold_io (\<lambda>x m. if map_of h x = None then fail_open e d er x m else State_Monad.return m) xs m)"
    by (rule gives_closing) (auto simp: closes_fail_open tame_fail_open)
  then show ?thesis by (rule gives_mono) (use assms in \<open>auto simp: in_keys_iff\<close>)
qed

lemma asked_all:
  assumes "distinct (keys h)" "set (keys h) \<subseteq> set ys" "distinct ys" "length h = length ys"
  shows "set (keys h) = set ys"
proof -
  have "card (set (keys h)) = card (set ys)"
    using assms(4) distinct_card [OF assms(1)] distinct_card [OF assms(3)] by (simp add: keys_def)
  with assms(2) show ?thesis by (intro card_subset_eq) auto
qed

context hsm_contract
begin

text \<open>After the HSM phase every component with an open task has HSM data.\<close>

lemma gives_phase_hsm:
  assumes d: "distinct (keys ps)" and o: "opened m \<subseteq> set xs" "opened m \<subseteq> set (keys ps)"
  shows "gives (\<lambda>r. with_data m (snd r) (fst r)) (phase_hsm e hp xs ps m)"
  unfolding phase_hsm_def
  apply (rule gives_bind [where Q = "\<lambda>ys. set ys = set (keys ps) \<and> distinct ys"])
  subgoal using d by (simp add: gives_def range_over_def step_def)
  subgoal for ys
    apply (rule gives_bind [OF fill], rule gives_cases)
    subgoal for r h err
      apply (rule gives_bind [where Q = "with_data m h"])
      subgoal by (intro gives_cases gives_fail_all gives_fail_missing) (use o asked_all [of h ys] in auto)
      subgoal
        apply (rule gives_bind [OF power], rule gives_cases)
        apply (rule gives_bind [where Q = "with_data m h"])
        subgoal using o(1) by (intro gives_cases gives_fail_all) auto
        subgoal by auto
        done
      done
    done
  done

end

section \<open>Attaching the data\<close>

text \<open>Before the names \<open>xs\<close> are done, a component with an open task is equipped or still to come.\<close>

definition attaching :: "pmap \<Rightarrow> hsm_map \<Rightarrow> xname list \<Rightarrow> xmap \<Rightarrow> bool" where
  "attaching ps h xs m \<longleftrightarrow> (\<forall>x c. map_of m x = Some c \<and> open_task (co_Task c) \<longrightarrow>
     equipped c \<or> x \<in> set xs \<and> map_of ps x \<noteq> None \<and> map_of h x \<noteq> None)"

lemma attaching_update: "attaching ps h (x # xs) m \<Longrightarrow> equipped c \<Longrightarrow> attaching ps h xs (AList.update x c m)"
  by (auto simp: attaching_def)

lemma attaching_set_comp: "attaching ps h xs m \<Longrightarrow> tame_change f \<Longrightarrow> attaching ps h xs (set_comp x f m)"
  unfolding set_comp_def attaching_def
  by (auto simp: tame_change_def kept_def equipped_def split: option.splits)

lemma attaching_done: "attaching ps h (x # xs) m \<Longrightarrow>
    (\<And>c. map_of m x = Some c \<Longrightarrow> open_task (co_Task c) \<Longrightarrow> map_of ps x \<noteq> None \<Longrightarrow> map_of h x \<noteq> None \<Longrightarrow> equipped c) \<Longrightarrow>
    attaching ps h xs m"
  by (auto simp: attaching_def)

lemma gives_attach_one:
  assumes "attaching ps h (x # xs) m"
  shows "gives (\<lambda>s. same_request tr (fst s) \<and> attaching ps h xs (snd s)) (attach_one e ps h x (tr, m))"
proof -
  have a: "tame_change (\<lambda>c. c\<lparr>co_Actions := as\<rparr>)" for as by (simp add: tame_change_def kept_def)
  have w2: "attaching ps h (x # y # xs) m" for y using assms by (auto simp: attaching_def)
  show ?thesis
    unfolding attach_one_def Let_def prod.case
    by (auto split: option.splits intro!: gives_skip attaching_set_comp attaching_update
        assms w2 attaching_done [OF assms] simp: equipped_def a)
qed

lemma gives_attach: "attaching ps h xs m \<Longrightarrow>
  gives (\<lambda>s. same_request tr (fst s) \<and> ready (snd s)) (fold_io (attach_one e ps h) xs (tr, m))"
proof (induction xs arbitrary: tr m)
  case Nil
  then show ?case by (auto simp: attaching_def ready_def)
next
  case (Cons x xs)
  show ?case
    unfolding fold_io.simps
    by (rule gives_bind [OF gives_attach_one [OF Cons.prems]])
      (auto intro!: gives_mono [OF Cons.IH] intro: same_request_trans)
qed

section \<open>Sequencing and reserving\<close>

lemma seq_operation_kept: "seq_operation acts operation x psf c = Some (c', acs) \<Longrightarrow> open_task (co_Task c) \<Longrightarrow> kept c c'"
  by (cases operation)
    (auto simp: seq_operation_def seq_soft_restart_def seq_hard_restart_def seq_init_def Let_def kept_def plan_def already_def
      finish_def fail_def split: if_splits option.splits Option.bind_splits)

lemma sequence_component_kept:
  assumes "sequence_component acts operation x c = Some s"
  shows "kept c (ss_Comp s)" "ss_Actions s \<noteq> [] \<Longrightarrow> open_task (co_Task c)" "ss_Res s = Some r \<Longrightarrow> rd_XName r = x"
  using assms
  by (auto simp: sequence_component_def reservation_of_def new_reservation_def seq_operation_kept split: if_splits Option.bind_splits)
    (auto simp: kept_def)

lemma sequence_component_total:
  assumes "operation \<notin> {Operation_Nil, Operation_SoftRestart}" "open_task (co_Task c) \<Longrightarrow> co_PState c \<noteq> None"
  shows "sequence_component acts operation x c \<noteq> None"
  using assms by (cases operation) (auto simp: sequence_component_def seq_operation_def case_prod_beta)

definition queued :: "seqmap \<Rightarrow> xname set" where
  "queued sm = {x. \<exists>a ty. x \<in> set (seq_get sm a ty)}"

lemma queued_Nil [simp]: "queued [] = {}"
  by (simp add: queued_def seq_get_def)

lemma seq_get_add: "set (seq_get (seq_add ty x a sm) b ty') \<subseteq> insert x (set (seq_get sm b ty'))"
proof (cases "(b, ty') = (a, ty)")
  case True
  then show ?thesis by (simp add: seq_add_def seq_get_def)
next
  case False
  then have "map_of (seq_add ty x a sm) (b, ty') = map_of sm (b, ty')"
    unfolding seq_add_def map_of_update_eq by (rule fun_upd_other)
  then show ?thesis by (auto simp: seq_get_def)
qed

lemma queued_add: "queued (seq_add ty x a sm) \<subseteq> insert x (queued sm)"
  unfolding queued_def using seq_get_add by fastforce

lemma queued_adds: "queued (fold (seq_add ty x) as sm) \<subseteq> queued sm \<union> (if as = [] then {} else {x})"
proof (induction as arbitrary: sm)
  case (Cons a as)
  have "queued (fold (seq_add ty x) as (seq_add ty x a sm)) \<subseteq> queued (seq_add ty x a sm) \<union> {x}"
    using Cons.IH [of "seq_add ty x a sm"] by (auto split: if_splits)
  with queued_add [of ty x a sm] show ?case by auto
qed simp

definition equips :: "xmap \<Rightarrow> xname set" where
  "equips m = {x. \<exists>c. map_of m x = Some c \<and> equipped c}"

lemma kitted_equips: "kitted (equips m) m"
  by (auto simp: kitted_def equips_def)

definition sequenced :: "xmap \<Rightarrow> seq_state \<Rightarrow> bool" where
  "sequenced m st \<longleftrightarrow> (case st of (m', sm, res) \<Rightarrow>
     tame m m' \<and> queued sm \<subseteq> equips m \<and> rd_XName ` set res \<subseteq> set (keys m))"

context action_inv
begin

lemma lands_sequence_step:
  assumes op: "operation \<notin> {Operation_Nil, Operation_SoftRestart}" and r: "ready m"
    and x: "x \<in> set (keys m)" and st: "sequenced m st"
  shows "lands P (sequenced m) (sequence_step e operation x st)"
proof -
  obtain m' sm res where s: "st = (m', sm, res)" by (metis prod.exhaust)
  with st have t: "tame m m'" "queued sm \<subseteq> equips m" "rd_XName ` set res \<subseteq> set (keys m)" by (simp_all add: sequenced_def)
  from x t(1) obtain c where c: "map_of m' x = Some c" by (auto simp: in_keys_iff dest: tameD)
  have eq: "equipped c" if "open_task (co_Task c)" using tame_ready [OF t(1) r] c that by (auto simp: ready_def)
  then have "sequence_component (\<lambda>i. map_option co_Actions (map_of m' i)) operation x c \<noteq> None"
    by (intro sequence_component_total op) (simp add: equipped_def)
  then obtain q where q: "sequence_component (\<lambda>i. map_option co_Actions (map_of m' i)) operation x c = Some q" by blast
  note k = sequence_component_kept [OF q]
  have t': "tame m' (AList.update x (ss_Comp q) m')"
    using c k(1) by (simp add: tame_def option.rel_refl)
  have x': "x \<in> equips m" if "ss_Actions q \<noteq> []"
    using eq k(2) that tameD2 [OF t(1) c] kept_equipped by (auto simp: equips_def)
  have "sequenced m (AList.update x (ss_Comp q) m', fold (seq_add (GetHMSType x) x) (ss_Actions q) sm,
      res @ (case ss_Res q of None \<Rightarrow> [] | Some r \<Rightarrow> [r]))"
    using tame_trans [OF t(1) t'] t x x' queued_adds [of "GetHMSType x" x "ss_Actions q" sm] k(3)
    by (auto simp: sequenced_def split: option.splits if_splits)
  then show ?thesis
    by (auto simp: s sequence_step_def c q intro!: holds_skip keeps_intro)
qed

lemma lands_sequence:
  assumes "operation \<notin> {Operation_Nil, Operation_SoftRestart}" "ready m"
  shows "lands P (sequenced m) (sequenceComponents e operation m)"
  unfolding sequenceComponents_def
proof (rule holds_gives [OF keeps_range_over gives_range_over])
  fix xs assume "set xs = set (keys m)"
  then show "lands P (sequenced m) (fold_flow (sequence_step e operation) xs (m, [], []))"
    by (intro lands_fold lands_sequence_step assms) (auto simp: sequenced_def)
qed

lemma lands_reserve_one:
  assumes m: "ready m" "tame m m'" and r: "rd_XName res \<in> set (keys m)"
  shows "lands P (tame m) (reserve_one e reserved got res m')"
proof -
  from r m(2) obtain c where c: "map_of m' (rd_XName res) = Some c" by (auto simp: in_keys_iff dest: tameD)
  have "equipped c" if "open_task (co_Task c)" using tame_ready [OF m(2,1)] c that by (auto simp: ready_def)
  then have a: "reserve_failed_action c \<noteq> None" if "open_task (co_Task c)"
    using that by (auto simp: reserve_failed_action_def equipped_def split: Operation.splits)
  have f: "tame_change (upd_task (\<lambda>t. t\<lparr>tt_ReservationKey := k, tt_DeputyKey := d\<rparr>))" for k d
    by (simp add: tame_change_def kept_def open_task_def)
  have failing: "lands P (tame m) (do { m'' \<leftarrow> fail_with_deps e pa y d er dep m'; State_Monad.return (Next m'') })"
    for pa y d er dep
    by (rule holds_gives [OF keeps_fail_with_deps tame_fail_with_deps]) (use m(2) tame_trans in simp)
  have keyed: "lands P (tame m) (do { _ \<leftarrow> save_comp e y (AList.update (rd_XName res) (g c) m');
      State_Monad.return (Next (AList.update (rd_XName res) (g c) m')) })" if "tame_change g" for g y
    by (rule holds_skip [OF keeps_save_comp]) (use tame_trans [OF m(2) tame_update [OF c that]] in simp)
  show ?thesis
    unfolding reserve_one_def c option.case Let_def
    using a by (intro holds_cases keyed f) (auto simp: m(2) intro: failing split: prod.splits option.splits)
qed

end

section \<open>The power sequence\<close>

lemma kitted_update: "kitted S m \<Longrightarrow> (x \<in> S \<Longrightarrow> equipped c) \<Longrightarrow> kitted S (AList.update x c m)"
  by (auto simp: kitted_def)

lemma kitted_set_comp: "kitted S m \<Longrightarrow> (\<And>c. equipped (f c) = equipped c) \<Longrightarrow> kitted S (set_comp x f m)"
  by (auto simp: set_comp_def kitted_def split: option.splits)

lemma kitted_fail_with_deps: "kitted S m \<Longrightarrow> gives (kitted S) (fail_with_deps e pa x d er dep m)"
  by (rule gives_mono [OF tame_fail_with_deps]) (rule tame_kitted)

definition sent :: "xname set \<Rightarrow> send_state \<Rightarrow> bool" where
  "sent S st \<longleftrightarrow> (case st of (m, tm, reqs, ids) \<Rightarrow>
     kitted S m \<and> snd ` set tm \<subseteq> S \<and> rq_ID ` set reqs \<subseteq> set (keys tm))"

lemma snd_update: "y \<in> S \<Longrightarrow> snd ` set tm \<subseteq> S \<Longrightarrow> snd ` set (AList.update i y tm) \<subseteq> S"
  using snd_update_subset [of i y tm] by (meson insert_subset order_trans)

definition answering :: "xname set \<Rightarrow> uuid set \<Rightarrow> xmap \<times> (uuid \<times> xname) list \<Rightarrow> bool" where
  "answering S is st \<longleftrightarrow> (case st of (m, tm) \<Rightarrow> kitted S m \<and> snd ` set tm \<subseteq> S \<and> is \<subseteq> set (keys tm))"

text \<open>The services of the worker, in worlds with \<open>P\<close>: nothing they do is hidden from \<open>P\<close>, the
  launcher answers each request at most once, and \<open>fuel\<close> steps outlast the deadline.\<close>

locale worker_services = action_inv P + hsm_contract "we_HSM we"
  for P :: "'z world_scheme \<Rightarrow> bool" and we :: "'z WorkerEnv" +
  fixes fuel :: nat and patience :: int
  assumes keeps_hsm [keeps_intro]: "keeps P (hp_FillHSMData (we_HSM we) xs)" "keeps P (hp_FillPowerMapData (we_HSM we) h)"
      "keeps P (hp_ReserveComponents (we_HSM we) res)" "keeps P (hp_CheckDeputyKeys (we_HSM we) res)"
      "keeps P (hp_ReleaseComponents (we_HSM we) res)"
    and keeps_services [keeps_intro]: "keeps P (we_Launch we rs)" "keeps P (we_Creds we x)"
    and launch: "gives (\<lambda>ds. distinct (map td_ID ds) \<and> td_ID ` set ds \<subseteq> rq_ID ` set rs) (we_Launch we rs)"
    and outlasts: "P w \<Longrightarrow> fuel \<le> k \<Longrightarrow> w_clock w n + patience < w_clock w (n + k)"
    and patient: "0 \<le> patience"
begin

lemma lands_send_one:
  assumes st: "sent S st" and x: "x \<in> S" and ids: "snd (snd (snd st)) \<noteq> []"
  shows "lands P (\<lambda>st'. sent S st' \<and> length (snd (snd (snd st))) \<le> Suc (length (snd (snd (snd st'))))) (send_one e we pa x st)"
proof -
  obtain m tm reqs i js where s: "st = (m, tm, reqs, i # js)" using ids by (cases st) (auto simp: neq_Nil_conv)
  from st have k: "kitted S m" "snd ` set tm \<subseteq> S" "rq_ID ` set reqs \<subseteq> set (keys tm)" by (simp_all add: s sent_def)
  then obtain c where c: "map_of m x = Some c" "equipped c" using x by (auto simp: kitted_def)
  then obtain ps h where e: "co_PState c = Some ps" "co_HSMData c = Some h" by (auto simp: equipped_def)
  let ?Q = "\<lambda>st'. sent S st' \<and> length (i # js) \<le> Suc (length (snd (snd (snd st'))))"
  have failing: "lands P ?Q (do { m' \<leftarrow> fail_with_deps e pa y d er dep m; State_Monad.return (Next (m', tm, reqs, i # js)) })"
    for y d er dep
    by (rule holds_gives [OF keeps_fail_with_deps kitted_fail_with_deps [OF k(1)]]) (simp add: sent_def k)
  have waiting: "lands P ?Q (do { u \<leftarrow> new_uuid; State_Monad.return (Next (m, AList.update u x tm, reqs, i # js)) })"
    by (rule holds_skip [OF keeps_new_uuid], rule holds_return) (use k snd_update [OF x k(2)] in \<open>auto simp: sent_def\<close>)
  have sending: "sent S (AList.update x c' m, AList.update i x tm, reqs @ [\<lparr>rq_ID = i, rq_URL = u, rq_Payload = p, rq_Auth = a\<rparr>], js)"
    if "equipped c'" for c' u p a
    using k snd_update [OF x k(2)] that by (auto simp: sent_def kitted_update)
  have up: "equipped (upd_task f c)" for f using c(2) by (simp add: equipped_def)
  show ?thesis
    unfolding s send_one_def prod.case c(1) option.case Let_def e list.case snd_conv
    by (intro holds_cases waiting failing holds_skip keeps_intro)
      (use k in \<open>auto simp: sent_def intro!: holds_return sending [unfolded sent_def, simplified] up\<close>)
qed

lemma lands_sends:
  "sent S st \<Longrightarrow> set xs \<subseteq> S \<Longrightarrow> length xs \<le> length (snd (snd (snd st))) \<Longrightarrow>
   lands P (sent S) (fold_flow (send_one e we pa) xs st)"
proof (induction xs arbitrary: st)
  case (Cons x xs)
  then have "x \<in> S" "snd (snd (snd st)) \<noteq> []" by auto
  note one = lands_send_one [OF Cons.prems(1) this]
  show ?case
    unfolding fold_flow.simps by (rule lands_bind [OF one], rule Cons.IH) (use Cons.prems in auto)
qed simp

lemma lands_response_one:
  assumes st: "answering S (insert (td_ID d) is) st" and d: "td_ID d \<notin> is"
  shows "lands P (answering S is) (response_one e noWait pa d st)"
proof -
  obtain m tm where s: "st = (m, tm)" by fastforce
  with st have k: "kitted S m" "snd ` set tm \<subseteq> S" "td_ID d \<in> set (keys tm)" "is \<subseteq> set (keys tm)" by (auto simp: answering_def)
  then obtain x where x: "map_of tm (td_ID d) = Some x" by (auto simp: in_keys_iff)
  have del: "snd ` set (AList.delete i tm) \<subseteq> S" for i using k(2) by (auto simp: AList.delete_eq)
  have keys: "is \<subseteq> set (keys (AList.delete (td_ID d) tm))" using k(4) d by (auto simp: in_keys_iff delete_conv')
  have failing: "lands P (answering S is) (do { m' \<leftarrow> fail_with_deps e pa x a er dep m;
      State_Monad.return (Next (m', AList.delete (td_ID d) tm)) })" for a er dep
    by (rule holds_gives [OF keeps_fail_with_deps kitted_fail_with_deps [OF k(1)]]) (simp add: answering_def del keys)
  have applied: "lands P (answering S is) (do { _ \<leftarrow> save_comp e x (set_comp x f m); State_Monad.return (Next (set_comp x f m, tm)) })"
    if "\<And>c. equipped (f c) = equipped c" for f
    by (rule holds_skip [OF keeps_save_comp]) (use k kitted_set_comp [OF k(1) that] in \<open>simp add: answering_def\<close>)
  show ?thesis
    unfolding s response_one_def prod.case x option.case Let_def
    by (intro holds_cases failing applied) (auto simp: equipped_def)
qed

lemma lands_responses:
  "answering S (td_ID ` set ds) st \<Longrightarrow> distinct (map td_ID ds) \<Longrightarrow>
   lands P (answering S {}) (fold_flow (response_one e noWait pa) ds st)"
proof (induction ds arbitrary: st)
  case (Cons d ds)
  show ?case
    unfolding fold_flow.simps
    by (rule lands_bind [OF lands_response_one Cons.IH]) (use Cons.prems in auto)
qed simp

lemma gives_draw_uuids: "gives (\<lambda>us. length us = n) (draw_uuids n)"
proof (induction n)
  case (Suc n)
  show ?case unfolding draw_uuids.simps by (rule gives_skip, rule gives_bind [OF Suc.IH]) simp
qed simp

lemma lands_send_tier:
  assumes "kitted S m" "set xs \<subseteq> S"
  shows "lands P (answering S {}) (send_tier e we noWait pa xs m)"
  unfolding send_tier_def
proof (rule holds_gives [OF keeps_draw_uuids gives_draw_uuids], rule lands_bind)
  fix ids :: "uuid list" assume "length ids = length xs"
  then show "lands P (sent S) (fold_flow (send_one e we pa) xs (m, [], [], ids))"
    using assms by (intro lands_sends) (auto simp: sent_def)
next
  fix st assume st: "sent S st"
  obtain m' tm reqs ids where s: "st = (m', tm, reqs, ids)" by (metis prod.exhaust)
  show "lands P (answering S {}) (case st of (m, tm, reqs, ids) \<Rightarrow>
       if reqs = [] then State_Monad.return (Next (m, tm))
       else do { dones \<leftarrow> we_Launch we reqs; fold_flow (response_one e noWait pa) dones (m, tm) })"
    unfolding s prod.case
  proof (intro holds_cases)
    show "lands P (answering S {}) (State_Monad.return (Next (m', tm)))" using st by (simp add: s sent_def answering_def)
    show "lands P (answering S {}) (do { dones \<leftarrow> we_Launch we reqs; fold_flow (response_one e noWait pa) dones (m', tm) })"
    proof (rule holds_gives [OF keeps_services(1) launch], rule lands_responses)
      fix ds assume ds: "distinct (map td_ID ds) \<and> td_ID ` set ds \<subseteq> rq_ID ` set reqs"
      then show "distinct (map td_ID ds)" by simp
      from ds st have "td_ID ` set ds \<subseteq> rq_ID ` set reqs" "rq_ID ` set reqs \<subseteq> set (keys tm)" by (simp_all add: s sent_def)
      then have "td_ID ` set ds \<subseteq> set (keys tm)" by (rule order_trans)
      with st show "answering S (td_ID ` set ds) (m', tm)" by (simp add: s sent_def answering_def)
    qed
  qed
qed

end

text \<open>The confirmation keeps the components of the tier and the queues.\<close>

definition confirming :: "xname set \<Rightarrow> xmap \<times> (uuid \<times> xname) list \<Rightarrow> bool" where
  "confirming S st \<longleftrightarrow> kitted S (fst st) \<and> snd ` set (snd st) \<subseteq> S"

definition settled :: "xname set \<Rightarrow> xmap \<times> seqmap \<Rightarrow> bool" where
  "settled S st \<longleftrightarrow> kitted S (fst st) \<and> queued (snd st) \<subseteq> S"

lemma gives_confirm_one:
  assumes st: "confirming S st"
  shows "gives (confirming S) (confirm_one e pa ux st)"
proof -
  obtain m tm where s: "st = (m, tm)" by fastforce
  with st have k: "kitted S m" "snd ` set tm \<subseteq> S" by (simp_all add: confirming_def)
  have del: "snd ` set (AList.delete i tm) \<subseteq> S" for i using k(2) by (auto simp: AList.delete_eq)
  have failing: "gives (confirming S) (do { m' \<leftarrow> fail_with_deps e pa x a er dep m;
      State_Monad.return (m', AList.delete i tm) })" for x a er dep i
    by (rule gives_bind [OF kitted_fail_with_deps [OF k(1)]]) (simp add: confirming_def del)
  have confirmed: "gives (confirming S) (do { _ \<leftarrow> save_comp e x (set_comp x f m);
      State_Monad.return (set_comp x f m, AList.delete i tm) })" if "\<And>c. equipped (f c) = equipped c" for x f i
    using kitted_set_comp [OF k(1) that] by (intro gives_skip) (simp add: confirming_def del)
  show ?thesis
    unfolding s confirm_one_def prod.case Let_def
    by (intro gives_skip gives_cases failing confirmed) (auto simp: equipped_def confirming_def k)
qed

lemma gives_timeout_one:
  assumes st: "settled S st" and x: "x \<in> S"
  shows "gives (settled S) (timeout_one e soft pa x st)"
proof -
  obtain m sm where s: "st = (m, sm)" by fastforce
  with st have k: "kitted S m" "queued sm \<subseteq> S" by (simp_all add: settled_def)
  have add: "queued (seq_add ty x a sm) \<subseteq> S" for ty a using queued_add [of ty x a sm] k(2) x by blast
  have failing: "gives (settled S) (do { m' \<leftarrow> fail_with_deps e pa y a er dep m; State_Monad.return (m', sm) })" for y a er dep
    by (rule gives_bind [OF kitted_fail_with_deps [OF k(1)]]) (simp add: settled_def k)
  show ?thesis
    unfolding s timeout_one_def prod.case
    by (intro gives_cases failing) (simp_all add: settled_def k add)
qed

lemma nexts_confirm_settled:
  "confirming S (m, tm) \<Longrightarrow> queued sm \<subseteq> S \<Longrightarrow>
   nexts (settled S) (confirm_loop fuel e soft deadline pa tr m sm tm :: ('z, (xmap \<times> seqmap) flow) io)"
proof (induction fuel arbitrary: m tm)
  case (Suc fuel)
  let ?rest = "\<lambda>(m, tm). if tm = [] then State_Monad.return (Next (m, sm))
       else (case deadline of
           None \<Rightarrow> confirm_loop fuel e soft deadline pa tr m sm tm
         | Some dl \<Rightarrow> do {
             t \<leftarrow> now;
             if t > dl then do {
               xs \<leftarrow> range_over (map snd tm);
               (m, sm) \<leftarrow> fold_io (timeout_one e soft pa) xs (m, sm);
               State_Monad.return (Next (m, sm)) }
             else confirm_loop fuel e soft deadline pa tr m sm tm }) :: ('z, (xmap \<times> seqmap) flow) io"
  have timed: "nexts (settled S) (do { xs \<leftarrow> range_over (map snd tm'); (m, sm) \<leftarrow> fold_io (timeout_one e soft pa) xs (m', sm);
      State_Monad.return (Next (m, sm)) } :: ('z, (xmap \<times> seqmap) flow) io)" if c: "confirming S (m', tm')" for m' tm'
  proof (rule nexts_gives [OF gives_range_over])
    fix xs assume xs: "set xs = set (map snd tm')"
    have "gives (settled S) (fold_io (timeout_one e soft pa) xs (m', sm) :: ('z, xmap \<times> seqmap) io)"
      by (intro gives_fold_io gives_timeout_one) (use c xs Suc.prems(2) in \<open>auto simp: settled_def confirming_def\<close>)
    then show "nexts (settled S) (do { (m, sm) \<leftarrow> fold_io (timeout_one e soft pa) xs (m', sm);
        State_Monad.return (Next (m, sm)) } :: ('z, (xmap \<times> seqmap) flow) io)"
      by (rule nexts_gives) (auto split: prod.splits)
  qed
  have "nexts (settled S) (?rest st)" if "confirming S st" for st
  proof (cases st)
    case (Pair m' tm')
    with that have c: "confirming S (m', tm')" by simp
    then show ?thesis
      unfolding Pair prod.case
      by (intro nexts_cases timed [OF c] Suc.IH [OF c Suc.prems(2)] nexts_skip [where m = now])
        (auto simp: settled_def confirming_def Suc.prems(2))
  qed
  then have "nexts (settled S) (do { uxs \<leftarrow> range_over tm; st \<leftarrow> fold_io (confirm_one e pa) uxs (m, tm); ?rest st })"
    by (intro nexts_skip [where m = "range_over tm"] nexts_gives [OF gives_fold_io [where I = "confirming S"]] gives_confirm_one Suc.prems(1))
  then show ?case
    unfolding confirm_loop.simps
    by (intro nexts_skip [where m = "checkAbort e tr"]) (auto intro!: nexts_abort nexts_skip [where m = sleep] simp del: bind_assoc)
qed simp

section \<open>Waiting, aborting, completing\<close>

lemma tame_wait_one: "tame m (fst s) \<Longrightarrow> gives (\<lambda>s. tame m (fst s)) (wait_one e b y s)"
proof -
  assume t: "tame m (fst s)"
  obtain m0 wt where s: "s = (m0, wt)" by fastforce
  have d: "tame_change (upd_task (\<lambda>t. t\<lparr>tt_StatusDesc := d\<rparr>))" for d
    by (simp add: tame_change_def kept_def open_task_def)
  have "gives (tame m) (if b then do {
      let m1 = set_comp y (upd_task (\<lambda>t. t\<lparr>tt_StatusDesc := ''Waiting for controller to be ready''\<rparr>)) m0;
      _ \<leftarrow> save_comp e y m1;
      State_Monad.return m1 } else State_Monad.return m0)"
    using t tame_trans [OF _ tame_set_comp [OF d]] by (auto simp: s Let_def intro!: gives_skip)
  then show ?thesis
    unfolding wait_one_def s prod.case by (rule gives_bind) (auto intro!: gives_skip)
qed

lemma tame_wait_retry: "gives (tame m) (wait_retry e xs r n m)"
proof (induction n arbitrary: r m)
  case (Suc n)
  have "gives (\<lambda>s. tame m (fst s)) (fold_io (wait_one e (r = 0)) xs (m, False))"
    by (intro gives_fold_io tame_wait_one) auto
  then show ?case
    unfolding wait_retry.simps
    by (rule gives_bind) (auto intro!: gives_skip gives_mono [OF Suc.IH] intro: tame_trans split: prod.splits)
qed simp

lemma tame_waitForBMC: "gives (tame m) (waitForBMC e xs m)"
  by (simp add: waitForBMC_def tame_wait_retry)

lemma gives_completed: "tr_Operation tr \<noteq> Operation_Nil \<Longrightarrow> gives (\<lambda>r. r = Some ()) (compressAndCompleteTransition e tr st)"
  by (simp add: gives_def compress_total)

lemma gives_doAbort:
  assumes "tr_Operation tr \<noteq> Operation_Nil"
  shows "gives (\<lambda>r. \<exists>m'. r = Some m' \<and> tame m m') (doAbort e tr m)"
  unfolding doAbort_def
  by (rule gives_skip, rule gives_bind [OF gives_tame_fold [OF tame_abort]], rule gives_bind [OF gives_completed [OF assms]]) simp

lemma bind_flow_assoc: "bind_flow (State_Monad.bind m f) g = State_Monad.bind m (\<lambda>a. bind_flow (f a) g)"
  by (simp add: bind_flow_def)

context action_inv
begin

lemma lands_complete: "tr_Operation tr \<noteq> Operation_Nil \<Longrightarrow> lands P Q (complete e tr st)"
  unfolding complete_def
  by (rule holds_gives [OF keeps_compress gives_completed]) simp_all

lemma lands_aborted: "tr_Operation tr \<noteq> Operation_Nil \<Longrightarrow>
   lands P Q (do { r \<leftarrow> doAbort e tr m; State_Monad.return (case r of None \<Rightarrow> Stuck | Some _ \<Rightarrow> Done) })"
  by (rule holds_gives [OF keeps_doAbort gives_doAbort]) auto

lemma lands_store_and_abort: "tr_Operation tr \<noteq> Operation_Nil \<Longrightarrow> lands P (tame m) (store_and_abort e tr m)"
  unfolding store_and_abort_def
  by (intro holds_skip [OF keeps_storeTransition] holds_cases holds_gives [OF keeps_doAbort gives_doAbort]) auto

lemma lands_setup:
  assumes "tr_Operation tr \<noteq> Operation_Nil"
  shows "lands P (\<lambda>(tr', m, xs). same_request tr tr' \<and> opened m \<subseteq> set xs)
    (do { (tr, m, xnames) \<leftarrow> setupTransitionTasks e tr;
       if xnames = [] then complete e tr TransitionStatusCompleted
       else do {
         let tr = tr\<lparr>tr_Status := TransitionStatusInProgress\<rparr>;
         bind_flow (store_and_abort e tr m) (\<lambda>m. State_Monad.return (Next (tr, m, xnames))) } })"
proof (rule holds_gives [OF keeps_setup gives_setup], clarify)
  fix tr' m xs assume s: "same_request tr tr'" "set xs = opened m"
  with assms have op: "tr_Operation tr' \<noteq> Operation_Nil" by (simp add: same_request_def)
  let ?tr = "tr'\<lparr>tr_Status := TransitionStatusInProgress\<rparr>"
  have st: "same_request tr ?tr" by (rule same_request_trans [OF s(1)]) simp
  show "lands P (\<lambda>(tr', m, xs). same_request tr tr' \<and> opened m \<subseteq> set xs)
     (if xs = [] then complete e tr' TransitionStatusCompleted
      else do {
         let tr = tr'\<lparr>tr_Status := TransitionStatusInProgress\<rparr>;
         bind_flow (store_and_abort e tr m) (\<lambda>m. State_Monad.return (Next (tr, m, xs))) })"
    unfolding Let_def
    by (intro holds_cases lands_complete lands_bind [OF lands_store_and_abort]) (use op st s(2) in \<open>auto dest: tame_opened\<close>)
qed

lemma lands_states:
  assumes "tr_Operation tr \<noteq> Operation_Nil" "opened m \<subseteq> set xs"
  shows "lands P (\<lambda>(m', ps). distinct (keys ps) \<and> opened m' \<subseteq> set xs \<and> opened m' \<subseteq> set (keys ps)) (phase_states e tr m xs)"
  unfolding phase_states_def
proof (rule holds_gives [OF keeps_gathering(2) gives_states], intro holds_cases)
  fix r b ps bad assume r: "found (set xs) r" and p: "r = Inr b" "b = (ps, bad)"
  let ?Q = "\<lambda>(m', ps). distinct (keys ps) \<and> opened m' \<subseteq> set xs \<and> opened m' \<subseteq> set (keys ps)"
  have m: "gives (\<lambda>m'. tame m m' \<and> opened m' \<subseteq> opened m - (UNIV \<inter> set bad)) (fold_io (missing_xname e) bad m)"
    by (rule gives_closing) (auto simp: closes_missing tame_missing)
  show "lands P ?Q (do { m' \<leftarrow> fold_io (missing_xname e) bad m;
      if ps = [] then complete e tr TransitionStatusCompleted else State_Monad.return (Next (m', ps)) })"
  proof (rule holds_gives [OF keeps_fold_io [OF keeps_failing(1)] m], intro holds_cases lands_complete assms(1) holds_return)
    fix m' assume "tame m m' \<and> opened m' \<subseteq> opened m - (UNIV \<inter> set bad)"
    then have m': "opened m' \<subseteq> set xs - set bad" using assms(2) by auto
    from r p have f: "distinct (keys ps)" "\<forall>x \<in> set xs. map_of ps x \<noteq> None \<or> x \<in> set bad" by (simp_all add: found_def)
    have "x \<in> set (keys ps)" if "x \<in> opened m'" for x using f(2) m' that by (auto simp only: in_keys_iff)
    with f(1) m' show "ok_flow ?Q (Next (m', ps))" by auto
  qed
qed simp

end

definition finishing :: "nat \<Rightarrow> ETCDStorage \<Rightarrow> 'z WorkerEnv \<Rightarrow> Transition \<Rightarrow> seq_state \<Rightarrow> ('z, Worker flow) io" where
  "finishing fuel e we tr st = bind_flow (phase_reserve e (we_HSM we) tr st) (\<lambda>st. do {
     r \<leftarrow> phase_sequence fuel e we tr st;
     case r of Stuck \<Rightarrow> State_Monad.return Stuck
     | _ \<Rightarrow> do {
         rel \<leftarrow> hp_ReleaseComponents (we_HSM we) (snd (snd st));
         State_Monad.return (if rel = None then Stuck else Done) } })"

lemma doTransition_finishing: "doTransition fuel e we tid =
   do { r \<leftarrow> bind_flow (phase_prepare e we tid) (\<lambda>(tr, st). finishing fuel e we tr st); State_Monad.return (r \<noteq> Stuck) }"
  by (simp add: doTransition_def finishing_def)

context worker_services
begin

lemma keeps_phase_hsm: "keeps P (phase_hsm e (we_HSM we) xs ps m)"
  unfolding phase_hsm_def by (intro keeps_intro)

text \<open>What the worker has when its components are sequenced.\<close>

definition prepared :: "Transition \<Rightarrow> Transition \<times> seq_state \<Rightarrow> bool" where
  "prepared tr r \<longleftrightarrow> same_request tr (fst r) \<and> (\<exists>m. ready m \<and> sequenced m (snd r))"

lemma lands_prepare:
  assumes op: "tr_Operation tr \<notin> {Operation_Nil, Operation_SoftRestart}" and s: "same_request tr0 tr" and o: "opened m \<subseteq> set xs"
  shows "lands P (prepared tr0) (bind_flow (phase_states e tr m xs) (\<lambda>(m, ps). do {
       (m, h) \<leftarrow> phase_hsm e (we_HSM we) xs ps m;
       (tr, m) \<leftarrow> fold_io (attach_one e ps h) xs (tr, m);
       bind_flow (store_and_abort e tr m) (\<lambda>m.
       bind_flow (sequenceComponents e (tr_Operation tr) m) (\<lambda>st. State_Monad.return (Next (tr, st)))) }))"
proof (rule lands_bind [OF lands_states [OF _ o]], goal_cases)
  case 1
  then show ?case using op by simp
next
  case (2 r)
  obtain m1 ps where r: "r = (m1, ps)" by fastforce
  with 2 have c: "distinct (keys ps)" "opened m1 \<subseteq> set xs" "opened m1 \<subseteq> set (keys ps)" by auto
  show ?case
    unfolding r prod.case
  proof (rule holds_gives [OF keeps_phase_hsm gives_phase_hsm [OF c]], intro holds_cases, goal_cases)
    case (1 d m2 h)
    then have "attaching ps h xs m2"
      using c(2,3) tame_opened [of m1 m2] by (auto simp: attaching_def opened_def in_keys_iff subset_iff)
    then show ?case
    proof (rule holds_gives [OF keeps_fold_io [OF keeps_attach] gives_attach], intro holds_cases, goal_cases)
      case (1 d' tr' m3)
      then have tr': "same_request tr0 tr'" "tr_Operation tr' \<notin> {Operation_Nil, Operation_SoftRestart}" and m3: "ready m3"
        using same_request_trans [OF s] op by (auto simp: same_request_def)
      then show ?case
        by (intro lands_bind [OF lands_store_and_abort] lands_bind [OF lands_sequence])
          (auto simp: prepared_def intro!: holds_return exI [of "\<lambda>m. ready m \<and> sequenced m st" for st] tame_ready [of m3])
    qed
  qed
qed

lemma lands_phase_reserve:
  assumes m: "ready m" "sequenced m st"
  shows "lands P (sequenced m) (phase_reserve e (we_HSM we) tr st)"
proof -
  obtain m1 sm res where st: "st = (m1, sm, res)" by (metis prod.exhaust)
  with m(2) have t: "tame m m1" "queued sm \<subseteq> equips m" "rd_XName ` set res \<subseteq> set (keys m)" by (simp_all add: sequenced_def)
  show ?thesis
    unfolding phase_reserve_def st prod.case
  proof (rule holds_gives [OF keeps_hsm(3) reserve], elim exE conjE, goal_cases)
    case (1 r res' got)
    have names: "rd_XName ` set res' = rd_XName ` set res" using arg_cong [OF 1(2), of set] by simp
    have "lands P (tame m) (fold_flow (reserve_one e res' got) res' m1)"
      by (intro lands_fold lands_reserve_one m(1) t(1)) (use t(3) names in blast)+
    then show ?case
      unfolding 1(1) option.case sum.case prod.case
      by (rule lands_bind) (use t names in \<open>simp add: sequenced_def\<close>)
  qed
qed

lemma lands_confirm:
  assumes op: "tr_Operation tr \<noteq> Operation_Nil" and c: "confirming S (m, tm)" "queued sm \<subseteq> S"
  shows "lands P (settled S) (do { t \<leftarrow> now; confirm_loop fuel e soft (Some (t + patience)) pa tr m sm tm })"
  unfolding holds_def triple_def
proof (intro allI impI)
  fix w assume w: "P w"
  obtain t w1 where t: "run_state now w = (t, w1)" by fastforce
  then have t': "t = w_clock w (ticks w)" "ticks w1 = Suc (ticks w)" "w_clock w1 = w_clock w" by (auto simp: now_def step_def)
  have w1: "P w1" using keepsD [OF keeps_now w] t by simp
  have "0 < fuel" using outlasts [OF w, of 0 0] patient by (cases fuel) auto
  have "t + patience < w_clock w1 n" if "ticks w + fuel \<le> n" for n
    using outlasts [OF w, of "n - ticks w" "ticks w"] that t' by simp
  then have "fst (run_state (confirm_loop fuel e soft (Some (t + patience)) pa tr m sm tm) w1) \<noteq> Stuck"
    by (intro confirm_loop_ends [where N = "ticks w + fuel"] op \<open>0 < fuel\<close>) (auto simp: t')
  moreover note nextsD [OF nexts_confirm_settled [OF c], of fuel e soft "Some (t + patience)" pa tr w1]
  ultimately show "P (snd (run_state (do { t \<leftarrow> now; confirm_loop fuel e soft (Some (t + patience)) pa tr m sm tm }) w)) \<and>
      ok_flow (settled S) (fst (run_state (do { t \<leftarrow> now; confirm_loop fuel e soft (Some (t + patience)) pa tr m sm tm }) w))"
    using keepsD [OF keeps_confirm_loop w1] t
    by (cases "fst (run_state (confirm_loop fuel e soft (Some (t + patience)) pa tr m sm tm) w1)") auto
qed

text \<open>Between the tiers: the components that are queued are there, with their data.\<close>

definition working :: "xname set \<Rightarrow> Transition \<Rightarrow> Worker \<Rightarrow> bool" where
  "working S tr wk \<longleftrightarrow> wk_tr wk = tr \<and> kitted S (wk_map wk) \<and> queued (wk_seq wk) \<subseteq> S"

lemma lands_sequence_elem:
  assumes tr: "tr_Operation tr \<noteq> Operation_Nil" "0 \<le> tr_TaskDeadline tr" "minutes (tr_TaskDeadline tr) = patience"
    and wk: "working S tr wk"
  shows "lands P (working S tr) (sequence_elem fuel e we elm wk)"
proof -
  from wk have k: "wk_tr wk = tr" "kitted S (wk_map wk)" "queued (wk_seq wk) \<subseteq> S" by (simp_all add: working_def)
  let ?xs = "concat (map (seq_get (wk_seq wk) (se_Action elm)) (se_CompTypes elm))"
  have xs: "set ?xs \<subseteq> S" using k(3) by (auto simp: queued_def)
  have waited: "holds P (kitted S) (if wk_waitBMC wk then waitForBMC e ?xs (wk_map wk) else State_Monad.return (wk_map wk))"
    by (intro holds_cases holdsI keeps_intro gives_mono [OF tame_waitForBMC]) (auto simp: k(2) intro: tame_kitted)
  have expired: "holds P (kitted S) (fold_io (expired_one e pa) res m)" if "kitted S m" for pa res m
    by (intro holdsI keeps_intro gives_mono [OF gives_tame_fold [OF tame_expired]]) (use that tame_kitted in blast)
  have confirmed: "lands P (working S tr) (do { t \<leftarrow> now;
      bind_flow (confirm_loop fuel e soft (Some (t + patience)) pa tr m (wk_seq wk) tm) (\<lambda>(m, sm).
        State_Monad.return (Next (wk\<lparr>wk_map := m, wk_seq := sm, wk_res := res, wk_waitBMC := b\<rparr>))) })"
    if "answering S {} (m, tm)" for soft pa m tm res b
    unfolding bind_flow_assoc [symmetric]
    by (rule lands_bind [OF lands_confirm [OF tr(1)], of S]) (use that k in \<open>auto simp: confirming_def answering_def settled_def working_def intro!: holds_return\<close>)
  have n: "\<not> tr_TaskDeadline tr < 0" using tr(2) by simp
  show ?thesis
    unfolding sequence_elem_def Let_def k(1)
    apply (intro holds_cases)
    subgoal using wk by simp
    subgoal
      apply (rule holds_bind [OF waited])
      apply (rule holds_skip [OF keeps_checkAbort])
      apply (intro holds_cases lands_aborted tr(1))
      apply (rule holds_gives [OF keeps_hsm(4) check])
      apply (intro holds_cases)
      subgoal by simp
      apply (rule holds_bind [OF expired], assumption)
      apply (rule lands_bind [OF lands_send_tier [OF _ xs]], assumption)
      apply (intro holds_cases)
      subgoal by (simp add: n tr(3) confirmed)
      subgoal using k by (simp add: answering_def working_def)
      done
    done
qed

lemma lands_phase_sequence:
  assumes "tr_Operation tr \<noteq> Operation_Nil" "0 \<le> tr_TaskDeadline tr" "minutes (tr_TaskDeadline tr) = patience"
    and "sequenced m st"
  shows "lands P Q (phase_sequence fuel e we tr st)"
proof -
  obtain m1 sm res where st: "st = (m1, sm, res)" by (metis prod.exhaust)
  with assms(4) have "working (equips m) tr \<lparr>wk_tr = tr, wk_map = m1, wk_seq = sm, wk_res = res, wk_waitBMC = False\<rparr>"
    by (auto simp: sequenced_def working_def intro: tame_kitted [OF _ kitted_equips])
  then show ?thesis
    unfolding phase_sequence_def st prod.case
    by (intro lands_bind [OF lands_fold [where I = "working (equips m) tr"]] lands_sequence_elem lands_complete assms(1-3))
qed

text \<open>After the deferred release the worker is through.\<close>

lemma lands_finishing:
  assumes tr: "tr_Operation tr \<notin> {Operation_Nil, Operation_SoftRestart}" "0 \<le> tr_TaskDeadline tr" "minutes (tr_TaskDeadline tr) = patience"
    and p: "prepared tr (tr', st)"
  shows "lands P (\<lambda>_. False) (finishing fuel e we tr' st)"
proof -
  from p obtain m where m: "same_request tr tr'" "ready m" "sequenced m st" by (auto simp: prepared_def)
  with tr have tr': "tr_Operation tr' \<noteq> Operation_Nil" "0 \<le> tr_TaskDeadline tr'" "minutes (tr_TaskDeadline tr') = patience"
    by (auto simp: same_request_def)
  have seq: "holds P (\<lambda>r. r \<noteq> Stuck) (phase_sequence fuel e we tr' st')" if "sequenced m st'" for st'
    by (rule holds_mono [OF lands_phase_sequence [where Q = "\<lambda>_. True", OF tr' that]]) (auto simp: ok_flow_def split: flow.splits)
  have release: "lands P (\<lambda>_. False) (do { rel \<leftarrow> hp_ReleaseComponents (we_HSM we) res;
      State_Monad.return (if rel = None then Stuck else Done) })" for res
    by (rule holds_gives [OF keeps_hsm(5) release]) simp
  show ?thesis
    unfolding finishing_def
    by (rule lands_bind [OF lands_phase_reserve [OF m(2,3)]], rule holds_bind [OF seq])
      (auto simp: release split: flow.splits)
qed

text \<open>The worker, from a world in which the record that it is started for can be read.\<close>

lemma bind_flow_at:
  assumes "P (snd (run_state m w))" "ok_flow Q (fst (run_state m w))" "\<And>a. Q a \<Longrightarrow> lands P R (f a)"
  shows "P (snd (run_state (bind_flow m f) w)) \<and> ok_flow R (fst (run_state (bind_flow m f) w))"
  using assms(1,2) assms(3) [unfolded holds_def triple_def]
  by (auto simp: bind_flow_def split: prod.splits flow.splits)

lemma doTransition_returns:
  assumes w: "P w" and r: "fst (run_state (GetTransition e tid) w) = (tr, first, err)"
    and tr: "tr_Operation tr \<notin> {Operation_Nil, Operation_SoftRestart}" "0 \<le> tr_TaskDeadline tr" "minutes (tr_TaskDeadline tr) = patience"
  shows "fst (run_state (doTransition fuel e we tid) w)"
proof -
  obtain w1 where g: "run_state (GetTransition e tid) w = ((tr, first, err), w1)" using r by (metis prod.collapse)
  have "keeps P (GetTransition e tid)" by (intro keeps_intro)
  from keepsD [OF this w] g have w1: "P w1" by simp
  have op: "tr_Operation tr \<noteq> Operation_Nil" using tr(1) by simp
  let ?Q = "\<lambda>(tr', m, xs). same_request tr tr' \<and> opened m \<subseteq> set xs"
  have su: "P (snd (run_state (phase_setup e tid) w)) \<and> ok_flow ?Q (fst (run_state (phase_setup e tid) w))"
    using lands_setup [OF op, unfolded holds_def triple_def] w1 by (simp add: phase_setup_def g)
  have prepare: "P (snd (run_state (phase_prepare e we tid) w)) \<and> ok_flow (prepared tr) (fst (run_state (phase_prepare e we tid) w))"
    unfolding phase_prepare_def
    by (rule bind_flow_at [OF su [THEN conjunct1] su [THEN conjunct2]])
      (use tr(1) in \<open>auto simp: same_request_def intro!: lands_prepare\<close>)
  have "ok_flow (\<lambda>_. False) (fst (run_state (bind_flow (phase_prepare e we tid) (\<lambda>(tr, st). finishing fuel e we tr st)) w))"
    by (rule bind_flow_at [OF prepare [THEN conjunct1] prepare [THEN conjunct2], THEN conjunct2])
      (use tr in \<open>auto intro!: lands_finishing\<close>)
  then show ?thesis by (auto simp: doTransition_finishing split: prod.splits)
qed

end

section \<open>The services of the program\<close>

text \<open>The launcher answers a request at most once, and nothing that was not sent.\<close>

definition answers_once :: "(TrsRequest list \<Rightarrow> ('z, TrsDone list) io) \<Rightarrow> bool" where
  "answers_once la \<longleftrightarrow> (\<forall>rs. gives (\<lambda>ds. distinct (map td_ID ds) \<and> td_ID ` set ds \<subseteq> rq_ID ` set rs) (la rs))"

text \<open>No service turns the clock.\<close>

definition timely :: "(nat \<Rightarrow> time) \<Rightarrow> 'z HsmHttp \<Rightarrow> 'z ReservationSvc \<Rightarrow> (TrsRequest list \<Rightarrow> ('z, TrsDone list) io)
    \<Rightarrow> (xname \<Rightarrow> ('z, string \<times> string) io) \<Rightarrow> bool" where
  "timely c ht sv la cr \<longleftrightarrow>
     (\<forall>xs. keeps (clock_inv 0 c) (ht_query ht xs)) \<and> (\<forall>u. keeps (clock_inv 0 c) (ht_endpoints ht u)) \<and>
     keeps (clock_inv 0 c) (ht_powermaps ht) \<and> (\<forall>ks. keeps (clock_inv 0 c) (sv_Reacquire sv ks)) \<and>
     (\<forall>xs. keeps (clock_inv 0 c) (sv_FlexCheck sv xs)) \<and> (\<forall>ks. keeps (clock_inv 0 c) (sv_ValidateDeputyKeys sv ks)) \<and>
     (\<forall>xs. keeps (clock_inv 0 c) (sv_FlexAquire sv xs)) \<and> (\<forall>xs. keeps (clock_inv 0 c) (sv_FlexRelease sv xs)) \<and>
     (\<forall>rs. keeps (clock_inv 0 c) (la rs)) \<and> (\<forall>x. keeps (clock_inv 0 c) (cr x))"

text \<open>The clock passes a wait of \<open>d\<close> within \<open>fuel\<close> steps, whenever it starts.\<close>

definition outlives :: "nat \<Rightarrow> time \<Rightarrow> (nat \<Rightarrow> time) \<Rightarrow> bool" where
  "outlives fuel d c \<longleftrightarrow> (\<forall>n k. fuel \<le> k \<longrightarrow> c n + d < c (n + k))"

definition v2_env :: "bool \<Rightarrow> string \<Rightarrow> nat \<Rightarrow> bool \<Rightarrow> 'z HsmHttp \<Rightarrow> 'z ReservationSvc \<Rightarrow> (TrsRequest list \<Rightarrow> ('z, TrsDone list) io)
    \<Rightarrow> (xname \<Rightarrow> ('z, string \<times> string) io) \<Rightarrow> 'z WorkerEnv" where
  "v2_env lk smurl mq v ht sv la cr = \<lparr>we_HSM = HSMv2 lk smurl mq ht sv, we_Launch = la, we_VaultEnabled = v, we_Creds = cr\<rparr>"

lemma keeps_fill_groups:
  assumes "\<And>u. keeps P (ht_endpoints ht u)"
  shows "keeps P (fill_groups ht smurl gs m)"
  by (induction gs arbitrary: m) (auto intro!: keeps_intro assms)

lemma keeps_v2:
  assumes t: "timely c ht sv la cr"
  shows "keeps (clock_inv 0 c) (FillHSMData ht smurl mq xs)" "keeps (clock_inv 0 c) (FillPowerMapData ht smurl h)"
    "keeps (clock_inv 0 c) (ReserveComponents lk sv res)" "keeps (clock_inv 0 c) (CheckDeputyKeys sv res)"
    "keeps (clock_inv 0 c) (ReleaseComponents lk sv res)"
proof -
  show "keeps (clock_inv 0 c) (FillPowerMapData ht smurl h)"
    unfolding FillPowerMapData_def using t by (intro keeps_intro) (simp add: timely_def)
  show "keeps (clock_inv 0 c) (FillHSMData ht smurl mq xs)"
    unfolding FillHSMData_def GetStateComponents_def FillComponentEndpointData_def Let_def
    using t by (intro keeps_intro keeps_fill_groups) (simp_all add: timely_def)
  show "keeps (clock_inv 0 c) (ReserveComponents lk sv res)"
    unfolding ReserveComponents_def then_stage_def reserve_reacquire_def reserve_deputies_def reserve_acquire_def Let_def
    using t by (intro keeps_intro) (simp_all add: timely_def)
  show "keeps (clock_inv 0 c) (CheckDeputyKeys sv res)"
    unfolding CheckDeputyKeys_def Let_def using t by (intro keeps_intro) (simp_all add: timely_def)
  show "keeps (clock_inv 0 c) (ReleaseComponents lk sv res)"
    unfolding ReleaseComponents_def Let_def using t by (intro keeps_intro) (simp_all add: timely_def)
qed

lemma v2_services:
  assumes h: "hsm_services ht sv" and t: "timely c ht sv la cr" and l: "answers_once la" and d: "outlives fuel d c" "0 \<le> d"
  shows "worker_services (clock_inv 0 c) (v2_env lk smurl mq v ht sv la cr) fuel d"
proof (intro worker_services.intro worker_services_axioms.intro)
  show "action_inv (clock_inv 0 c)" by (rule clock.action_inv_axioms)
  show "hsm_contract (we_HSM (v2_env lk smurl mq v ht sv la cr))"
    by (simp add: v2_env_def hsm_services.v2_contract [OF h])
  show "clock_inv 0 c w \<Longrightarrow> fuel \<le> k \<Longrightarrow> w_clock w n + d < w_clock w (n + k)" for w n k
    using d(1) by (simp add: outlives_def clock_inv_def)
qed (use t l d(2) in \<open>simp_all add: v2_env_def HSMv2_def keeps_v2 [OF t] answers_once_def, simp_all add: timely_def\<close>)

lemma doTransition_unread: "fst (run_state (GetTransition e tid) w) = (tr, first, Some err) \<Longrightarrow> fst (run_state (doTransition fuel e we tid) w)"
  by (cases "run_state (GetTransition e tid) w") (simp add: doTransition_def phase_prepare_def phase_setup_def bind_flow_def)


section \<open>Examples\<close>

text \<open>A launcher to which every component answers at once.\<close>

definition prompt_launch :: "TrsRequest list \<Rightarrow> ('z, TrsDone list) io" where
  "prompt_launch rs = State_Monad.return (map (\<lambda>i. \<lparr>td_ID = i, td_Err = None, td_StatusCode = 204, td_Body = Body_Ok\<rparr>) (remdups (map rq_ID rs)))"

definition no_creds :: "xname \<Rightarrow> ('z, string \<times> string) io" where
  "no_creds x = State_Monad.return ([], [])"

lemma prompt_once: "answers_once prompt_launch"
  by (auto simp: answers_once_def prompt_launch_def comp_def)

lemma prompt_timely: "timely c knowing_http granting_svc prompt_launch no_creds"
  by (simp add: timely_def knowing_http_def granting_svc_def prompt_launch_def no_creds_def keeps_return)

lemma steady_outlives: "outlives (Suc (nat d)) d int"
  by (auto simp: outlives_def)

interpretation prompt: worker_services "clock_inv 0 int" "v2_env True smurl maxQuery False knowing_http granting_svc prompt_launch no_creds"
    "Suc (nat (minutes 5))" "minutes 5" for smurl maxQuery
  by (rule v2_services [OF ready_hsm.hsm_services_axioms prompt_timely prompt_once steady_outlives]) (simp add: minutes_def)

text \<open>The stored transition that the example starts from: the sample, switched on.\<close>

definition sample_on :: Transition where
  "sample_on = sample_transition\<lparr>tr_Operation := Operation_On, tr_TaskDeadline := 5\<rparr>"

definition sample_on_world :: world where
  "sample_on_world = empty_world\<lparr>kvs := [(fixUpKey (transition_key (tr_TransitionID sample_on)), enc_Transition sample_on)]\<rparr>"

lemma sample_on_stored:
  "stored_as (sample_etcd\<lparr>es_DisableSizeChecks := True\<rparr>) (tr_TransitionID sample_on) sample_on [] (kvs sample_on_world)"
proof -
  have "wf_transition sample_on" by code_simp
  then show ?thesis
    using pages_of_transition_key [of "sample_etcd\<lparr>es_DisableSizeChecks := True\<rparr>" "tr_TransitionID sample_on"
        "tr_TransitionID sample_on" "enc_Transition sample_on" "[]"]
    by (simp add: stored_as_def page_ok_def sample_fresh sample_on_world_def)
qed


end
