(* ===== verification/Completion.thy ===== *)
theory Completion
  imports Transitions
begin

text \<open>
  The end of a transition, \<open>compressAndCompleteTransition\<close> in \<^verbatim>\<open>internal/domain/transitions.go\<close>: the
  results of the tasks are written into the record of the transition and the task records are
  deleted. A client that asks for the transition gets the same answer before and after.
\<close>

section \<open>The tasks of a transition in the store\<close>

text \<open>The tasks of a transition that the store holds.\<close>

definition tasks_of :: "ETCDStorage \<Rightarrow> uuid \<Rightarrow> kvstore \<Rightarrow> kvstore" where
  "tasks_of e tid m = (let k = fixUpKey (keySegTransitionTask @ ''/'' @ tid) in
     filter (\<lambda>(k', v). in_range (es_kvHandle e) (k @ keyMin) (k @ keyMax) k') m)"

lemma tasks_of_update:
  assumes "\<not> has_prefix k ''/pcs/transitiontask/''"
  shows "tasks_of e tid (AList.update k v m) = tasks_of e tid m"
proof -
  have "fixUpKey (keySegTransitionTask @ ''/'' @ tid) = ''/pcs/transitiontask/'' @ tid"
    by (simp add: fixUpKey_def keySegTransitionTask_def keyPrefix_def has_prefix_def)
  then show ?thesis
    using assms in_range_prefix [of "es_kvHandle e" "''/pcs/transitiontask/''" "tid @ keyMin" "tid @ keyMax" k]
    unfolding tasks_of_def Let_def by (intro filter_update_out) auto
qed

lemma tasks_of_put_pages: "tasks_of e tid (foldl put_page m ps) = tasks_of e tid m"
  by (induction ps arbitrary: m)
    (simp_all add: put_page_def page_entry_def real_keys tasks_of_update has_prefix_def)

lemma run_no_tasks:
  assumes "quiet w" "tasks_of e tid (kvs w) = []"
  shows "run_state (GetAllTasksForTransition e tid) w = (([], None), tick (tick w))"
  using assms
  by (simp add: GetAllTasksForTransition_def kvRange_def Let_def run_simps tasks_of_def)

definition task_entry :: "TransitionTask \<Rightarrow> string \<times> json" where
  "task_entry t = (fixUpKey (task_key (tt_TransitionID t) (tt_TaskID t)), enc_Task t)"

definition has_tasks :: "ETCDStorage \<Rightarrow> uuid \<Rightarrow> TransitionTask list \<Rightarrow> kvstore \<Rightarrow> bool" where
  "has_tasks e tid ts m \<longleftrightarrow> tasks_of e tid m = map task_entry ts \<and> list_all wf_task ts \<and> (\<forall>t \<in> set ts. tt_TransitionID t = tid)"

lemma decode_tasks: "list_all wf_task ts \<Longrightarrow> decode_list dec_Task (map task_entry ts) er = (ts, if ts = [] then er else None)"
  by (induction ts arbitrary: er) (auto simp: task_entry_def task_codec.dec_enc)

lemma run_GetAllTasks_quiet:
  assumes "quiet w" "has_tasks e tid ts (kvs w)"
  shows "run_state (GetAllTasksForTransition e tid) w = ((shuffle (w_order w (Suc (ticks w))) ts, None), tick (tick w))"
proof -
  have "list_all wf_task (shuffle c ts)" for c using assms(2) by (simp add: has_tasks_def list_all_iff)
  then show ?thesis
    using assms
    by (simp add: GetAllTasksForTransition_def kvRange_def Let_def run_simps has_tasks_def tasks_of_def shuffle_map decode_tasks)
qed

section \<open>Deleting the tasks\<close>

definition drop_tasks :: "TransitionTask list \<Rightarrow> kvstore \<Rightarrow> kvstore" where
  "drop_tasks ts m = filter (\<lambda>(k, v). k \<notin> (fst \<circ> task_entry) ` set ts) m"

lemma drop_tasks_step: "drop_tasks ts (AList.delete (fst (task_entry t)) m) = drop_tasks (t # ts) m"
  by (induction m) (auto simp: drop_tasks_def)

lemma run_delete_tasks:
  "quiet w \<Longrightarrow> \<forall>t \<in> set ts. tt_TransitionID t = tid \<Longrightarrow>
   \<exists>w'. run_state (for_each (delete_task_of e tid) ts) w = ((), w') \<and> quiet w' \<and> kvs w' = drop_tasks ts (kvs w)"
proof (induction ts arbitrary: w)
  case Nil
  then show ?case by (simp add: drop_tasks_def)
next
  case (Cons t ts)
  let ?w = "(tick w)\<lparr>kvs := AList.delete (fixUpKey (task_key tid (tt_TaskID t))) (kvs w)\<rparr>"
  have "fixUpKey (task_key tid (tt_TaskID t)) = fst (task_entry t)" using Cons.prems(2) by (simp add: task_entry_def)
  then have k: "drop_tasks ts (kvs ?w) = drop_tasks (t # ts) (kvs w)" by (simp add: drop_tasks_step)
  have one: "run_state (delete_task_of e tid t) w = ((), ?w)"
    using Cons.prems(1) by (simp add: delete_task_of_def DeleteTransitionTask_def run_simps)
  from Cons.IH [of ?w] Cons.prems obtain w' where
    "run_state (for_each (delete_task_of e tid) ts) ?w = ((), w')" "quiet w'" "kvs w' = drop_tasks ts (kvs ?w)" by auto
  with k one show ?case by simp
qed

lemma drop_tasks_all: "has_tasks e tid ts m \<Longrightarrow> set ts = set us \<Longrightarrow> tasks_of e tid (drop_tasks us m) = []"
proof -
  assume h: "has_tasks e tid ts m" and u: "set ts = set us"
  have "tasks_of e tid (drop_tasks us m) = drop_tasks us (tasks_of e tid m)"
    by (simp add: tasks_of_def drop_tasks_def Let_def conj_commute)
  also have "\<dots> = []"
    using h u unfolding has_tasks_def drop_tasks_def filter_empty_conv
    by (auto simp: image_iff)
  finally show ?thesis .
qed

lemma map_of_drop_tasks: "k \<notin> (fst \<circ> task_entry) ` set ts \<Longrightarrow> map_of (drop_tasks ts m) k = map_of m k"
  by (induction m) (auto simp: drop_tasks_def)

lemma drop_tasks_stored: "stored_as e tid t0 [] m \<Longrightarrow> stored_as e tid t0 [] (drop_tasks ts m)"
proof -
  assume s: "stored_as e tid t0 [] m"
  have "pages_of e tid (drop_tasks ts m) = drop_tasks ts (pages_of e tid m)"
    by (simp add: pages_of_def drop_tasks_def conj_commute)
  moreover have "fixUpKey (transition_key tid) \<notin> (fst \<circ> task_entry) ` set ts" by (auto simp: task_entry_def real_keys)
  ultimately show ?thesis using s by (simp add: stored_as_def map_of_drop_tasks) (simp add: drop_tasks_def)
qed

section \<open>Completing a transition\<close>

text \<open>The record that the results are compressed into.\<close>

definition finished :: "Transition \<Rightarrow> string \<Rightarrow> TransitionTask list \<Rightarrow> Transition" where
  "finished tr status ts = tr\<lparr>tr_TaskCounts := foldl (\<lambda>c t. count_task c (tt_Status t)) zero_counts ts,
     tr_Tasks := sl_append None (map task_resp ts), tr_Status := status, tr_IsCompressed := True\<rparr>"

lemma run_compress_quiet:
  assumes w: "quiet w" and t: "stored_as e tid tr [] (kvs w)" "\<not> tr_IsCompressed tr" "tr_Operation tr \<noteq> Operation_Nil"
    and ts: "has_tasks e tid ts (kvs w)" and e: "0 < es_PageSize e"
    and fits: "\<And>us. mset us = mset ts \<Longrightarrow> truncateAndPageTransitionIfNeeded e (finished tr status us) = (finished tr status us, [])"
  shows "\<exists>us w'. mset us = mset ts \<and> run_state (compressAndCompleteTransition e tr status) w = (Some (), w') \<and> quiet w' \<and>
    stored_as e tid (finished tr status us) [] (kvs w') \<and> tasks_of e tid (kvs w') = []"
proof -
  define us where "us = shuffle (w_order w (Suc (ticks w))) ts"
  have us: "mset us = mset ts" "set us = set ts" by (simp_all add: us_def)
  have id: "tr_TransitionID tr = tid" and tt: "\<forall>t \<in> set us. tt_TransitionID t = tid"
    using t(1) ts us(2) by (simp_all add: stored_as_def has_tasks_def)
  have get: "run_state (GetAllTasksForTransition e tid) w = ((us, None), tick (tick w))"
    unfolding us_def by (rule run_GetAllTasks_quiet [OF w ts])
  have fin: "wf_transition (finished tr status us)" "tr_TransitionID (finished tr status us) = tid"
    using t(1) by (auto simp: finished_def stored_as_def wf_transition_def)
  obtain w1 where w1: "run_state (StoreTransition e (finished tr status us)) (tick (tick w)) = (None, w1)" "quiet w1"
      "stored_as e tid (finished tr status us) [] (kvs w1)"
      "kvs w1 = AList.update (fixUpKey (transition_key tid)) (enc_Transition (finished tr status us)) (kvs w)"
    using run_StoreTransition_quiet [OF _ fin(1) e _ fits [OF us(1)], of "tick (tick w)"] w t(1) fin(2)
    by (auto simp: stored_as_def)
  have tw1: "has_tasks e tid ts (kvs w1)"
    using ts by (simp add: w1(4) has_tasks_def tasks_of_update real_keys has_prefix_def)
  obtain w2 where w2: "run_state (for_each (delete_task_of e tid) us) w1 = ((), w2)" "quiet w2" "kvs w2 = drop_tasks us (kvs w1)"
    using run_delete_tasks [OF w1(2) tt] by blast
  obtain rsp where rsp: "ToTransitionResp tr us True = Some rsp" "rsp_TaskCounts rsp = tr_TaskCounts (finished tr status us)"
      "rsp_Tasks rsp = tr_Tasks (finished tr status us)"
    using t(2,3) by (cases "tr_Operation tr") (auto simp: ToTransitionResp_def finished_def Let_def)
  have "tr\<lparr>tr_TaskCounts := rsp_TaskCounts rsp, tr_Tasks := rsp_Tasks rsp, tr_Status := status, tr_IsCompressed := True\<rparr> = finished tr status us"
    unfolding rsp(2,3) by (simp add: finished_def)
  then have "run_state (compressAndCompleteTransition e tr status) w = (Some (), w2)"
    by (simp add: compressAndCompleteTransition_def id get rsp(1) Let_def w1(1) w2(1))
  moreover have "stored_as e tid (finished tr status us) [] (kvs w2)"
    unfolding w2(3) by (rule drop_tasks_stored [OF w1(3)])
  moreover have "tasks_of e tid (kvs w2) = []"
    unfolding w2(3) by (rule drop_tasks_all [OF tw1]) (simp add: us(2))
  ultimately show ?thesis using us(1) w2(2) by blast
qed

lemma count_fields:
  "cnt_Total (count_task c st) = cnt_Total c + 1"
  "cnt_New (count_task c st) = cnt_New c + (if st = TransitionTaskStatusNew then 1 else 0)"
  "cnt_InProgress (count_task c st) = cnt_InProgress c + (if st = TransitionTaskStatusInProgress then 1 else 0)"
  "cnt_Failed (count_task c st) = cnt_Failed c + (if st = TransitionTaskStatusFailed then 1 else 0)"
  "cnt_Succeeded (count_task c st) = cnt_Succeeded c + (if st = TransitionTaskStatusSucceeded then 1 else 0)"
  "cnt_Unsupported (count_task c st) = cnt_Unsupported c + (if st = TransitionTaskStatusUnsupported then 1 else 0)"
  by (auto simp: count_task_def Let_def)

lemma count_commute: "count_task (count_task c a) b = count_task (count_task c b) a"
  by (rule TransitionTaskCounts.equality) (simp_all add: count_fields)

lemma counts_order:
  assumes "mset us = mset ts"
  shows "foldl (\<lambda>c t. count_task c (tt_Status t)) c us = foldl (\<lambda>c t. count_task c (tt_Status t)) c ts"
  unfolding foldl_conv_fold
  by (rule fun_cong [OF fold_multiset_equiv [OF _ assms]]) (rule ext, simp add: count_commute)

text \<open>Two answers about a transition: the same tasks in some order, and everything else but the status.\<close>

definition same_answer :: "TransitionResp \<Rightarrow> TransitionResp \<Rightarrow> bool" where
  "same_answer a b \<longleftrightarrow> mset (sl (rsp_Tasks a)) = mset (sl (rsp_Tasks b)) \<and>
     a\<lparr>rsp_Tasks := None, rsp_TransitionStatus := []\<rparr> = b\<lparr>rsp_Tasks := None, rsp_TransitionStatus := []\<rparr>"

lemma norm_fields [simp]: "tr_TransitionID (norm_transition t) = tr_TransitionID t" "tr_Operation (norm_transition t) = tr_Operation t"
  "tr_CreateTime (norm_transition t) = tr_CreateTime t" "tr_AutomaticExpirationTime (norm_transition t) = tr_AutomaticExpirationTime t"
  "tr_Status (norm_transition t) = tr_Status t" "tr_TaskCounts (norm_transition t) = tr_TaskCounts t"
  "tr_IsCompressed (norm_transition t) = tr_IsCompressed t" "sl (tr_Tasks (norm_transition t)) = sl (tr_Tasks t)"
  by (simp_all add: norm_transition_def)

lemma answer_open:
  assumes w: "quiet w" and t: "stored_as e tid tr [] (kvs w)" "\<not> tr_IsCompressed tr" and op: "Operation_String (tr_Operation tr) = Some name"
    and ts: "has_tasks e tid ts (kvs w)"
  shows "\<exists>us. mset us = mset ts \<and> fst (run_state (domain_GetTransition e tid) w) =
    Some (BuildSuccessPassback 200 \<lparr>rsp_TransitionID = tid, rsp_Operation = name, rsp_CreateTime = tr_CreateTime tr,
      rsp_AutomaticExpirationTime = tr_AutomaticExpirationTime tr, rsp_TransitionStatus = tr_Status tr,
      rsp_TaskCounts = foldl (\<lambda>c t. count_task c (tt_Status t)) zero_counts ts, rsp_Tasks = sl_append None (map task_resp us)\<rparr>)"
proof -
  obtain w1 where w1: "run_state (GetTransition e tid) w = ((norm_transition tr, norm_transition tr, None), w1)" "quiet w1" "kvs w1 = kvs w"
    using run_GetTransition_quiet [OF w t(1)] by auto
  let ?us = "shuffle (w_order w1 (Suc (ticks w1))) ts"
  have "run_state (GetAllTasksForTransition e tid) w1 = ((?us, None), tick (tick w1))"
    by (rule run_GetAllTasks_quiet [OF w1(2)]) (simp add: w1(3) ts)
  moreover have "tr_TransitionID tr = tid" using t(1) by (simp add: stored_as_def)
  moreover have "mset ?us = mset ts" by simp
  ultimately show ?thesis
    using op t(2)
    by (intro exI [of _ ?us]) (simp add: domain_GetTransition_def w1(1) ToTransitionResp_def Let_def counts_order [OF mset_shuffle])
qed

lemma answer_finished:
  assumes w: "quiet w" and t: "stored_as e tid (finished tr status us) [] (kvs w)" and op: "Operation_String (tr_Operation tr) = Some name"
  shows "\<exists>tasks. sl tasks = map task_resp us \<and> fst (run_state (domain_GetTransition e tid) w) =
    Some (BuildSuccessPassback 200 \<lparr>rsp_TransitionID = tid, rsp_Operation = name, rsp_CreateTime = tr_CreateTime tr,
      rsp_AutomaticExpirationTime = tr_AutomaticExpirationTime tr, rsp_TransitionStatus = status,
      rsp_TaskCounts = foldl (\<lambda>c t. count_task c (tt_Status t)) zero_counts us, rsp_Tasks = tasks\<rparr>)"
proof -
  let ?t = "finished tr status us"
  obtain w1 where w1: "run_state (GetTransition e tid) w = ((norm_transition ?t, norm_transition ?t, None), w1)"
    using run_GetTransition_quiet [OF w t] by auto
  have "tr_TransitionID ?t = tid" using t by (simp add: stored_as_def)
  then show ?thesis
    using op
    by (intro exI [of _ "tr_Tasks (norm_transition ?t)"])
      (simp add: domain_GetTransition_def w1 ToTransitionResp_def Let_def, simp add: finished_def)
qed

text \<open>
  C8: completing a transition loses nothing: without interference, with a record that still
  fits into one entry, \<open>compressAndCompleteTransition\<close> deletes the records of the tasks, and a
  client that asks for the transition gets the answer it got before, the same
  counts and the same result for every task, with the final status.
\<close>

theorem completion_keeps_answer:
  assumes w: "quiet w" and t: "stored_as e tid tr [] (kvs w)" "\<not> tr_IsCompressed tr" "tr_Operation tr \<noteq> Operation_Nil"
    and ts: "has_tasks e tid ts (kvs w)" and e: "0 < es_PageSize e"
    and fits: "\<And>us. mset us = mset ts \<Longrightarrow> truncateAndPageTransitionIfNeeded e (finished tr status us) = (finished tr status us, [])"
  shows "\<exists>w' before after. run_state (compressAndCompleteTransition e tr status) w = (Some (), w') \<and>
    fst (run_state (domain_GetTransition e tid) w) = Some (BuildSuccessPassback 200 before) \<and>
    fst (run_state (domain_GetTransition e tid) w') = Some (BuildSuccessPassback 200 after) \<and>
    same_answer before after \<and> rsp_TransitionStatus after = status \<and> tasks_of e tid (kvs w') = []"
proof -
  obtain name where op: "Operation_String (tr_Operation tr) = Some name" using t(3) by (cases "tr_Operation tr") auto
  obtain us w' where c: "mset us = mset ts" "run_state (compressAndCompleteTransition e tr status) w = (Some (), w')" "quiet w'"
      "stored_as e tid (finished tr status us) [] (kvs w')" "tasks_of e tid (kvs w') = []"
    using run_compress_quiet [OF w t ts e fits] by blast
  obtain us0 where b: "mset us0 = mset ts" "fst (run_state (domain_GetTransition e tid) w) =
    Some (BuildSuccessPassback 200 \<lparr>rsp_TransitionID = tid, rsp_Operation = name, rsp_CreateTime = tr_CreateTime tr,
      rsp_AutomaticExpirationTime = tr_AutomaticExpirationTime tr, rsp_TransitionStatus = tr_Status tr,
      rsp_TaskCounts = foldl (\<lambda>c t. count_task c (tt_Status t)) zero_counts ts, rsp_Tasks = sl_append None (map task_resp us0)\<rparr>)"
    using answer_open [OF w t(1,2) op ts] by blast
  from answer_finished [OF c(3,4) op] show ?thesis
    using b c(1,2,5) by (force simp: same_answer_def counts_order [OF c(1)])
qed

section \<open>Examples\<close>

abbreviation unpaged_etcd :: ETCDStorage where
  "unpaged_etcd \<equiv> sample_etcd\<lparr>es_DisableSizeChecks := True\<rparr>"

lemma unpaged: "truncateAndPageTransitionIfNeeded unpaged_etcd t = (t, [])" "es_kvHandle unpaged_etcd = Kvs_etcd"
  by (simp_all add: truncateAndPageTransitionIfNeeded_def sample_etcd_def)

text \<open>A transition with a task that succeeded and one that failed.\<close>

definition running_transition :: Transition where
  "running_transition = sample_transition\<lparr>tr_Operation := Operation_On, tr_Status := TransitionStatusInProgress\<rparr>"

definition running_tasks :: "TransitionTask list" where
  "running_tasks = [sample_task\<lparr>tt_Status := TransitionTaskStatusSucceeded\<rparr>,
     sample_task\<lparr>tt_TaskID := sample_uuid 3, tt_Xname := ''x0c0s1b0n0'', tt_Status := TransitionTaskStatusFailed, tt_Error := ''timeout''\<rparr>]"

definition running_world :: world where
  "running_world = empty_world\<lparr>kvs := (fixUpKey (transition_key (tr_TransitionID running_transition)), enc_Transition running_transition)
     # map task_entry running_tasks\<rparr>"

lemma running_facts: "wf_transition running_transition" "\<not> tr_IsCompressed running_transition"
  "tr_Operation running_transition \<noteq> Operation_Nil" "list_all wf_task running_tasks"
  "\<forall>t \<in> set running_tasks. tt_TransitionID t = tr_TransitionID running_transition"
  "pages_of unpaged_etcd (tr_TransitionID running_transition) (kvs running_world) = []"
  "tasks_of unpaged_etcd (tr_TransitionID running_transition) (kvs running_world) = map task_entry running_tasks"
  by code_simp+

theorem completion_keeps_answer_witness:
  "\<exists>w' before after. run_state (compressAndCompleteTransition unpaged_etcd running_transition TransitionStatusCompleted) running_world = (Some (), w') \<and>
    fst (run_state (domain_GetTransition unpaged_etcd (tr_TransitionID running_transition)) running_world) = Some (BuildSuccessPassback 200 before) \<and>
    fst (run_state (domain_GetTransition unpaged_etcd (tr_TransitionID running_transition)) w') = Some (BuildSuccessPassback 200 after) \<and>
    same_answer before after \<and> rsp_TransitionStatus after = TransitionStatusCompleted \<and>
    tasks_of unpaged_etcd (tr_TransitionID running_transition) (kvs w') = []"
proof (rule completion_keeps_answer)
  show "stored_as unpaged_etcd (tr_TransitionID running_transition) running_transition [] (kvs running_world)"
    using running_facts by (simp add: stored_as_def page_ok_def running_world_def)
  show "has_tasks unpaged_etcd (tr_TransitionID running_transition) running_tasks (kvs running_world)"
    using running_facts by (simp add: has_tasks_def)
qed (use running_facts(2,3) in \<open>simp_all add: running_world_def unpaged\<close>, simp add: sample_etcd_def)

end
