(* ===== verification/ReaperSafety.thy ===== *)
theory ReaperSafety
  imports Completion
begin

text \<open>
  The reapers of several instances and an abandoned transition, \<^verbatim>\<open>transitionsReaper\<close> in
  \<^verbatim>\<open>internal/domain/transitions.go\<close>: all of them may read the same stale record, but the
  test-and-set lets one of them start a worker. Also the keep-alive thread as a reaction to the
  ticks of its timer and to the cancellation by its worker.
\<close>

section \<open>The keep-alive thread\<close>

text \<open>
  What the \<open>select\<close> of \<open>transitionKeepAlive\<close> receives, in the order of arrival. The result is
  \<open>Some True\<close> when the thread waits for the next event, \<open>Some False\<close> when it has ended and \<open>None\<close>
  when it is still busy with a tick after \<open>n\<close> rounds.
\<close>

datatype keep_event = KA_Tick | KA_Cancel

fun transitionKeepAlive :: "ETCDStorage \<Rightarrow> uuid \<Rightarrow> nat \<Rightarrow> keep_event list \<Rightarrow> ('z, bool option) io" where
  "transitionKeepAlive e tid n [] = State_Monad.return (Some True)"
| "transitionKeepAlive e tid n (KA_Cancel # evs) = State_Monad.return (Some False)"
| "transitionKeepAlive e tid n (KA_Tick # evs) = do {
     r \<leftarrow> keepAlive_round e tid n;
     case r of Some True \<Rightarrow> transitionKeepAlive e tid n evs | _ \<Rightarrow> State_Monad.return r }"

section \<open>A record that has moved on\<close>

definition record_key :: "Transition \<Rightarrow> string" where
  "record_key tr = fixUpKey (transition_key (tr_TransitionID tr))"

definition moved_on :: "Transition \<Rightarrow> kvstore \<Rightarrow> bool" where
  "moved_on tr m \<longleftrightarrow> map_of m (record_key tr) \<noteq> Some (enc_Transition tr)"

text \<open>Nobody writes the record back as it was, and the clock is past its last activity.\<close>

definition attended :: "Transition \<Rightarrow> 'z world_scheme \<Rightarrow> bool" where
  "attended tr w \<longleftrightarrow> peers_keep (moved_on tr) w \<and> (\<forall>n \<ge> ticks w. tr_LastActiveTime tr < w_clock w n)"

lemma attended_step: "keeps (attended tr) step"
  by (simp add: keeps_def step_def attended_def peers_keep_def)

lemma attended_kv_call: "keeps (attended tr) (kv_call h f)"
  by (auto simp: keeps_def kv_call_def step_def attended_def peers_keep_def split: option.splits)

interpretation attended: action_inv "attended tr" for tr
  by unfold_locales (auto intro!: attended_step attended_kv_call simp: Kvi_Get_def Kvi_Store_def Kvi_Delete_def Kvi_TAS_def)

definition passed :: "Transition \<Rightarrow> 'z world_scheme \<Rightarrow> bool" where
  "passed tr w \<longleftrightarrow> attended tr w \<and> moved_on tr (kvs w)"

lemma passed_step: "keeps (passed tr) step"
  by (simp add: keeps_def step_def passed_def attended_def peers_keep_def)

lemma enc_active: "enc_Transition a = enc_Transition b \<Longrightarrow> tr_LastActiveTime a = tr_LastActiveTime b"
  by (simp add: enc_Transition_def)

lemma first_page_active: "truncateAndPageTransitionIfNeeded e t = (t', ps) \<Longrightarrow> tr_LastActiveTime t' = tr_LastActiveTime t"
  by (auto simp: truncateAndPageTransitionIfNeeded_def breakIntoPagesIfNeeded_def truncateTaskMessagesIfNeeded_def Let_def split: if_splits)

lemma page_key_other: "fixUpKey (page_key u i) \<noteq> record_key tr"
  by (simp add: record_key_def real_keys)

lemma passed_store_page: "keeps (passed tr) (store_page e p ce)"
proof -
  have "keeps (passed tr) (kv_call h (\<lambda>m. ((), AList.update (fixUpKey (page_key u i)) v m)))" for h u i v
    using page_key_other [of u i tr]
    by (auto simp: keeps_def kv_call_def step_def passed_def attended_def peers_keep_def moved_on_def split: option.splits)
  then show ?thesis unfolding store_page_def kvStore_def Kvi_Store_def Let_def by (intro keeps_intro)
qed

section \<open>A transition that is kept alive\<close>

definition refreshed :: "Transition \<Rightarrow> time \<Rightarrow> Transition" where
  "refreshed t0 t = (norm_transition t0)\<lparr>tr_LastActiveTime := t\<rparr>"

lemma refreshed_simps [simp]:
  "norm_transition (refreshed t0 t) = refreshed t0 t" "refreshed (refreshed t0 u) t = refreshed t0 t"
  "ended (refreshed t0 t) = ended t0" "tr_LastActiveTime (refreshed t0 t) = t" "wf_transition (refreshed t0 t) = wf_transition t0"
  "tr_TransitionID (refreshed t0 t) = tr_TransitionID t0"
  "tr_AutomaticExpirationTime (refreshed t0 t) = tr_AutomaticExpirationTime t0"
  by (simp_all add: refreshed_def norm_transition_def ended_def wf_transition_def)

text \<open>A store that holds the open record in one entry, whatever time is written into it.\<close>

definition alive_in :: "ETCDStorage \<Rightarrow> Transition \<Rightarrow> kvstore \<Rightarrow> bool" where
  "alive_in e t0 m \<longleftrightarrow> stored_as e (tr_TransitionID t0) t0 [] m \<and> \<not> ended t0 \<and> es_kvHandle e = Kvs_etcd \<and>
     (\<forall>t. truncateAndPageTransitionIfNeeded e (refreshed t0 t) = (refreshed t0 t, []))"

lemma alive_refreshed:
  "alive_in e t0 m \<Longrightarrow> alive_in e (refreshed t0 t) (AList.update (record_key t0) (enc_Transition (refreshed t0 t)) m)"
  by (simp add: alive_in_def stored_as_def record_key_def map_of_update_eq)

lemma keepAlive_tick:
  assumes w: "quiet w" and a: "alive_in e t0 (kvs w)" and n: "0 < n"
  obtains w' t where "run_state (keepAlive_round e (tr_TransitionID t0) n) w = (Some True, w')" "quiet w'"
    "alive_in e (refreshed t0 t) (kvs w')" "t \<in> range (w_clock w')"
proof -
  let ?tid = "tr_TransitionID t0" and ?r = "norm_transition t0"
  obtain n' where n': "n = Suc n'" using n gr0_implies_Suc by blast
  obtain w1 where w1: "run_state (GetTransition e ?tid) w = ((?r, ?r, None), w1)" "quiet w1" "kvs w1 = kvs w"
    using run_GetTransition_quiet [OF w] a by (fastforce simp: alive_in_def)
  define t where "t = w_clock w1 (ticks w1)"
  define w' where "w' = (tick (tick w1))\<lparr>kvs := AList.update (record_key t0) (enc_Transition (refreshed t0 t)) (kvs w)\<rparr>"
  have k: "map_of (kvs w) (fixUpKey (transition_key ?tid)) = Some (enc_Transition t0)" "tr_TransitionID ?r = ?tid"
    "tr_Status ?r = tr_Status t0"
    using a by (simp_all add: alive_in_def stored_as_def norm_transition_def)
  have tas: "run_state (TASTransition e (refreshed t0 t) ?r) (tick w1) = ((True, None), w')"
    using a k w1(2,3) by (simp add: TASTransition_def alive_in_def run_simps tas_def w'_def record_key_def)
  have "run_state (keepAlive_round e ?tid n) w = (Some True, w')"
    using a k tas w1(2) by (simp add: n' w1(1) run_simps alive_in_def ended_def refreshed_def [symmetric] t_def [symmetric])
  moreover have "quiet w'" "alive_in e (refreshed t0 t) (kvs w')" "t \<in> range (w_clock w')"
    using alive_refreshed [OF a] w1(2) by (simp_all add: w'_def t_def)
  ultimately show thesis using that by blast
qed

text \<open>
  While nobody interferes the thread lives for every number of ticks and ends when its worker
  cancels it; it has then changed nothing in the record but the time.
\<close>

lemma keep_alive_runs:
  assumes "quiet w" "alive_in e t0 (kvs w)" "0 < n"
  shows "\<exists>w' t1. run_state (transitionKeepAlive e (tr_TransitionID t0) n (replicate k KA_Tick @ [KA_Cancel])) w = (Some False, w') \<and>
    alive_in e t1 (kvs w') \<and> (k = 0 \<and> t1 = t0 \<or> (\<exists>t. t1 = refreshed t0 t))"
  using assms(1,2)
proof (induction k arbitrary: w t0)
  case (Suc k)
  obtain w1 t where w1: "run_state (keepAlive_round e (tr_TransitionID t0) n) w = (Some True, w1)" "quiet w1"
    "alive_in e (refreshed t0 t) (kvs w1)"
    using keepAlive_tick [OF Suc.prems assms(3)] by metis
  from Suc.IH [OF w1(2,3)] show ?case by (auto simp: w1(1))
qed auto

text \<open>
  The reaper leaves an open record alone that was refreshed within three intervals and is not
  expired; what happens to the store meanwhile is the doing of others.
\<close>

lemma alive_left_alone:
  assumes "\<not> ended tr" "\<forall>m \<ge> ticks w. w_clock w m \<le> tr_AutomaticExpirationTime tr \<and>
    w_clock w m \<le> tr_LastActiveTime tr + seconds (TransitionKeepAliveInterval * 3)"
  shows "fst (run_state (reap_one e tr (Some s)) w) = Some s"
    and "kvs (snd (run_state (reap_one e tr (Some s)) w)) = foldl apply_event (kvs w) (w_peers w (ticks w) @ w_peers w (Suc (ticks w)))"
proof -
  have le: "w_clock w m \<le> tr_AutomaticExpirationTime tr" "\<not> tr_LastActiveTime tr < w_clock w m + seconds (TransitionKeepAliveInterval * - 3)"
    if "ticks w \<le> m" for m using assms(2) that by (fastforce simp: seconds_def)+
  show "fst (run_state (reap_one e tr (Some s)) w) = Some s"
    "kvs (snd (run_state (reap_one e tr (Some s)) w)) = foldl apply_event (kvs w) (w_peers w (ticks w) @ w_peers w (Suc (ticks w)))"
    using assms(1) le(1) [of "ticks w"] le(2) [of "Suc (ticks w)"]
    by (cases s; simp add: reap_one_def now_def step_def Let_def)+
qed

section \<open>The test-and-set on a record\<close>

text \<open>It succeeds only on the record that was read; and then the record has moved on, if the time was set.\<close>

lemma tas_decides:
  assumes e: "es_kvHandle e = Kvs_etcd" and w: "attended tr w" and new: "tr_TransitionID new = tr_TransitionID tr"
    and r: "run_state (TASTransition e new tr) w = ((ok, er), w')"
  shows "passed tr w \<Longrightarrow> \<not> ok \<and> passed tr w'"
    and "ok \<Longrightarrow> er = None \<Longrightarrow> tr_LastActiveTime new \<noteq> tr_LastActiveTime tr \<Longrightarrow> passed tr w'"
proof -
  obtain new' ps where p: "truncateAndPageTransitionIfNeeded e new = (new', ps)" by fastforce
  obtain ok1 er1 w1 where k: "run_state (kvTAS e (transition_key (tr_TransitionID new)) (enc_Transition tr) (enc_Transition new')) w = ((ok1, er1), w1)"
    by (metis prod.collapse)
  let ?m = "foldl apply_event (kvs w) (w_peers w (ticks w))"
  have m: "moved_on tr (kvs w) \<Longrightarrow> moved_on tr ?m" using w by (simp add: attended_def peers_keep_def)
  have a: "attended tr w1" using keepsD [OF attended.keeps_calls(4) w] k by (metis snd_conv)
  have one: "moved_on tr (kvs w) \<Longrightarrow> \<not> ok1 \<and> moved_on tr (kvs w1)"
    "ok1 \<Longrightarrow> er1 = None \<Longrightarrow> map_of (kvs w1) (record_key tr) = Some (enc_Transition new')"
    using k m e new
    by (auto simp: kvTAS_def Kvi_TAS_def kv_call_def step_def tas_def moved_on_def record_key_def split: option.splits if_splits)
  have pages: "keeps (passed tr) (fold_io (store_page e) ps None)" by (intro keeps_fold_io passed_store_page)
  obtain ce w2 where f: "run_state (fold_io (store_page e) ps None) w1 = (ce, w2)" by fastforce
  have rest: "ok = ok1 \<and> w' = (if er1 = None then w2 else w1) \<and> (er = None \<longrightarrow> er1 = None)"
    using r k f by (auto simp: TASTransition_def p Let_def split: option.splits)
  have w1: "ok = ok1" "passed tr w1 \<Longrightarrow> passed tr w'"
    using keepsD [OF pages, of w1] f rest by (auto split: if_splits)
  show "passed tr w \<Longrightarrow> \<not> ok \<and> passed tr w'"
    using one(1) w1 a by (simp add: passed_def)
  assume "ok" "er = None" and d: "tr_LastActiveTime new \<noteq> tr_LastActiveTime tr"
  then have "map_of (kvs w1) (record_key tr) = Some (enc_Transition new')"
    using one(2) w1(1) rest by simp
  moreover have "enc_Transition new' \<noteq> enc_Transition tr" using d enc_active first_page_active [OF p] by metis
  ultimately show "passed tr w'" using a by (intro w1(2)) (simp add: passed_def moved_on_def)
qed

section \<open>One worker for an abandoned transition\<close>

text \<open>
  After the reapers of some instances: none has started a worker, or one has and the record
  has moved on.
\<close>

definition reaped :: "Transition \<Rightarrow> (nat \<times> uuid list) option \<Rightarrow> 'z world_scheme \<Rightarrow> bool" where
  "reaped tr s w \<longleftrightarrow> attended tr w \<and> (case s of None \<Rightarrow> True
     | Some (n, started) \<Rightarrow> started = [] \<or> started = [tr_TransitionID tr] \<and> moved_on tr (kvs w))"

lemma passed_now: "keeps (passed tr) now"
  unfolding now_def by (intro keeps_intro passed_step)

lemma reaped_now: "triple (reaped tr s) now (\<lambda>t w. reaped tr s w \<and> tr_LastActiveTime tr < t)"
  unfolding triple_def
proof (intro allI impI)
  fix w assume w: "reaped tr s w"
  have "attended tr w" using w by (simp add: reaped_def)
  then have "attended tr (snd (run_state now w))" by (rule keepsD [OF attended.keeps_now])
  moreover have "moved_on tr (kvs w) \<Longrightarrow> moved_on tr (kvs (snd (run_state now w)))"
    using keepsD [OF passed_now, of tr w] w by (simp add: reaped_def passed_def)
  moreover have "tr_LastActiveTime tr < fst (run_state now w)"
    using w by (simp add: now_def step_def reaped_def attended_def)
  ultimately show "reaped tr s (snd (run_state now w)) \<and> tr_LastActiveTime tr < fst (run_state now w)"
    using w by (auto simp: reaped_def split: option.splits)
qed

text \<open>The test-and-set that decides who starts the worker; \<open>start\<close>: the record is abandoned.\<close>

lemma reaped_tas:
  assumes "es_kvHandle e = Kvs_etcd" "tr_TransitionID new = tr_TransitionID tr"
    and "start \<Longrightarrow> tr_LastActiveTime new \<noteq> tr_LastActiveTime tr"
  shows "triple (reaped tr (Some (n, started))) (do { (ok, er) \<leftarrow> TASTransition e new tr;
      State_Monad.return (if er = None \<and> ok \<and> start then Some (n, started @ [tr_TransitionID tr]) else Some (n, started)) }) (reaped tr)"
  unfolding triple_def
proof (intro allI impI)
  fix w assume w: "reaped tr (Some (n, started)) w"
  obtain ok er w' where r: "run_state (TASTransition e new tr) w = ((ok, er), w')" by (metis prod.collapse)
  have a: "attended tr w" using w by (simp add: reaped_def)
  then have a': "attended tr w'" using keepsD [OF attended.keeps_storage(19) a, of e new tr] r by simp
  note t = tas_decides [OF assms(1) a assms(2) r]
  show "reaped tr (fst (run_state (do { (ok, er) \<leftarrow> TASTransition e new tr;
      State_Monad.return (if er = None \<and> ok \<and> start then Some (n, started @ [tr_TransitionID tr]) else Some (n, started)) }) w))
    (snd (run_state (do { (ok, er) \<leftarrow> TASTransition e new tr;
      State_Monad.return (if er = None \<and> ok \<and> start then Some (n, started @ [tr_TransitionID tr]) else Some (n, started)) }) w))"
    using w a' t assms(3) by (auto simp: r reaped_def passed_def)
qed

lemma reaped_then_now:
  "(\<And>t. tr_LastActiveTime tr < t \<Longrightarrow> triple (reaped tr s) (f t) Q) \<Longrightarrow> triple (reaped tr s) (State_Monad.bind now f) Q"
  by (rule triple_bind [OF reaped_now]) (auto simp: triple_def)

lemma reaped_one:
  assumes e: "es_kvHandle e = Kvs_etcd" and open_tr: "\<not> ended tr"
  shows "triple (reaped tr s) (reap_one e tr s) (reaped tr)"
proof (cases s)
  case None
  then show ?thesis by (simp add: reap_one_def triple_def)
next
  case (Some p)
  obtain n started where s: "s = Some (n, started)" using Some by (cases p) simp
  have restart: "triple (reaped tr (Some (n, started))) (do { (ok, er) \<leftarrow> TASTransition e new tr;
      State_Monad.return (if er = None \<and> ok then Some (n, started @ [tr_TransitionID tr]) else Some (n, started)) }) (reaped tr)"
    if "tr_TransitionID new = tr_TransitionID tr" "tr_LastActiveTime tr < tr_LastActiveTime new" for new
    using reaped_tas [OF e that(1), of True] that(2) by simp
  have signal: "triple (reaped tr (Some (n, started))) (do { (ok, er) \<leftarrow> TASTransition e new tr;
      State_Monad.return (Some (n, started)) }) (reaped tr)" if "tr_TransitionID new = tr_TransitionID tr" for new
    using reaped_tas [OF e that, of False] by simp
  show ?thesis
    unfolding reap_one_def s option.case prod.case Let_def using open_tr
    by (intro reaped_then_now) (auto intro!: reaped_then_now restart signal triple_return)
qed

text \<open>A record that has ended starts nothing.\<close>

lemma ended_starts_nothing:
  assumes "ended tr" "fst (run_state (reap_one e tr (Some (n, started))) w) = Some (n', started')"
  shows "started' = started"
  using assms by (auto simp: reap_one_def case_prod_beta Let_def split: if_splits)

lemma ended_reaped: "ended tr \<Longrightarrow> fst (run_state (fold_io (\<lambda>e. reap_one e tr) es (Some (n, started))) w) = Some (n', started') \<Longrightarrow>
   started' = started"
proof (induction es arbitrary: n started w)
  case (Cons e es)
  obtain s w1 where r: "run_state (reap_one e tr (Some (n, started))) w = (s, w1)" by fastforce
  have none: "fst (run_state (fold_io (\<lambda>e. reap_one e tr) es None) w1) = None" for es and w1 :: "'a world_scheme"
    by (induction es arbitrary: w1) (auto simp: reap_one_def)
  from Cons.prems(2) r none [of es w1] obtain n1 st1 where s: "s = Some (n1, st1)" by (cases s) auto
  with r Cons.prems(1) have "st1 = started" using ended_starts_nothing [of tr e n started w n1 st1] by simp
  with Cons.IH [OF Cons.prems(1), of n1 started w1] Cons.prems(2) r s show ?case by simp
qed simp

text \<open>
  C25: an abandoned transition is picked up once: let the reapers of any number of instances
  work on the same record that they all read, one after another in any order, while anything
  else happens to the store except that this very record is written back. At most one of them
  starts a worker, whether the record is to be continued or, being expired, aborted.
\<close>

theorem abandoned_restarted_once:
  assumes "\<forall>e \<in> set es. es_kvHandle e = Kvs_etcd"
    and "peers_keep (moved_on tr) w" and "\<forall>n \<ge> ticks w. tr_LastActiveTime tr < w_clock w n"
    and "fst (run_state (fold_io (\<lambda>e. reap_one e tr) es (Some (n, []))) w) = Some (n', started)"
  shows "started = [] \<or> started = [tr_TransitionID tr]"
proof (cases "ended tr")
  case True
  with ended_reaped assms(4) show ?thesis by blast
next
  case False
  have "triple (reaped tr s) (fold_io (\<lambda>e. reap_one e tr) es s) (reaped tr)" for s :: "(nat \<times> uuid list) option"
    by (rule triple_fold [where I = "reaped tr"]) (use reaped_one [OF _ False] assms(1) in blast)
  from this [of "Some (n, [])", unfolded triple_def, rule_format, of w] assms(2-4)
  show ?thesis by (auto simp: reaped_def attended_def)
qed

section \<open>Examples\<close>

text \<open>A transition whose worker has been silent for a minute, and two reapers.\<close>

definition silent_transition :: Transition where
  "silent_transition = sample_transition\<lparr>tr_Status := TransitionStatusInProgress, tr_LastActiveTime := - seconds 60,
     tr_AutomaticExpirationTime := seconds 600\<rparr>"

definition silent_world :: world where
  "silent_world = empty_world\<lparr>kvs := [(record_key silent_transition, enc_Transition silent_transition)]\<rparr>"

lemma silent_facts: "\<not> ended silent_transition" "tr_LastActiveTime silent_transition = - seconds 60"
  "tr_AutomaticExpirationTime silent_transition = seconds 600"
  by code_simp+

lemma reap_abandoned_quiet:
  assumes w: "quiet w" and tr: "\<not> ended tr" "\<not> tr_AutomaticExpirationTime tr < w_clock w (ticks w)"
    "tr_LastActiveTime tr < w_clock w (Suc (ticks w)) + seconds (TransitionKeepAliveInterval * - 3)"
  defines "t \<equiv> w_clock w (Suc (Suc (ticks w)))"
  shows "run_state (reap_one unpaged_etcd tr (Some (n, started))) w =
    (if map_of (kvs w) (record_key tr) = Some (enc_Transition tr)
     then (Some (n, started @ [tr_TransitionID tr]), (tick (tick (tick (tick w))))\<lparr>kvs :=
       AList.update (record_key tr) (enc_Transition (tr\<lparr>tr_LastActiveTime := t\<rparr>)) (kvs w)\<rparr>)
     else (Some (n, started), tick (tick (tick (tick w)))))"
proof -
  have ticks: "ticks (tick v) = Suc (ticks v)" "w_clock (tick v) = w_clock v" for v :: "'a world_scheme" by (simp_all add: tick_def)
  have same: "v\<lparr>kvs := kvs v\<rparr> = v" for v :: "'a world_scheme" by simp
  have tas: "run_state (TASTransition unpaged_etcd (tr\<lparr>tr_LastActiveTime := t\<rparr>) tr) (tick (tick (tick w))) =
    (if map_of (kvs w) (record_key tr) = Some (enc_Transition tr)
     then ((True, None), (tick (tick (tick (tick w))))\<lparr>kvs :=
       AList.update (record_key tr) (enc_Transition (tr\<lparr>tr_LastActiveTime := t\<rparr>)) (kvs w)\<rparr>)
     else ((False, None), tick (tick (tick (tick w)))))"
    using w by (auto simp: TASTransition_def unpaged kvTAS_def Kvi_TAS_def run_simps tas_def record_key_def tick_def split: option.splits)
  show ?thesis
    using w tr tas unfolding t_def by (simp add: reap_one_def run_simps ticks Let_def)
qed

lemma reap_open_results:
  "\<not> ended tr \<Longrightarrow> fst (run_state (reap_one e tr (Some (n, started))) w) \<in> {Some (n, started), Some (n, started @ [tr_TransitionID tr])}"
  by (simp add: reap_one_def case_prod_beta Let_def)

theorem abandoned_restarted_once_witness:
  "fst (run_state (fold_io (\<lambda>e. reap_one e silent_transition) [unpaged_etcd, unpaged_etcd] (Some (0, []))) silent_world) =
     Some (0, [tr_TransitionID silent_transition])"
proof -
  let ?t = silent_transition and ?r = "\<lambda>e. reap_one e silent_transition"
  have q: "quiet silent_world" "map_of (kvs silent_world) (record_key ?t) = Some (enc_Transition ?t)" "ticks silent_world = 0"
    "w_clock silent_world = int" "w_peers silent_world = (\<lambda>_. [])"
    by (simp_all add: silent_world_def, simp_all add: empty_world_def)
  obtain w1 where w1: "run_state (?r unpaged_etcd (Some (0, []))) silent_world = (Some (0, [tr_TransitionID ?t]), w1)"
    using reap_abandoned_quiet [OF q(1) silent_facts(1), of 0 "[]"] silent_facts q(2-4)
    by (simp add: seconds_def TransitionKeepAliveInterval_def)
  define s where "s = fst (run_state (?r unpaged_etcd (Some (0, [tr_TransitionID ?t]))) w1)"
  have r: "fst (run_state (fold_io ?r [unpaged_etcd, unpaged_etcd] (Some (0, []))) silent_world) = s"
    by (simp add: w1 s_def split: prod.splits)
  have two: "s \<in> {Some (0, [tr_TransitionID ?t]), Some (0, [tr_TransitionID ?t, tr_TransitionID ?t])}"
    using reap_open_results [OF silent_facts(1), of unpaged_etcd 0 "[tr_TransitionID ?t]" w1] by (simp add: s_def)
  then obtain started where s: "s = Some (0, started)" by auto
  have "started = [] \<or> started = [tr_TransitionID ?t]"
    by (rule abandoned_restarted_once [OF _ _ _ r [unfolded s]])
      (simp_all add: unpaged(2) peers_keep_def q(4,5) silent_facts(2) seconds_def)
  with two s r show ?thesis by auto
qed

text \<open>The same record under the keep-alive of its worker, which ticks twice before it is cancelled.\<close>

lemma keep_alive_runs_example:
  "\<exists>w' t. run_state (transitionKeepAlive unpaged_etcd (tr_TransitionID silent_transition) 1 [KA_Tick, KA_Tick, KA_Cancel]) silent_world =
     (Some False, w') \<and> alive_in unpaged_etcd (refreshed silent_transition t) (kvs w')"
proof -
  have "stored_as unpaged_etcd (tr_TransitionID silent_transition) silent_transition [] (kvs silent_world)"
    unfolding stored_as_def page_ok_def by code_simp
  then have "alive_in unpaged_etcd silent_transition (kvs silent_world)"
    by (simp add: alive_in_def silent_facts(1) unpaged)
  moreover have "quiet silent_world" by (simp add: silent_world_def)
  ultimately show ?thesis using keep_alive_runs [of silent_world unpaged_etcd silent_transition 1 2]
    by (auto simp: numeral_2_eq_2)
qed

end
