(* ===== verification/PowerCapModel.thy ===== *)
theory PowerCapModel
  imports Storage Hsm
begin

text \<open>
  The records of power capping, \<^verbatim>\<open>internal/model/power-cap.go\<close>, their JSON form and their
  entries in the store (the power capping methods of
  \<^verbatim>\<open>internal/storage/storage_etcd_impl.go\<close>). A slice whose nilness nothing observes is a list,
  a \<open>*int\<close> is an \<open>int option\<close>.
\<close>

section \<open>Data\<close>

abbreviation "PowerCapTaskTypeSnapshot \<equiv> ''snapshot''"
abbreviation "PowerCapTaskTypePatch \<equiv> ''patch''"
abbreviation "PowerCapTaskStatusNew \<equiv> ''new''"
abbreviation "PowerCapTaskStatusInProgress \<equiv> ''in-progress''"
abbreviation "PowerCapTaskStatusCompleted \<equiv> ''completed''"
abbreviation "PowerCapOpStatusNew \<equiv> ''new''"
abbreviation "PowerCapOpStatusInProgress \<equiv> ''in-progress''"
abbreviation "PowerCapOpStatusFailed \<equiv> ''failed''"
abbreviation "PowerCapOpStatusSucceeded \<equiv> ''Succeeded''"
abbreviation "PowerCapOpStatusUnsupported \<equiv> ''Unsupported''"

record PowerCapSnapshotParameter =
  sp_Xnames :: "xname list"

record PowerCapControlParameter =
  cp_Name :: string
  cp_Value :: int

record PowerCapComponentParameter =
  cmp_Xname :: xname
  cmp_Controls :: "PowerCapControlParameter list"

record PowerCapPatchParameter =
  pp_Components :: "PowerCapComponentParameter list"

record PowerCapTaskCounts =
  pn_Total :: int
  pn_New :: int
  pn_InProgress :: int
  pn_Failed :: int
  pn_Succeeded :: int
  pn_Unsupported :: int

definition zero_pcounts :: PowerCapTaskCounts where
  "zero_pcounts = \<lparr>pn_Total = 0, pn_New = 0, pn_InProgress = 0, pn_Failed = 0, pn_Succeeded = 0, pn_Unsupported = 0\<rparr>"

record PowerCapabilities =
  pb_HostLimitMax :: "int option"
  pb_HostLimitMin :: "int option"
  pb_PowerupPower :: "int option"

record PowerCapControls =
  pl_Name :: string
  pl_CurrentValue :: "int option"
  pl_MaximumValue :: "int option"
  pl_MinimumValue :: "int option"

record PowerCapComponent =
  pk_Xname :: xname
  pk_Error :: string
  pk_Limits :: "PowerCapabilities option"
  pk_PowerCapLimits :: "PowerCapControls list"

record PowerCapTask =
  pt_TaskID :: uuid
  pt_Type :: string
  pt_SnapshotParameters :: "PowerCapSnapshotParameter option"
  pt_PatchParameters :: "PowerCapPatchParameter option"
  pt_TaskCreateTime :: time
  pt_AutomaticExpirationTime :: time
  pt_TaskStatus :: string
  pt_OperationIDs :: "uuid list"
  pt_IsCompressed :: bool
  pt_TaskCounts :: PowerCapTaskCounts
  pt_Components :: "PowerCapComponent list"

record PowerCapOperation =
  po_OperationID :: uuid
  po_TaskID :: uuid
  po_Type :: string
  po_Status :: string
  po_Component :: PowerCapComponent
  po_RfFQDN :: string
  po_PowerCapURI :: string
  po_PowerCapTargetURI :: string
  po_PowerCapControlsCount :: int
  po_PowerCapCtlInfoCount :: int
  po_PowerCaps :: "(string \<times> PowerCap) list"

record PowerCapTaskCreation =
  ptc_TaskID :: uuid

record PowerCapTaskResp =
  pr_TaskID :: uuid
  pr_Type :: string
  pr_TaskCreateTime :: time
  pr_AutomaticExpirationTime :: time
  pr_TaskStatus :: string
  pr_TaskCounts :: PowerCapTaskCounts
  pr_Components :: "PowerCapComponent list"

record PowerCapTaskRespArray =
  pra_Tasks :: "PowerCapTaskResp list"

definition zero_component :: PowerCapComponent where
  "zero_component = \<lparr>pk_Xname = [], pk_Error = [], pk_Limits = None, pk_PowerCapLimits = []\<rparr>"

definition zero_operation :: PowerCapOperation where
  "zero_operation = \<lparr>po_OperationID = uuid_nil, po_TaskID = uuid_nil, po_Type = [], po_Status = [],
     po_Component = zero_component, po_RfFQDN = [], po_PowerCapURI = [], po_PowerCapTargetURI = [],
     po_PowerCapControlsCount = 0, po_PowerCapCtlInfoCount = 0, po_PowerCaps = []\<rparr>"

section \<open>Constructors\<close>

definition newPowerCapTask :: "int \<Rightarrow> ('z, PowerCapTask) io" where
  "newPowerCapTask expirationTimeMins = do {
     u \<leftarrow> new_uuid;
     t1 \<leftarrow> now;
     t2 \<leftarrow> now;
     State_Monad.return \<lparr>pt_TaskID = u, pt_Type = [], pt_SnapshotParameters = None, pt_PatchParameters = None,
       pt_TaskCreateTime = t1, pt_AutomaticExpirationTime = t2 + minutes expirationTimeMins,
       pt_TaskStatus = PowerCapTaskStatusNew, pt_OperationIDs = [], pt_IsCompressed = False,
       pt_TaskCounts = zero_pcounts, pt_Components = []\<rparr> }"

definition NewPowerCapSnapshotTask :: "PowerCapSnapshotParameter \<Rightarrow> int \<Rightarrow> ('z, PowerCapTask) io" where
  "NewPowerCapSnapshotTask parameters expirationTimeMins = do {
     task \<leftarrow> newPowerCapTask expirationTimeMins;
     State_Monad.return (task\<lparr>pt_Type := PowerCapTaskTypeSnapshot, pt_SnapshotParameters := Some parameters\<rparr>) }"

definition NewPowerCapPatchTask :: "PowerCapPatchParameter \<Rightarrow> int \<Rightarrow> ('z, PowerCapTask) io" where
  "NewPowerCapPatchTask parameters expirationTimeMins = do {
     task \<leftarrow> newPowerCapTask expirationTimeMins;
     State_Monad.return (task\<lparr>pt_Type := PowerCapTaskTypePatch, pt_PatchParameters := Some parameters\<rparr>) }"

definition NewPowerCapOperation :: "uuid \<Rightarrow> string \<Rightarrow> ('z, PowerCapOperation) io" where
  "NewPowerCapOperation taskID operationType = do {
     u \<leftarrow> new_uuid;
     State_Monad.return (zero_operation\<lparr>po_OperationID := u, po_TaskID := taskID, po_Type := operationType,
       po_Status := PowerCapOpStatusNew\<rparr>) }"

section \<open>Comparison of responses\<close>

text \<open>
  \<open>PowerCapTaskResp.Equals\<close>. A component of \<open>a\<close> is compared with the components of
  \<open>b\<close> in order; a candidate that agrees on everything but its controls ends the
  whole comparison with false when one of them is not found.
\<close>

definition control_matches :: "PowerCapControls \<Rightarrow> PowerCapControls \<Rightarrow> bool" where
  "control_matches a b \<longleftrightarrow> pl_Name a = pl_Name b \<and> pl_CurrentValue a = pl_CurrentValue b \<and>
     pl_MaximumValue a = pl_MaximumValue b \<and> pl_MinimumValue a = pl_MinimumValue b"

definition component_matches :: "PowerCapComponent \<Rightarrow> PowerCapComponent \<Rightarrow> bool" where
  "component_matches a b \<longleftrightarrow> pk_Xname a = pk_Xname b \<and> pk_Error a = pk_Error b \<and> pk_Limits a = pk_Limits b \<and>
     length (pk_PowerCapLimits a) = length (pk_PowerCapLimits b)"

fun find_component :: "PowerCapComponent \<Rightarrow> PowerCapComponent list \<Rightarrow> bool" where
  "find_component a [] = False"
| "find_component a (b # bs) =
     (if \<not> component_matches a b then find_component a bs
      else list_all (\<lambda>c. list_ex (control_matches c) (pk_PowerCapLimits b)) (pk_PowerCapLimits a))"

definition PowerCapTaskResp_Equals :: "PowerCapTaskResp \<Rightarrow> PowerCapTaskResp \<Rightarrow> bool" where
  "PowerCapTaskResp_Equals a b \<longleftrightarrow> pr_Type a = pr_Type b \<and> pr_TaskStatus a = pr_TaskStatus b \<and>
     pr_TaskCounts a = pr_TaskCounts b \<and> length (pr_Components a) = length (pr_Components b) \<and>
     list_all (\<lambda>c. find_component c (pr_Components b)) (pr_Components a)"

end
