(* ===== verification/PowerCapStore.thy ===== *)
theory PowerCapStore
  imports PowerCapModel
begin

text \<open>
  The JSON form of the power capping records and their entries in the store, the power
  capping methods of \<^verbatim>\<open>internal/storage/storage_etcd_impl.go\<close>. Tasks are kept under
  \<open>/powercaptask\<close>, operations under \<open>/powercapop\<close> by task, so both are instances of
  \<open>keyed_entity\<close>.
\<close>

section \<open>JSON\<close>

definition json_int :: "json \<Rightarrow> int option" where
  "json_int j = (case j of JNum i \<Rightarrow> Some i | _ \<Rightarrow> None)"

interpretation int_codec: codec JNum json_int "\<lambda>_. True"
  by unfold_locales (simp_all add: json_int_def)

definition dec_list :: "(json \<Rightarrow> 'a option) \<Rightarrow> (string \<times> json) list \<Rightarrow> string \<Rightarrow> 'a list option" where
  "dec_list f ob k = map_option sl (dec_slice f ob k)"

definition omit_list :: "string \<Rightarrow> ('a \<Rightarrow> json) \<Rightarrow> 'a list \<Rightarrow> (string \<times> json) list" where
  "omit_list k f xs = (if xs = [] then [] else [(k, JArr (map f xs))])"

definition enc_Control :: "PowerCapControls \<Rightarrow> json" where
  "enc_Control c = JObj ((''name'', JStr (pl_Name c)) #
     omit_ptr ''currentValue'' JNum (pl_CurrentValue c) @
     omit_ptr ''maximumValue'' JNum (pl_MaximumValue c) @
     omit_ptr ''minimumValue'' JNum (pl_MinimumValue c))"

definition dec_Control :: "json \<Rightarrow> PowerCapControls option" where
  "dec_Control j = (case j of JObj ob \<Rightarrow> do {
       n \<leftarrow> dec_str ob ''name'';
       c \<leftarrow> dec_ptr json_int ob ''currentValue'';
       mx \<leftarrow> dec_ptr json_int ob ''maximumValue'';
       mn \<leftarrow> dec_ptr json_int ob ''minimumValue'';
       Some \<lparr>pl_Name = n, pl_CurrentValue = c, pl_MaximumValue = mx, pl_MinimumValue = mn\<rparr> } | _ \<Rightarrow> None)"

lemma ptr_fields:
  "map_of (omit_ptr k f x) k' = (if k = k' then map_option f x else None)"
  "map_of (omit_str k s) k' = (if k = k' \<and> s \<noteq> [] then Some (JStr s) else None)"
  "map_of (omit_list k f xs) k' = (if k = k' \<and> xs \<noteq> [] then Some (JArr (map f xs)) else None)"
  by (simp_all add: omit_ptr_def omit_str_def omit_list_def split: option.splits)

lemmas field_simps_json = dec_str_def dec_int_def dec_bool_def dec_time_def dec_uuid_def enc_uuid_def json_uuid_def
  dec_ptr_def dec_list_def dec_slice_def ptr_fields map_add_def json_int_def

interpretation ctl_codec: codec enc_Control dec_Control "\<lambda>_. True"
proof
  show "dec_Control (enc_Control x) = Some x" for x
    by (cases x; cases "pl_CurrentValue x"; cases "pl_MaximumValue x"; cases "pl_MinimumValue x")
      (simp add: dec_Control_def enc_Control_def field_simps_json)+
qed (simp add: enc_Control_def)

definition enc_Capabilities :: "PowerCapabilities \<Rightarrow> json" where
  "enc_Capabilities c = JObj (omit_ptr ''hostLimitMax'' JNum (pb_HostLimitMax c) @
     omit_ptr ''hostLimitMin'' JNum (pb_HostLimitMin c) @ omit_ptr ''powerupPower'' JNum (pb_PowerupPower c))"

definition dec_Capabilities :: "json \<Rightarrow> PowerCapabilities option" where
  "dec_Capabilities j = (case j of JObj ob \<Rightarrow> do {
       mx \<leftarrow> dec_ptr json_int ob ''hostLimitMax'';
       mn \<leftarrow> dec_ptr json_int ob ''hostLimitMin'';
       p \<leftarrow> dec_ptr json_int ob ''powerupPower'';
       Some \<lparr>pb_HostLimitMax = mx, pb_HostLimitMin = mn, pb_PowerupPower = p\<rparr> } | _ \<Rightarrow> None)"

interpretation cap_codec: codec enc_Capabilities dec_Capabilities "\<lambda>_. True"
proof
  show "dec_Capabilities (enc_Capabilities x) = Some x" for x
    by (cases x; cases "pb_HostLimitMax x"; cases "pb_HostLimitMin x"; cases "pb_PowerupPower x")
      (simp add: dec_Capabilities_def enc_Capabilities_def field_simps_json)+
qed (simp add: enc_Capabilities_def)

definition enc_PcComponent :: "PowerCapComponent \<Rightarrow> json" where
  "enc_PcComponent c = JObj ((''xname'', JStr (pk_Xname c)) # omit_str ''error'' (pk_Error c) @
     omit_ptr ''limits'' enc_Capabilities (pk_Limits c) @ omit_list ''powerCapLimits'' enc_Control (pk_PowerCapLimits c))"

definition dec_PcComponent :: "json \<Rightarrow> PowerCapComponent option" where
  "dec_PcComponent j = (case j of JObj ob \<Rightarrow> do {
       x \<leftarrow> dec_str ob ''xname'';
       e \<leftarrow> dec_str ob ''error'';
       l \<leftarrow> dec_ptr dec_Capabilities ob ''limits'';
       cs \<leftarrow> dec_list dec_Control ob ''powerCapLimits'';
       Some \<lparr>pk_Xname = x, pk_Error = e, pk_Limits = l, pk_PowerCapLimits = cs\<rparr> } | _ \<Rightarrow> None)"

interpretation pcc_codec: codec enc_PcComponent dec_PcComponent "\<lambda>_. True"
proof
  show "dec_PcComponent (enc_PcComponent x) = Some x" for x
    using ctl_codec.dec_all_enc [of "pk_PowerCapLimits x"]
    by (cases x; cases "pk_Limits x"; cases "pk_PowerCapLimits x")
      (simp add: dec_PcComponent_def enc_PcComponent_def field_simps_json cap_codec.dec_enc cap_codec.enc_not_null list_all_iff)+
qed (simp add: enc_PcComponent_def)

definition enc_PcCounts :: "PowerCapTaskCounts \<Rightarrow> json" where
  "enc_PcCounts c = JObj [(''total'', JNum (pn_Total c)), (''new'', JNum (pn_New c)),
     (''in-progress'', JNum (pn_InProgress c)), (''failed'', JNum (pn_Failed c)),
     (''succeeded'', JNum (pn_Succeeded c)), (''un-supported'', JNum (pn_Unsupported c))]"

definition dec_PcCounts :: "json \<Rightarrow> PowerCapTaskCounts option" where
  "dec_PcCounts j = (case j of JObj ob \<Rightarrow> do {
       t \<leftarrow> dec_int ob ''total'';
       n \<leftarrow> dec_int ob ''new'';
       i \<leftarrow> dec_int ob ''in-progress'';
       f \<leftarrow> dec_int ob ''failed'';
       s \<leftarrow> dec_int ob ''succeeded'';
       u \<leftarrow> dec_int ob ''un-supported'';
       Some \<lparr>pn_Total = t, pn_New = n, pn_InProgress = i, pn_Failed = f, pn_Succeeded = s,
         pn_Unsupported = u\<rparr> } | _ \<Rightarrow> None)"

interpretation pcn_codec: codec enc_PcCounts dec_PcCounts "\<lambda>_. True"
proof
  show "dec_PcCounts (enc_PcCounts x) = Some x" for x
    by (cases x) (simp add: dec_PcCounts_def enc_PcCounts_def dec_int_def)
qed (simp add: enc_PcCounts_def)

definition enc_CtlParam :: "PowerCapControlParameter \<Rightarrow> json" where
  "enc_CtlParam c = JObj [(''name'', JStr (cp_Name c)), (''value'', JNum (cp_Value c))]"

definition dec_CtlParam :: "json \<Rightarrow> PowerCapControlParameter option" where
  "dec_CtlParam j = (case j of JObj ob \<Rightarrow> do {
       n \<leftarrow> dec_str ob ''name'';
       v \<leftarrow> dec_int ob ''value'';
       Some \<lparr>cp_Name = n, cp_Value = v\<rparr> } | _ \<Rightarrow> None)"

interpretation cp_codec: codec enc_CtlParam dec_CtlParam "\<lambda>_. True"
proof
  show "dec_CtlParam (enc_CtlParam x) = Some x" for x
    by (cases x) (simp add: dec_CtlParam_def enc_CtlParam_def field_simps_json)
qed (simp add: enc_CtlParam_def)

definition enc_CompParam :: "PowerCapComponentParameter \<Rightarrow> json" where
  "enc_CompParam c = JObj [(''xname'', JStr (cmp_Xname c)), (''controls'', JArr (map enc_CtlParam (cmp_Controls c)))]"

definition dec_CompParam :: "json \<Rightarrow> PowerCapComponentParameter option" where
  "dec_CompParam j = (case j of JObj ob \<Rightarrow> do {
       x \<leftarrow> dec_str ob ''xname'';
       cs \<leftarrow> dec_list dec_CtlParam ob ''controls'';
       Some \<lparr>cmp_Xname = x, cmp_Controls = cs\<rparr> } | _ \<Rightarrow> None)"

interpretation cmp_codec: codec enc_CompParam dec_CompParam "\<lambda>_. True"
proof
  show "dec_CompParam (enc_CompParam x) = Some x" for x
    using cp_codec.dec_all_enc [of "cmp_Controls x"]
    by (cases x) (simp add: dec_CompParam_def enc_CompParam_def field_simps_json list_all_iff)
qed (simp add: enc_CompParam_def)

definition enc_Patch :: "PowerCapPatchParameter \<Rightarrow> json" where
  "enc_Patch p = JObj [(''components'', JArr (map enc_CompParam (pp_Components p)))]"

definition dec_Patch :: "json \<Rightarrow> PowerCapPatchParameter option" where
  "dec_Patch j = (case j of JObj ob \<Rightarrow> do { cs \<leftarrow> dec_list dec_CompParam ob ''components''; Some \<lparr>pp_Components = cs\<rparr> } | _ \<Rightarrow> None)"

interpretation patch_codec: codec enc_Patch dec_Patch "\<lambda>_. True"
proof
  show "dec_Patch (enc_Patch x) = Some x" for x
    using cmp_codec.dec_all_enc [of "pp_Components x"]
    by (cases x) (simp add: dec_Patch_def enc_Patch_def field_simps_json list_all_iff)
qed (simp add: enc_Patch_def)

definition enc_Snapshot :: "PowerCapSnapshotParameter \<Rightarrow> json" where
  "enc_Snapshot p = JObj [(''xnames'', JArr (map JStr (sp_Xnames p)))]"

definition dec_Snapshot :: "json \<Rightarrow> PowerCapSnapshotParameter option" where
  "dec_Snapshot j = (case j of JObj ob \<Rightarrow> do {
       xs \<leftarrow> dec_list (\<lambda>j. case j of JStr s \<Rightarrow> Some s | _ \<Rightarrow> None) ob ''xnames''; Some \<lparr>sp_Xnames = xs\<rparr> } | _ \<Rightarrow> None)"

interpretation snap_codec: codec enc_Snapshot dec_Snapshot "\<lambda>_. True"
proof
  show "dec_Snapshot (enc_Snapshot x) = Some x" for x
    using str_codec.dec_all_enc [of "sp_Xnames x"]
    by (cases x) (simp add: dec_Snapshot_def enc_Snapshot_def field_simps_json list_all_iff)
qed (simp add: enc_Snapshot_def)

definition enc_PcTask :: "PowerCapTask \<Rightarrow> json" where
  "enc_PcTask t = JObj ([(''taskID'', enc_uuid (pt_TaskID t)), (''type'', JStr (pt_Type t))] @
     omit_ptr ''snapshotParameters'' enc_Snapshot (pt_SnapshotParameters t) @
     omit_ptr ''patchParameters'' enc_Patch (pt_PatchParameters t) @
     [(''taskCreateTime'', JTime (pt_TaskCreateTime t)),
      (''automaticExpirationTime'', JTime (pt_AutomaticExpirationTime t)),
      (''taskStatus'', JStr (pt_TaskStatus t)),
      (''OperationIDs'', JArr (map enc_uuid (pt_OperationIDs t))),
      (''isCompressed'', JBool (pt_IsCompressed t)),
      (''taskCounts'', enc_PcCounts (pt_TaskCounts t))] @
     omit_list ''components'' enc_PcComponent (pt_Components t))"

definition dec_PcTask :: "json \<Rightarrow> PowerCapTask option" where
  "dec_PcTask j = (case j of JObj ob \<Rightarrow> do {
       i \<leftarrow> dec_uuid ob ''taskID'';
       ty \<leftarrow> dec_str ob ''type'';
       sn \<leftarrow> dec_ptr dec_Snapshot ob ''snapshotParameters'';
       pa \<leftarrow> dec_ptr dec_Patch ob ''patchParameters'';
       ct \<leftarrow> dec_time ob ''taskCreateTime'';
       ex \<leftarrow> dec_time ob ''automaticExpirationTime'';
       st \<leftarrow> dec_str ob ''taskStatus'';
       ids \<leftarrow> dec_list json_uuid ob ''OperationIDs'';
       co \<leftarrow> dec_bool ob ''isCompressed'';
       cn \<leftarrow> dec_enum dec_PcCounts zero_pcounts ob ''taskCounts'';
       cs \<leftarrow> dec_list dec_PcComponent ob ''components'';
       Some \<lparr>pt_TaskID = i, pt_Type = ty, pt_SnapshotParameters = sn, pt_PatchParameters = pa,
         pt_TaskCreateTime = ct, pt_AutomaticExpirationTime = ex, pt_TaskStatus = st, pt_OperationIDs = ids,
         pt_IsCompressed = co, pt_TaskCounts = cn, pt_Components = cs\<rparr> } | _ \<Rightarrow> None)"

definition wf_pctask :: "PowerCapTask \<Rightarrow> bool" where
  "wf_pctask t \<longleftrightarrow> uuid_ok (pt_TaskID t) \<and> list_all uuid_ok (pt_OperationIDs t)"

interpretation pctask_codec: codec enc_PcTask dec_PcTask wf_pctask
proof
  fix t :: PowerCapTask
  assume "wf_pctask t"
  then show "dec_PcTask (enc_PcTask t) = Some t"
    using uuid_codec.dec_all_enc [of "pt_OperationIDs t"] pcc_codec.dec_all_enc [of "pt_Components t"]
    by (cases t; cases "pt_SnapshotParameters t"; cases "pt_PatchParameters t"; cases "pt_Components t")
      (simp add: wf_pctask_def dec_PcTask_def enc_PcTask_def field_simps_json dec_enum_def list_all_iff
        snap_codec.dec_enc snap_codec.enc_not_null patch_codec.dec_enc patch_codec.enc_not_null
        pcn_codec.dec_enc pcn_codec.enc_not_null)+
qed (simp add: enc_PcTask_def)

text \<open>A Go map is written with its keys in order; \<open>hsm.PowerCap\<close> has no field tags.\<close>

definition enc_Cap :: "PowerCap \<Rightarrow> json" where
  "enc_Cap c = JObj [(''Name'', JStr (pc_Name c)), (''Path'', JStr (pc_Path c)), (''Min'', JNum (pc_Min c)),
     (''Max'', JNum (pc_Max c)), (''PwrCtlIndex'', JNum (pc_PwrCtlIndex c))]"

definition dec_Cap :: "json \<Rightarrow> PowerCap option" where
  "dec_Cap j = (case j of JObj ob \<Rightarrow> do {
       n \<leftarrow> dec_str ob ''Name'';
       p \<leftarrow> dec_str ob ''Path'';
       mn \<leftarrow> dec_int ob ''Min'';
       mx \<leftarrow> dec_int ob ''Max'';
       i \<leftarrow> dec_int ob ''PwrCtlIndex'';
       Some \<lparr>pc_Name = n, pc_Path = p, pc_Min = mn, pc_Max = mx, pc_PwrCtlIndex = i\<rparr> } | _ \<Rightarrow> None)"

lemma dec_enc_Cap: "dec_Cap (enc_Cap c) = Some c"
  by (cases c) (simp add: dec_Cap_def enc_Cap_def field_simps_json)

definition enc_caps :: "(string \<times> PowerCap) list \<Rightarrow> json" where
  "enc_caps m = JObj (map (\<lambda>(k, c). (k, enc_Cap c)) (sort_key fst m))"

fun dec_caps_list :: "(string \<times> json) list \<Rightarrow> (string \<times> PowerCap) list option" where
  "dec_caps_list [] = Some []"
| "dec_caps_list ((k, j) # ob) = do { c \<leftarrow> dec_Cap j; m \<leftarrow> dec_caps_list ob; Some ((k, c) # m) }"

definition dec_caps :: "(string \<times> json) list \<Rightarrow> string \<Rightarrow> (string \<times> PowerCap) list option" where
  "dec_caps ob k = (case map_of ob k of None \<Rightarrow> Some [] | Some JNull \<Rightarrow> Some []
     | Some (JObj kvl) \<Rightarrow> dec_caps_list kvl | _ \<Rightarrow> None)"

lemma dec_caps_list_enc: "dec_caps_list (map (\<lambda>(k, c). (k, enc_Cap c)) m) = Some m"
  by (induction m) (auto simp: dec_enc_Cap)

definition enc_PcOp :: "PowerCapOperation \<Rightarrow> json" where
  "enc_PcOp p = JObj [(''operationID'', enc_uuid (po_OperationID p)), (''taskID'', enc_uuid (po_TaskID p)),
     (''type'', JStr (po_Type p)), (''status'', JStr (po_Status p)), (''Component'', enc_PcComponent (po_Component p)),
     (''RfFQDN'', JStr (po_RfFQDN p)), (''powerCapURI'', JStr (po_PowerCapURI p)),
     (''powerCapTargetURI'', JStr (po_PowerCapTargetURI p)),
     (''powerCapControlsCount'', JNum (po_PowerCapControlsCount p)),
     (''powerCapCtlInfoCount'', JNum (po_PowerCapCtlInfoCount p)), (''powerCap'', enc_caps (po_PowerCaps p))]"

definition dec_PcOp :: "json \<Rightarrow> PowerCapOperation option" where
  "dec_PcOp j = (case j of JObj ob \<Rightarrow> do {
       i \<leftarrow> dec_uuid ob ''operationID'';
       t \<leftarrow> dec_uuid ob ''taskID'';
       ty \<leftarrow> dec_str ob ''type'';
       st \<leftarrow> dec_str ob ''status'';
       c \<leftarrow> dec_enum dec_PcComponent zero_component ob ''Component'';
       f \<leftarrow> dec_str ob ''RfFQDN'';
       u \<leftarrow> dec_str ob ''powerCapURI'';
       tu \<leftarrow> dec_str ob ''powerCapTargetURI'';
       cc \<leftarrow> dec_int ob ''powerCapControlsCount'';
       ci \<leftarrow> dec_int ob ''powerCapCtlInfoCount'';
       m \<leftarrow> dec_caps ob ''powerCap'';
       Some \<lparr>po_OperationID = i, po_TaskID = t, po_Type = ty, po_Status = st, po_Component = c, po_RfFQDN = f,
         po_PowerCapURI = u, po_PowerCapTargetURI = tu, po_PowerCapControlsCount = cc, po_PowerCapCtlInfoCount = ci,
         po_PowerCaps = m\<rparr> } | _ \<Rightarrow> None)"

definition wf_pcop :: "PowerCapOperation \<Rightarrow> bool" where
  "wf_pcop p \<longleftrightarrow> uuid_ok (po_OperationID p) \<and> uuid_ok (po_TaskID p) \<and> sorted (keys (po_PowerCaps p))"

interpretation pcop_codec: codec enc_PcOp dec_PcOp wf_pcop
proof
  fix p :: PowerCapOperation
  assume "wf_pcop p"
  then show "dec_PcOp (enc_PcOp p) = Some p"
    by (cases p) (simp add: wf_pcop_def keys_def dec_PcOp_def enc_PcOp_def field_simps_json dec_enum_def dec_caps_def enc_caps_def
        dec_caps_list_enc sort_key_id_if_sorted pcc_codec.dec_enc pcc_codec.enc_not_null)
qed (simp add: enc_PcOp_def)

section \<open>The store\<close>

definition keySegPowerCap :: string where "keySegPowerCap = ''/powercaptask''"
definition keySegPowerCapOp :: string where "keySegPowerCapOp = ''/powercapop''"

definition pctask_key :: "uuid \<Rightarrow> string" where
  "pctask_key taskID = keySegPowerCap @ ''/'' @ taskID"

definition pcop_key :: "uuid \<Rightarrow> uuid \<Rightarrow> string" where
  "pcop_key taskID opID = keySegPowerCapOp @ ''/'' @ taskID @ ''/'' @ opID"

definition StorePowerCapTask :: "ETCDStorage \<Rightarrow> PowerCapTask \<Rightarrow> ('z, err option) io" where
  "StorePowerCapTask e task = kvStore e (pctask_key (pt_TaskID task)) (enc_PcTask task)"

definition StorePowerCapOperation :: "ETCDStorage \<Rightarrow> PowerCapOperation \<Rightarrow> ('z, err option) io" where
  "StorePowerCapOperation e p = kvStore e (pcop_key (po_TaskID p) (po_OperationID p)) (enc_PcOp p)"

definition GetPowerCapTask :: "ETCDStorage \<Rightarrow> uuid \<Rightarrow> ('z, err + PowerCapTask) io" where
  "GetPowerCapTask e taskID = kvGet e dec_PcTask (pctask_key taskID)"

definition GetPowerCapOperation :: "ETCDStorage \<Rightarrow> uuid \<Rightarrow> uuid \<Rightarrow> ('z, err + PowerCapOperation) io" where
  "GetPowerCapOperation e taskID opID = kvGet e dec_PcOp (pcop_key taskID opID)"

definition GetAllPowerCapOperationsForTask :: "ETCDStorage \<Rightarrow> uuid \<Rightarrow> ('z, PowerCapOperation list \<times> err option) io" where
  "GetAllPowerCapOperationsForTask e taskID =
     (let k = fixUpKey (keySegPowerCapOp @ ''/'' @ taskID) in kvRange e dec_PcOp (k @ keyMin) (k @ keyMax))"

definition GetAllPowerCapTasks :: "ETCDStorage \<Rightarrow> ('z, PowerCapTask list \<times> err option) io" where
  "GetAllPowerCapTasks e = (let k = fixUpKey keySegPowerCap in kvRange e dec_PcTask (k @ keyMin) (k @ keyMax))"

definition DeletePowerCapTask :: "ETCDStorage \<Rightarrow> uuid \<Rightarrow> ('z, err option) io" where
  "DeletePowerCapTask e taskID = kvDelete e (pctask_key taskID)"

definition DeletePowerCapOperation :: "ETCDStorage \<Rightarrow> uuid \<Rightarrow> uuid \<Rightarrow> ('z, err option) io" where
  "DeletePowerCapOperation e taskID opID = kvDelete e (pcop_key taskID opID)"

lemmas powercap_storage_defs = StorePowerCapTask_def StorePowerCapOperation_def GetPowerCapTask_def GetPowerCapOperation_def
  GetAllPowerCapOperationsForTask_def GetAllPowerCapTasks_def DeletePowerCapTask_def DeletePowerCapOperation_def

lemma fixUpKey_pctask: "fixUpKey (pctask_key t) = ''/pcs/powercaptask/'' @ t"
  by (simp add: fixUpKey_def pctask_key_def keySegPowerCap_def keyPrefix_def has_prefix_def)

lemma fixUpKey_pcop: "fixUpKey (pcop_key t i) = ''/pcs/powercapop/'' @ t @ ''/'' @ i"
  by (simp add: fixUpKey_def pcop_key_def keySegPowerCapOp_def keyPrefix_def has_prefix_def)

interpretation pctask_store: keyed_entity enc_PcTask dec_PcTask wf_pctask pctask_key pt_TaskID "\<lambda>_. True"
  by unfold_locales (simp add: fixUpKey_pctask)

interpretation pcop_store: keyed_entity enc_PcOp dec_PcOp wf_pcop
  "\<lambda>(t, i). pcop_key t i" "\<lambda>p. (po_TaskID p, po_OperationID p)" "\<lambda>(t, i). uuid_ok t \<and> uuid_ok i"
  by unfold_locales (auto simp: fixUpKey_pcop append_eq_append_conv uuid_ok_length)

context action_inv
begin

lemma keeps_powercap_storage [keeps_intro]:
  "keeps P (StorePowerCapTask e t)" "keeps P (StorePowerCapOperation e p)" "keeps P (GetPowerCapTask e i)"
  "keeps P (GetPowerCapOperation e i j)" "keeps P (GetAllPowerCapOperationsForTask e i)" "keeps P (GetAllPowerCapTasks e)"
  "keeps P (DeletePowerCapTask e i)" "keeps P (DeletePowerCapOperation e i j)"
  unfolding powercap_storage_defs Let_def kvRange_def by (intro keeps_intro)+

end

end
