(* ===== verification/PowerCap.thy ===== *)
theory PowerCap
  imports PowerCapStore TransitionWorker
begin

text \<open>
  Power capping, \<^verbatim>\<open>internal/domain/power-cap.go\<close>: the operations of the API, the response,
  the worker \<open>doPowerCapTask\<close> in its stages, the Redfish payloads and answers, and the reaper.
  Inventory and task launcher are arguments as for transitions; a decoded Redfish body is what
  \<open>json.Unmarshal\<close> gives. \<open>None\<close> stands for a panic.
\<close>

section \<open>Redfish\<close>

text \<open>The fields of the Redfish structs that the service reads or writes.\<close>

record HpePowerLimitRanges =
  plr_MaximumPowerLimit :: "int option"
  plr_MinimumPowerLimit :: "int option"

record HpePowerLimits =
  hpl_PowerLimitInWatts :: "int option"

record PowerLimitOEMCray =
  ploc_Min :: "int option"
  ploc_Max :: "int option"

record PowerControlOEMCray =
  pcoc_PowerLimit :: "PowerLimitOEMCray option"
  pcoc_PowerResetWatts :: "int option"

record PowerControlOEM =
  pco_Cray :: "PowerControlOEMCray option"

record PowerLimit =
  plim_LimitInWatts :: "int option"

record PowerControl =
  pct_Name :: string
  pct_OEM :: "PowerControlOEM option"
  pct_PowerCapacityWatts :: "int option"
  pct_PowerLimit :: "PowerLimit option"

record HpeError =
  he_Code :: string
  he_Message :: string

record Power =
  pw_Name :: string
  pw_PowerCtl :: "PowerControl list"
  pw_Error :: "HpeError option"
  pw_ActualPowerLimits :: "HpePowerLimits list"
  pw_PowerLimitRanges :: "HpePowerLimitRanges list"
  pw_PowerLimits :: "HpePowerLimits list"
  pw_PhysicalContext :: string
  pw_SetPoint :: "int option"
  pw_SettingRangeMax :: "int option"
  pw_SettingRangeMin :: "int option"

definition isHpeServer :: "string \<Rightarrow> bool" where
  "isHpeServer powerURL = str_contains powerURL ''Chassis/1/Power''"

definition isHpeApollo6500 :: "string \<Rightarrow> bool" where
  "isHpeApollo6500 powerURL = str_contains powerURL ''AccPowerService/PowerLimit''"

text \<open>\<open>path.Clean\<close> and \<open>path.Dir\<close> of the Go library.\<close>

definition clean_step :: "bool \<Rightarrow> string list \<Rightarrow> string \<Rightarrow> string list" where
  "clean_step rooted acc seg =
     (if seg = [] \<or> seg = ''.'' then acc
      else if seg = ''..'' then
        (if acc \<noteq> [] \<and> last acc \<noteq> ''..'' then butlast acc else if rooted then acc else acc @ [seg])
      else acc @ [seg])"

definition path_clean :: "string \<Rightarrow> string" where
  "path_clean p =
     (let rooted = has_prefix p ''/''; segs = foldl (clean_step rooted) [] (split_on (CHR ''/'') p) in
      if rooted then CHR ''/'' # join ''/'' segs else if segs = [] then ''.'' else join ''/'' segs)"

definition path_dir :: "string \<Rightarrow> string" where
  "path_dir p = path_clean (rev (dropWhile (\<lambda>c. c \<noteq> CHR ''/'') (rev p)))"

section \<open>Responses\<close>

definition count_op :: "PowerCapOperation \<Rightarrow> PowerCapTaskCounts \<Rightarrow> PowerCapTaskCounts" where
  "count_op p c =
     (let c1 = (if po_Status p = PowerCapOpStatusNew then c\<lparr>pn_New := pn_New c + 1\<rparr>
                else if po_Status p = PowerCapOpStatusInProgress then c\<lparr>pn_InProgress := pn_InProgress c + 1\<rparr>
                else if po_Status p = PowerCapOpStatusFailed then c\<lparr>pn_Failed := pn_Failed c + 1\<rparr>
                else if po_Status p = PowerCapOpStatusSucceeded then c\<lparr>pn_Succeeded := pn_Succeeded c + 1\<rparr>
                else if po_Status p = PowerCapOpStatusUnsupported then c\<lparr>pn_Unsupported := pn_Unsupported c + 1\<rparr>
                else c)
      in c1\<lparr>pn_Total := pn_Total c1 + 1\<rparr>)"

definition append_error :: "string \<Rightarrow> PowerCapComponent \<Rightarrow> PowerCapComponent" where
  "append_error msg c = c\<lparr>pk_Error := (if pk_Error c \<noteq> [] then pk_Error c @ ''; '' else []) @ msg\<rparr>"

text \<open>The limits of a later operation are taken only when there are limits already, as in the source.\<close>

definition merge_component :: "PowerCapComponent \<Rightarrow> PowerCapComponent \<Rightarrow> PowerCapComponent" where
  "merge_component c0 new =
     (if pk_Error new \<noteq> [] then append_error (pk_Error new) c0
      else let c1 = (if pk_Limits new \<noteq> None \<and> pk_Limits c0 \<noteq> None then c0\<lparr>pk_Limits := pk_Limits new\<rparr> else c0)
           in c1\<lparr>pk_PowerCapLimits := pk_PowerCapLimits c1 @ pk_PowerCapLimits new\<rparr>)"

definition add_component :: "PowerCapOperation \<Rightarrow> (xname \<times> PowerCapComponent) list \<Rightarrow> (xname \<times> PowerCapComponent) list" where
  "add_component p m = (let c = po_Component p in
     AList.update (pk_Xname c) (case map_of m (pk_Xname c) of None \<Rightarrow> c | Some d \<Rightarrow> merge_component d c) m)"

definition buildPowerCapResponse :: "PowerCapTask \<Rightarrow> PowerCapOperation list \<Rightarrow> bool \<Rightarrow> ('z, PowerCapTaskResp) io" where
  "buildPowerCapResponse task ops full =
     (let rsp = \<lparr>pr_TaskID = pt_TaskID task, pr_Type = pt_Type task, pr_TaskCreateTime = pt_TaskCreateTime task,
            pr_AutomaticExpirationTime = pt_AutomaticExpirationTime task, pr_TaskStatus = pt_TaskStatus task,
            pr_TaskCounts = zero_pcounts, pr_Components = []\<rparr> in
      if pt_IsCompressed task then
        State_Monad.return (rsp\<lparr>pr_TaskCounts := pt_TaskCounts task,
          pr_Components := (if full then pt_Components task else [])\<rparr>)
      else do {
        let rsp' = rsp\<lparr>pr_TaskCounts := fold count_op ops zero_pcounts\<rparr>;
        if full then do {
          comps \<leftarrow> range_over (map snd (fold add_component ops []));
          State_Monad.return (rsp'\<lparr>pr_Components := comps\<rparr>) }
        else State_Monad.return rsp' })"

section \<open>Requests of the API\<close>

text \<open>The second component lists the workers started with \<open>go\<close>.\<close>

definition start_task :: "ETCDStorage \<Rightarrow> PowerCapTask \<Rightarrow> ('z, PowerCapTaskCreation Passback \<times> uuid list) io" where
  "start_task e task = do {
     err \<leftarrow> StorePowerCapTask e task;
     State_Monad.return (case err of Some x \<Rightarrow> (BuildErrorPassback 500 x, [])
       | None \<Rightarrow> (BuildSuccessPassback 200 \<lparr>ptc_TaskID = pt_TaskID task\<rparr>, [pt_TaskID task])) }"

definition SnapshotPowerCap :: "ETCDStorage \<Rightarrow> int \<Rightarrow> PowerCapSnapshotParameter
    \<Rightarrow> ('z, PowerCapTaskCreation Passback \<times> uuid list) io" where
  "SnapshotPowerCap e expireTimeMins parameters = do {
     task \<leftarrow> NewPowerCapSnapshotTask parameters expireTimeMins;
     start_task e task }"

definition PatchPowerCap :: "ETCDStorage \<Rightarrow> int \<Rightarrow> PowerCapPatchParameter
    \<Rightarrow> ('z, PowerCapTaskCreation Passback \<times> uuid list) io" where
  "PatchPowerCap e expireTimeMins parameters = do {
     task \<leftarrow> NewPowerCapPatchTask parameters expireTimeMins;
     start_task e task }"

fun powercap_responses :: "ETCDStorage \<Rightarrow> PowerCapTask list \<Rightarrow> PowerCapTaskResp list
    \<Rightarrow> ('z, PowerCapTaskRespArray Passback) io" where
  "powercap_responses e [] rsp = State_Monad.return (BuildSuccessPassback 200 \<lparr>pra_Tasks = rsp\<rparr>)"
| "powercap_responses e (task # tasks) rsp = do {
     (ops, err) \<leftarrow> (if \<not> pt_IsCompressed task then GetAllPowerCapOperationsForTask e (pt_TaskID task)
                    else State_Monad.return ([], None));
     case err of Some x \<Rightarrow> State_Monad.return (BuildErrorPassback 500 x)
     | None \<Rightarrow> do {
         r \<leftarrow> buildPowerCapResponse task ops False;
         powercap_responses e tasks (rsp @ [r]) } }"

definition GetPowerCap :: "ETCDStorage \<Rightarrow> ('z, PowerCapTaskRespArray Passback) io" where
  "GetPowerCap e = do {
     (tasks, err) \<leftarrow> GetAllPowerCapTasks e;
     case err of Some x \<Rightarrow> State_Monad.return (BuildErrorPassback 500 x)
     | None \<Rightarrow> powercap_responses e tasks [] }"

text \<open>A task found under another identifier sets a 404 that is overwritten below, as in the source.\<close>

definition GetPowerCapQuery :: "ETCDStorage \<Rightarrow> uuid \<Rightarrow> ('z, PowerCapTaskResp Passback) io" where
  "GetPowerCapQuery e taskID = do {
     r \<leftarrow> GetPowerCapTask e taskID;
     case r of
       Inl x \<Rightarrow> State_Monad.return (not_found_or_internal x)
     | Inr task \<Rightarrow> do {
         (ops, err) \<leftarrow> (if \<not> pt_IsCompressed task then GetAllPowerCapOperationsForTask e taskID
                        else State_Monad.return ([], None));
         case err of Some x \<Rightarrow> State_Monad.return (BuildErrorPassback 500 x)
         | None \<Rightarrow> do {
             rsp \<leftarrow> buildPowerCapResponse task ops True;
             State_Monad.return (BuildSuccessPassback 200 rsp) } } }"

section \<open>Completion\<close>

definition delete_op :: "ETCDStorage \<Rightarrow> uuid \<Rightarrow> PowerCapOperation \<Rightarrow> ('z, unit) io" where
  "delete_op e taskID p = do { _ \<leftarrow> DeletePowerCapOperation e taskID (po_OperationID p); State_Monad.return () }"

definition compressAndCompleteTask :: "ETCDStorage \<Rightarrow> PowerCapTask \<Rightarrow> ('z, unit) io" where
  "compressAndCompleteTask e task = do {
     (ops, err) \<leftarrow> GetAllPowerCapOperationsForTask e (pt_TaskID task);
     if err \<noteq> None then State_Monad.return ()
     else do {
       rsp \<leftarrow> buildPowerCapResponse task ops True;
       err \<leftarrow> StorePowerCapTask e (task\<lparr>pt_TaskCounts := pr_TaskCounts rsp, pt_Components := pr_Components rsp,
         pt_TaskStatus := PowerCapTaskStatusCompleted, pt_IsCompressed := True\<rparr>);
       if err \<noteq> None then State_Monad.return ()
       else for_each (delete_op e (pt_TaskID task)) ops } }"

section \<open>The worker: operations\<close>

text \<open>The state of \<open>doPowerCapTask\<close>: the task and the operations that can be carried out.\<close>

type_synonym gen_state = "PowerCapTask \<times> PowerCapOperation list"

definition save_op :: "ETCDStorage \<Rightarrow> PowerCapOperation \<Rightarrow> PowerCapTask \<Rightarrow> ('z, PowerCapTask) io" where
  "save_op e p task = do {
     _ \<leftarrow> StorePowerCapOperation e p;
     State_Monad.return (task\<lparr>pt_OperationIDs := pt_OperationIDs task @ [po_OperationID p]\<rparr>) }"

definition fail_op :: "ETCDStorage \<Rightarrow> string \<Rightarrow> xname \<Rightarrow> PowerCapTask \<Rightarrow> ('z, PowerCapTask) io" where
  "fail_op e msg x task = do {
     p \<leftarrow> NewPowerCapOperation (pt_TaskID task) (pt_Type task);
     save_op e (p\<lparr>po_Status := PowerCapOpStatusFailed,
       po_Component := (po_Component p)\<lparr>pk_Xname := x, pk_Error := msg\<rparr>\<rparr>) task }"

type_synonym patch_map = "(xname \<times> (string \<times> int) list) list"

definition patch_params :: "PowerCapComponentParameter list \<Rightarrow> xname list \<times> patch_map" where
  "patch_params ps = foldl (\<lambda>(xs, m) p.
       (xs @ [cmp_Xname p],
        AList.update (cmp_Xname p)
          (foldl (\<lambda>c ctl. AList.update (cp_Name ctl) (cp_Value ctl) c)
             (case map_of m (cmp_Xname p) of None \<Rightarrow> [] | Some c \<Rightarrow> c) (cmp_Controls p)) m)) ([], []) ps"

text \<open>The names and the values that are asked for; a nil parameter is dereferenced (\<open>None\<close>).\<close>

definition task_request :: "PowerCapTask \<Rightarrow> (bool \<times> xname list \<times> patch_map) option" where
  "task_request task =
     (if pt_Type task = PowerCapTaskTypePatch then
        map_option (\<lambda>p. (True, patch_params (pp_Components p))) (pt_PatchParameters task)
      else map_option (\<lambda>p. (False, sp_Xnames p, [])) (pt_SnapshotParameters task))"

definition requested :: "patch_map \<Rightarrow> xname \<Rightarrow> string \<Rightarrow> int option" where
  "requested params x name = (case map_of params x of None \<Rightarrow> None | Some m \<Rightarrow> map_of m name)"

text \<open>
  One operation per control URL; a patch needs a single one for the deep patch of all
  controls, addressed from the first requested control.
\<close>

fun control_ops :: "PowerCapTask \<Rightarrow> bool \<Rightarrow> (string \<Rightarrow> int option) \<Rightarrow> (string \<times> PowerCap) list \<Rightarrow> (string \<times> PowerCap) list
    \<Rightarrow> ('z, PowerCapOperation list) io" where
  "control_ops task taskIsPatch req caps [] = State_Monad.return []"
| "control_ops task taskIsPatch req caps ((name, ctl) # rest) =
     (if taskIsPatch \<and> req name = None then control_ops task taskIsPatch req caps rest
      else do {
        p \<leftarrow> NewPowerCapOperation (pt_TaskID task) (pt_Type task);
        if taskIsPatch then
          State_Monad.return [p\<lparr>po_PowerCapURI := path_dir (path_dir (pc_Path ctl)) @ ''/Controls.Deep'', po_PowerCaps := caps\<rparr>]
        else do {
          ps \<leftarrow> control_ops task taskIsPatch req caps rest;
          State_Monad.return (p\<lparr>po_PowerCapURI := pc_Path ctl, po_PowerCaps := [(name, ctl)]\<rparr> # ps) } })"

definition temp_ops :: "PowerCapTask \<Rightarrow> bool \<Rightarrow> (string \<Rightarrow> int option) \<Rightarrow> HsmData \<Rightarrow> ('z, PowerCapOperation list) io" where
  "temp_ops task taskIsPatch req h =
     (if hd_PowerCapControlsCount h > 0 then do {
        caps \<leftarrow> range_over (hd_PowerCaps h);
        control_ops task taskIsPatch req (hd_PowerCaps h) caps }
      else do {
        p \<leftarrow> NewPowerCapOperation (pt_TaskID task) (pt_Type task);
        State_Monad.return [p\<lparr>po_PowerCapURI := hd_PowerCapURI h, po_PowerCaps := hd_PowerCaps h\<rparr>] })"

text \<open>The limits of one requested control; \<open>-1\<close> means that Redfish did not state one.\<close>

definition out_of_range :: "string \<Rightarrow> PowerCap \<Rightarrow> int \<Rightarrow> string option" where
  "out_of_range name c val =
     (if pc_Min c \<noteq> -1 \<and> val \<noteq> 0 \<and> val < pc_Min c then
        Some (''Control ('' @ name @ '') value ('' @ itoa val @ '') is less than minimum ('' @ itoa (pc_Min c) @ '')'')
      else if pc_Max c \<noteq> -1 \<and> val > pc_Max c then
        Some (''Control ('' @ name @ '') value ('' @ itoa val @ '') is more than maximum ('' @ itoa (pc_Max c) @ '')'')
      else None)"

definition check_control :: "(string \<Rightarrow> int option) \<Rightarrow> string \<times> PowerCap \<Rightarrow> PowerCapOperation \<times> bool \<Rightarrow> PowerCapOperation \<times> bool" where
  "check_control req nc st = (case (nc, st) of ((name, c), (p, isError)) \<Rightarrow>
     case req name of None \<Rightarrow> st
     | Some val \<Rightarrow>
       (case out_of_range name c val of
          Some msg \<Rightarrow> (p\<lparr>po_Status := PowerCapOpStatusFailed, po_Component := append_error msg (po_Component p)\<rparr>, isError)
        | None \<Rightarrow>
          (p\<lparr>po_Component := (po_Component p)\<lparr>pk_PowerCapLimits := pk_PowerCapLimits (po_Component p) @
             [\<lparr>pl_Name = name, pl_CurrentValue = Some val,
               pl_MaximumValue = (if pc_Max c \<noteq> -1 then Some (pc_Max c) else None),
               pl_MinimumValue = (if pc_Min c \<noteq> -1 then Some (pc_Min c) else None)\<rparr>]\<rparr>\<rparr>, False)))"

definition reject_op :: "string \<Rightarrow> string \<Rightarrow> PowerCapOperation \<Rightarrow> PowerCapOperation \<times> bool" where
  "reject_op status msg p = (p\<lparr>po_Status := status, po_Component := (po_Component p)\<lparr>pk_Error := msg\<rparr>\<rparr>, True)"

definition validate_op :: "bool \<Rightarrow> (string \<Rightarrow> int option) \<Rightarrow> HsmData \<Rightarrow> PowerCapOperation \<Rightarrow> ('z, PowerCapOperation \<times> bool) io" where
  "validate_op taskIsPatch req h p =
     (if hd_RfFQDN h = [] then State_Monad.return (reject_op PowerCapOpStatusFailed ''Missing RfFQDN'' p)
      else if bd_Type (hd_BaseData h) \<noteq> ''Node'' then
        State_Monad.return (reject_op PowerCapOpStatusUnsupported
          (''Type, '' @ bd_Type (hd_BaseData h) @ '' unsupported for power capping'') p)
      else if po_PowerCapURI p = [] then State_Monad.return (reject_op PowerCapOpStatusFailed ''Missing Power Cap URI'' p)
      else if bd_Role (hd_BaseData h) = ''Management'' then
        State_Monad.return (reject_op PowerCapOpStatusUnsupported ''Power capping Management nodes is not supported'' p)
      else if taskIsPatch \<and> isHpeApollo6500 (po_PowerCapURI p) \<and> hd_PowerCapTargetURI h = [] then
        State_Monad.return (reject_op PowerCapOpStatusFailed ''Missing Power Cap Target URI'' p)
      else if taskIsPatch then do {
        caps \<leftarrow> range_over (po_PowerCaps p);
        State_Monad.return (fold (check_control req) caps (p, True)) }
      else State_Monad.return (p, False))"

definition place_op :: "ETCDStorage \<Rightarrow> bool \<Rightarrow> (string \<Rightarrow> int option) \<Rightarrow> xname \<Rightarrow> HsmData \<Rightarrow> PowerCapOperation \<Rightarrow> gen_state
    \<Rightarrow> ('z, gen_state) io" where
  "place_op e taskIsPatch req x h p st = (case st of (task, goodOps) \<Rightarrow> do {
     (q, isError) \<leftarrow> validate_op taskIsPatch req h (p\<lparr>po_Component := (po_Component p)\<lparr>pk_Xname := x\<rparr>\<rparr>);
     let q' = (if isError then q else q\<lparr>po_Status := PowerCapOpStatusInProgress, po_RfFQDN := hd_RfFQDN h,
          po_PowerCapControlsCount := hd_PowerCapControlsCount h, po_PowerCapCtlInfoCount := hd_PowerCapCtlInfoCount h,
          po_PowerCapTargetURI := hd_PowerCapTargetURI h\<rparr>);
     task' \<leftarrow> save_op e q' task;
     State_Monad.return (task', if isError then goodOps else goodOps @ [q']) })"

text \<open>Requested controls that HSM does not know are failed; the result tells whether one is known.\<close>

definition skip_undefined :: "ETCDStorage \<Rightarrow> xname \<Rightarrow> HsmData \<Rightarrow> string \<Rightarrow> PowerCapTask \<times> bool \<Rightarrow> ('z, PowerCapTask \<times> bool) io" where
  "skip_undefined e x h name st = (case st of (task, found) \<Rightarrow>
     if map_of (hd_PowerCaps h) name = None then do {
       p \<leftarrow> NewPowerCapOperation (pt_TaskID task) (pt_Type task);
       task' \<leftarrow> save_op e (p\<lparr>po_Component := (po_Component p)\<lparr>pk_Xname := x,
          pk_Error := ''Skipping undefined control '' @ [CHR 0x27] @ name @ [CHR 0x27]\<rparr>, po_Status := PowerCapOpStatusFailed\<rparr>) task;
       State_Monad.return (task', found) }
     else State_Monad.return (task, True))"

definition generate_ops :: "ETCDStorage \<Rightarrow> bool \<Rightarrow> patch_map \<Rightarrow> xname \<times> HsmData \<Rightarrow> gen_state \<Rightarrow> ('z, gen_state) io" where
  "generate_ops e taskIsPatch params xh st = (case (xh, st) of ((x, h), (task, goodOps)) \<Rightarrow> do {
     (task, go) \<leftarrow> (if taskIsPatch then
         (case map_of params x of None \<Rightarrow> State_Monad.return (task, False)
          | Some ctlMap \<Rightarrow> do {
              names \<leftarrow> range_over (keys ctlMap);
              fold_io (skip_undefined e x h) names (task, False) })
        else State_Monad.return (task, True));
     if \<not> go then State_Monad.return (task, goodOps)
     else do {
       ps \<leftarrow> temp_ops task taskIsPatch (requested params x) h;
       fold_io (place_op e taskIsPatch (requested params x) x h) ps (task, goodOps) } })"

section \<open>Payloads\<close>

text \<open>
  \<open>generatePowerCapPayload\<close>: \<open>None\<close> is a nil value, an empty list of limits for an Apollo
  6500, or an index outside of the array of controls.
\<close>

definition cap_of :: "PowerCapOperation \<Rightarrow> string \<Rightarrow> string \<times> int" where
  "cap_of p name = (case map_of (po_PowerCaps p) name of None \<Rightarrow> ([], 0) | Some c \<Rightarrow> (pc_Path c, pc_PwrCtlIndex c))"

definition deep_member :: "PowerCapOperation \<Rightarrow> PowerCapControls \<Rightarrow> json option" where
  "deep_member p limit = map_option (\<lambda>v.
     JObj (omit_str ''@odata.id'' (fst (cap_of p (pl_Name limit))) @
       (if v > 0 then [(''ControlMode'', JStr ''Automatic''), (''SetPoint'', JNum v)]
        else [(''ControlMode'', JStr ''Disabled'')]))) (pl_CurrentValue limit)"

definition watts :: "int option \<Rightarrow> json" where
  "watts v = (case v of None \<Rightarrow> JNull | Some n \<Rightarrow> JNum n)"

definition set_power_ctl :: "PowerCapOperation \<Rightarrow> PowerCapControls \<Rightarrow> json list \<Rightarrow> json list option" where
  "set_power_ctl p limit ctls =
     (let i = snd (cap_of p (pl_Name limit)) in
      if 0 \<le> i \<and> i < int (length ctls) then
        Some (ctls[nat i := JObj [(''PowerLimit'', JObj [(''LimitInWatts'', watts (pl_CurrentValue limit))])]])
      else None)"

fun set_power_ctls :: "PowerCapOperation \<Rightarrow> PowerCapControls list \<Rightarrow> json list \<Rightarrow> json list option" where
  "set_power_ctls p [] ctls = Some ctls"
| "set_power_ctls p (l # ls) ctls = do { ctls' \<leftarrow> set_power_ctl p l ctls; set_power_ctls p ls ctls' }"

definition generatePowerCapPayload :: "PowerCapOperation \<Rightarrow> json option" where
  "generatePowerCapPayload p =
     (let limits = pk_PowerCapLimits (po_Component p) in
      if po_PowerCapControlsCount p > 0 then
        map_option (\<lambda>ms. JObj [(''Members'', JArr ms)]) (those (map (deep_member p) limits))
      else if isHpeApollo6500 (po_PowerCapURI p) then
        (case limits of [] \<Rightarrow> None
         | l # _ \<Rightarrow> Some (JObj [(''PowerLimits'', JArr [JObj [(''PowerLimitInWatts'', watts (pl_CurrentValue l)), (''ZoneNumber'', JNum 0)]])]))
      else if po_PowerCapCtlInfoCount p < 0 then None
      else map_option (\<lambda>ctls. JObj (omit_list ''PowerControl'' id ctls))
        (set_power_ctls p limits (replicate (nat (po_PowerCapCtlInfoCount p)) (JObj []))))"

section \<open>Answers\<close>

definition or_zero :: "int option \<Rightarrow> int option" where
  "or_zero v = (case v of None \<Rightarrow> Some 0 | Some n \<Rightarrow> Some n)"

definition control_answer :: "Power \<Rightarrow> PowerCapControls list \<times> PowerCapabilities option" where
  "control_answer rf =
     ([\<lparr>pl_Name = pw_Name rf, pl_CurrentValue = or_zero (pw_SetPoint rf), pl_MaximumValue = pw_SettingRangeMax rf,
        pl_MinimumValue = pw_SettingRangeMin rf\<rparr>],
      if to_lower (pw_PhysicalContext rf) = ''chassis'' then
        Some \<lparr>pb_HostLimitMax = pw_SettingRangeMax rf, pb_HostLimitMin = pw_SettingRangeMin rf, pb_PowerupPower = None\<rparr>
      else None)"

definition apollo_control :: "HpePowerLimitRanges list \<Rightarrow> nat \<Rightarrow> HpePowerLimits \<Rightarrow> PowerCapControls" where
  "apollo_control ranges i pl =
     \<lparr>pl_Name = ''Node Power Limit'', pl_CurrentValue = or_zero (hpl_PowerLimitInWatts pl),
      pl_MaximumValue = (if length ranges > i then plr_MaximumPowerLimit (ranges ! i) else None),
      pl_MinimumValue = (if length ranges > i then plr_MinimumPowerLimit (ranges ! i) else None)\<rparr>"

definition apollo_answer :: "Power \<Rightarrow> PowerCapControls list \<times> PowerCapabilities option" where
  "apollo_answer rf =
     (let cs = map (\<lambda>(i, pl). apollo_control (pw_PowerLimitRanges rf) i pl) (enumerate 0 (pw_PowerLimits rf)) in
      (cs, case cs of [] \<Rightarrow> None
        | c # _ \<Rightarrow> Some \<lparr>pb_HostLimitMax = pl_MaximumValue c, pb_HostLimitMin = pl_MinimumValue c, pb_PowerupPower = None\<rparr>))"

definition cray_of :: "PowerControl \<Rightarrow> PowerControlOEMCray option" where
  "cray_of pc = (case pct_OEM pc of None \<Rightarrow> None | Some oem \<Rightarrow> pco_Cray oem)"

definition standard_control :: "string \<Rightarrow> PowerControl \<Rightarrow> PowerCapControls" where
  "standard_control uri pc =
     (let (mx, mn) = (case cray_of pc of
          Some cy \<Rightarrow> (case pcoc_PowerLimit cy of Some l \<Rightarrow> (ploc_Max l, ploc_Min l) | None \<Rightarrow> (pct_PowerCapacityWatts pc, None))
        | None \<Rightarrow> (pct_PowerCapacityWatts pc, None)) in
      \<lparr>pl_Name = (if isHpeServer uri then ''Node Power Limit'' else pct_Name pc),
       pl_CurrentValue = or_zero (case pct_PowerLimit pc of None \<Rightarrow> None | Some l \<Rightarrow> plim_LimitInWatts l),
       pl_MaximumValue = mx, pl_MinimumValue = mn\<rparr>)"

definition standard_limits :: "PowerControl \<Rightarrow> PowerCapabilities" where
  "standard_limits pc =
     (case cray_of pc of
        Some cy \<Rightarrow> \<lparr>pb_HostLimitMax = (case pcoc_PowerLimit cy of None \<Rightarrow> None | Some l \<Rightarrow> ploc_Max l),
                    pb_HostLimitMin = (case pcoc_PowerLimit cy of None \<Rightarrow> None | Some l \<Rightarrow> ploc_Min l),
                    pb_PowerupPower = pcoc_PowerResetWatts cy\<rparr>
      | None \<Rightarrow> \<lparr>pb_HostLimitMax = pct_PowerCapacityWatts pc, pb_HostLimitMin = None, pb_PowerupPower = None\<rparr>)"

definition standard_answer :: "string \<Rightarrow> Power \<Rightarrow> PowerCapControls list \<times> PowerCapabilities option" where
  "standard_answer uri rf =
     (map (standard_control uri) (pw_PowerCtl rf),
      case pw_PowerCtl rf of [] \<Rightarrow> None | pc # _ \<Rightarrow> Some (standard_limits pc))"

definition parsePowerCapRFData :: "PowerCapOperation \<Rightarrow> Power \<Rightarrow> err + PowerCapControls list \<times> PowerCapabilities option" where
  "parsePowerCapRFData p rf =
     (if pw_Error rf \<noteq> None then Inl ''Invalid license for power capping''
      else if po_PowerCapControlsCount p > 0 then Inr (control_answer rf)
      else if pw_ActualPowerLimits rf \<noteq> [] \<or> pw_PowerLimitRanges rf \<noteq> [] \<or> pw_PowerLimits rf \<noteq> [] then Inr (apollo_answer rf)
      else Inr (standard_answer (po_PowerCapURI p) rf))"

text \<open>A request and its answer; a body that is read decodes to \<open>PB_Garbled\<close> or \<open>PB_Power\<close>.\<close>

record PcRequest =
  pq_ID :: uuid
  pq_Method :: string
  pq_URL :: string
  pq_Payload :: "json option"
  pq_Auth :: "(string \<times> string) option"

datatype PcBody = PB_Nil | PB_Unread err | PB_Garbled err | PB_Power Power

record PcDone =
  pd_ID :: uuid
  pd_Err :: "err option"
  pd_StatusCode :: int
  pd_Body :: PcBody

record 'z PowerCapEnv =
  pe_HSM :: "'z HSMProvider"
  pe_Launch :: "PcRequest list \<Rightarrow> ('z, PcDone list) io"
  pe_VaultEnabled :: bool
  pe_Creds :: "xname \<Rightarrow> ('z, string \<times> string) io"

definition pc_request :: "'z PowerCapEnv \<Rightarrow> bool \<Rightarrow> uuid \<Rightarrow> PowerCapOperation \<Rightarrow> ('z, PcRequest option) io" where
  "pc_request pe taskIsPatch i p = do {
     let made = (if taskIsPatch then
          map_option (\<lambda>j. if isHpeApollo6500 (po_PowerCapURI p)
            then (''POST'', po_RfFQDN p @ po_PowerCapTargetURI p, Some j)
            else (''PATCH'', po_RfFQDN p @ po_PowerCapURI p, Some j)) (generatePowerCapPayload p)
        else Some (''GET'', po_RfFQDN p @ po_PowerCapURI p, None));
     case made of None \<Rightarrow> State_Monad.return None
     | Some (method, path, payload) \<Rightarrow> do {
         auth \<leftarrow> (if pe_VaultEnabled pe then do { (user, pw) \<leftarrow> pe_Creds pe (pk_Xname (po_Component p));
             State_Monad.return (if user = [] \<and> pw = [] then None else Some (user, pw)) }
           else State_Monad.return None);
         State_Monad.return (Some \<lparr>pq_ID = i, pq_Method = method, pq_URL = ''https://'' @ path, pq_Payload = payload,
           pq_Auth = auth\<rparr>) } }"

fun pc_requests :: "'z PowerCapEnv \<Rightarrow> bool \<Rightarrow> (uuid \<times> PowerCapOperation) list \<Rightarrow> ('z, PcRequest list option) io" where
  "pc_requests pe taskIsPatch [] = State_Monad.return (Some [])"
| "pc_requests pe taskIsPatch ((i, p) # ps) = do {
     r \<leftarrow> pc_request pe taskIsPatch i p;
     case r of None \<Rightarrow> State_Monad.return None
     | Some rq \<Rightarrow> do {
         rs \<leftarrow> pc_requests pe taskIsPatch ps;
         State_Monad.return (map_option (\<lambda>l. rq # l) rs) } }"

text \<open>The test of the status code can never hold, as for transitions.\<close>

definition answer_error :: "bool \<Rightarrow> PcDone \<Rightarrow> err + Power option" where
  "answer_error taskIsPatch d = (case pd_Err d of Some x \<Rightarrow> Inl x
     | None \<Rightarrow>
       if pd_StatusCode d < 200 \<and> pd_StatusCode d \<ge> 300 then Inl (''bad status code: '' @ itoa (pd_StatusCode d))
       else (case pd_Body d of PB_Nil \<Rightarrow> Inl ''empty body'' | PB_Unread x \<Rightarrow> Inl x
         | PB_Garbled x \<Rightarrow> if taskIsPatch then Inr None else Inl x
         | PB_Power rf \<Rightarrow> Inr (if taskIsPatch then None else Some rf)))"

definition failed_op :: "err \<Rightarrow> PowerCapOperation \<Rightarrow> PowerCapOperation" where
  "failed_op x p = p\<lparr>po_Status := PowerCapOpStatusFailed, po_Component := (po_Component p)\<lparr>pk_Error := x\<rparr>\<rparr>"

definition answered_op :: "bool \<Rightarrow> PcDone \<Rightarrow> PowerCapOperation \<Rightarrow> PowerCapOperation" where
  "answered_op taskIsPatch d p = (case answer_error taskIsPatch d of
       Inl x \<Rightarrow> failed_op x p
     | Inr None \<Rightarrow> p\<lparr>po_Status := PowerCapOpStatusSucceeded\<rparr>
     | Inr (Some rf) \<Rightarrow>
         (case parsePowerCapRFData p rf of
            Inl x \<Rightarrow> failed_op x (p\<lparr>po_Component := (po_Component p)\<lparr>pk_PowerCapLimits := [], pk_Limits := None\<rparr>\<rparr>)
          | Inr (cs, limits) \<Rightarrow> p\<lparr>po_Status := PowerCapOpStatusSucceeded,
              po_Component := (po_Component p)\<lparr>pk_PowerCapLimits := cs, pk_Limits := limits\<rparr>\<rparr>))"

definition store_answer :: "ETCDStorage \<Rightarrow> bool \<Rightarrow> (uuid \<times> PowerCapOperation) list \<Rightarrow> PcDone \<Rightarrow> ('z, unit) io" where
  "store_answer e taskIsPatch tm d = do {
     let p = (case map_of tm (pd_ID d) of None \<Rightarrow> zero_operation | Some p \<Rightarrow> p);
     _ \<leftarrow> StorePowerCapOperation e (answered_op taskIsPatch d p);
     State_Monad.return () }"

section \<open>The worker\<close>

definition inventory_stage :: "ETCDStorage \<Rightarrow> 'z HSMProvider \<Rightarrow> xname list \<Rightarrow> PowerCapTask \<Rightarrow> ('z, PowerCapTask \<times> hsm_map) io" where
  "inventory_stage e hp betterXnames task = do {
     (hsmData, err) \<leftarrow> hp_FillHSMData hp betterXnames;
     task' \<leftarrow> (if err \<noteq> None then fold_io (fail_op e ''Error retrieving HSM data'') betterXnames task
               else if length hsmData \<noteq> length betterXnames then
                 fold_io (\<lambda>x t. if map_of hsmData x = None then fail_op e ''Xname not found in HSM'' x t
                    else State_Monad.return t) betterXnames task
               else State_Monad.return task);
     State_Monad.return (task', hsmData) }"

definition send_stage :: "ETCDStorage \<Rightarrow> 'z PowerCapEnv \<Rightarrow> bool \<Rightarrow> PowerCapOperation list \<Rightarrow> ('z, unit option) io" where
  "send_stage e pe taskIsPatch goodOps = do {
     ids \<leftarrow> draw_uuids (length goodOps);
     r \<leftarrow> pc_requests pe taskIsPatch (zip ids goodOps);
     case r of None \<Rightarrow> State_Monad.return None
     | Some reqs \<Rightarrow> do {
         dones \<leftarrow> pe_Launch pe reqs;
         let tm = foldl (\<lambda>m (i, p). AList.update i p m) [] (zip ids goodOps);
         _ \<leftarrow> for_each (store_answer e taskIsPatch tm) dones;
         State_Monad.return (Some ()) } }"

definition run_powercap :: "ETCDStorage \<Rightarrow> 'z PowerCapEnv \<Rightarrow> PowerCapTask \<Rightarrow> ('z, unit option) io" where
  "run_powercap e pe task = (case task_request task of None \<Rightarrow> State_Monad.return None
     | Some (taskIsPatch, xnames, params) \<Rightarrow> do {
         let (goodXnames, badXnames) = ValidateCompIDs xnames True;
         task \<leftarrow> fold_io (fail_op e ''Invalid xname'') badXnames task;
         if goodXnames = [] then do { _ \<leftarrow> compressAndCompleteTask e task; State_Monad.return (Some ()) }
         else do {
           (task, hsmData) \<leftarrow> inventory_stage e (pe_HSM pe) (fst (ValidateCompIDs goodXnames False)) task;
           xhs \<leftarrow> range_over hsmData;
           (task, goodOps) \<leftarrow> fold_io (generate_ops e taskIsPatch params) xhs (task, []);
           if goodOps = [] then do { _ \<leftarrow> compressAndCompleteTask e task; State_Monad.return (Some ()) }
           else do {
             let task = task\<lparr>pt_TaskStatus := PowerCapTaskStatusInProgress\<rparr>;
             _ \<leftarrow> StorePowerCapTask e task;
             r \<leftarrow> send_stage e pe taskIsPatch goodOps;
             case r of None \<Rightarrow> State_Monad.return None
             | Some _ \<Rightarrow> do { _ \<leftarrow> compressAndCompleteTask e task; State_Monad.return (Some ()) } } } })"

definition doPowerCapTask :: "ETCDStorage \<Rightarrow> 'z PowerCapEnv \<Rightarrow> uuid \<Rightarrow> ('z, unit option) io" where
  "doPowerCapTask e pe taskID = do {
     r \<leftarrow> GetPowerCapTask e taskID;
     case r of Inl err \<Rightarrow> State_Monad.return (Some ()) | Inr task \<Rightarrow> run_powercap e pe task }"

section \<open>The reaper\<close>

definition delete_pctask :: "ETCDStorage \<Rightarrow> PowerCapTask \<Rightarrow> ('z, unit) io" where
  "delete_pctask e task = do {
     (ops, err) \<leftarrow> GetAllPowerCapOperationsForTask e (pt_TaskID task);
     if err \<noteq> None then State_Monad.return ()
     else do {
       _ \<leftarrow> for_each (delete_op e (pt_TaskID task)) ops;
       _ \<leftarrow> DeletePowerCapTask e (pt_TaskID task);
       State_Monad.return () } }"

definition pc_completed :: "PowerCapTask \<Rightarrow> bool" where
  "pc_completed task \<longleftrightarrow> pt_TaskStatus task = PowerCapTaskStatusCompleted"

definition reap_pctask :: "ETCDStorage \<Rightarrow> PowerCapTask \<Rightarrow> nat \<Rightarrow> ('z, nat) io" where
  "reap_pctask e task numComplete = do {
     t \<leftarrow> now;
     if pt_AutomaticExpirationTime task < t then do { _ \<leftarrow> delete_pctask e task; State_Monad.return numComplete }
     else if pc_completed task then do {
       _ \<leftarrow> (if \<not> pt_IsCompressed task then compressAndCompleteTask e task else State_Monad.return ());
       State_Monad.return (Suc numComplete) }
     else State_Monad.return numComplete }"

fun delete_pctasks :: "ETCDStorage \<Rightarrow> PowerCapTask option list \<Rightarrow> ('z, unit option) io" where
  "delete_pctasks e [] = State_Monad.return (Some ())"
| "delete_pctasks e (None # xs) = State_Monad.return None"
| "delete_pctasks e (Some task # xs) = do { _ \<leftarrow> delete_pctask e task; delete_pctasks e xs }"

definition oldest_pctasks :: "nat \<Rightarrow> PowerCapTask list \<Rightarrow> PowerCapTask option list" where
  "oldest_pctasks numDelete tasks =
     foldl (\<lambda>arr task. if pc_completed task then insert_oldest pt_TaskCreateTime task arr else arr)
       (replicate numDelete None) tasks"

definition powerCapReaper :: "ETCDStorage \<Rightarrow> int \<Rightarrow> ('z, unit option) io" where
  "powerCapReaper e maxNumCompleted = do {
     (tasks, err) \<leftarrow> GetAllPowerCapTasks e;
     if err \<noteq> None \<or> tasks = [] then State_Monad.return (Some ())
     else do {
       numComplete \<leftarrow> fold_io (reap_pctask e) tasks 0;
       if maxNumCompleted \<le> 0 then State_Monad.return (Some ())
       else do {
         let numDelete = int numComplete - maxNumCompleted;
         if numDelete > 0 then delete_pctasks e (oldest_pctasks (nat numDelete) tasks)
         else State_Monad.return (Some ()) } } }"

end
