(* ===== verification/PowerCapSafety.thy ===== *)
theory PowerCapSafety
  imports PowerCap WorkerSafety
begin

text \<open>
  What power capping guarantees: no value outside the limits of the inventory and no management
  node is ever sent, the worker builds every payload without a panic, stored records are read
  back, and the reaper never meets a nil entry. A last theorem shows how the limits of a
  component can be lost in a response.
\<close>

section \<open>Only values in range are sent\<close>

definition cap_in_range :: "PowerCap \<Rightarrow> int \<Rightarrow> bool" where
  "cap_in_range c v \<longleftrightarrow> (pc_Min c = -1 \<or> v = 0 \<or> pc_Min c \<le> v) \<and> (pc_Max c = -1 \<or> v \<le> pc_Max c)"

definition limit_ok :: "(string \<Rightarrow> int option) \<Rightarrow> (string \<times> PowerCap) list \<Rightarrow> PowerCapControls \<Rightarrow> bool" where
  "limit_ok req caps l \<longleftrightarrow> (\<exists>c v. (pl_Name l, c) \<in> set caps \<and> req (pl_Name l) = Some v \<and>
     pl_CurrentValue l = Some v \<and> cap_in_range c v)"

definition checked :: "(string \<Rightarrow> int option) \<Rightarrow> xname \<Rightarrow> (string \<times> PowerCap) list \<Rightarrow> PowerCapOperation \<times> bool \<Rightarrow> bool" where
  "checked req x caps st = (case st of (p, isError) \<Rightarrow>
     po_PowerCaps p = caps \<and> pk_Xname (po_Component p) = x \<and>
     list_all (limit_ok req caps) (pk_PowerCapLimits (po_Component p)) \<and>
     (\<not> isError \<longrightarrow> pk_PowerCapLimits (po_Component p) \<noteq> []))"

lemma out_of_range_None: "out_of_range name c v = None \<Longrightarrow> cap_in_range c v"
  by (auto simp: out_of_range_def cap_in_range_def split: if_splits)

lemma checked_control: "nc \<in> set caps \<Longrightarrow> checked req x caps st \<Longrightarrow> checked req x caps (check_control req nc st)"
  by (auto simp: check_control_def checked_def limit_ok_def append_error_def dest: out_of_range_None
      split: prod.splits option.splits)

lemma checked_fold: "set ncs \<subseteq> set caps \<Longrightarrow> checked req x caps st \<Longrightarrow> checked req x caps (fold (check_control req) ncs st)"
  by (induction ncs arbitrary: st) (auto simp: checked_control)

text \<open>What holds of an operation that may be sent.\<close>

definition sendable :: "patch_map \<Rightarrow> xname \<Rightarrow> HsmData \<Rightarrow> PowerCapOperation \<Rightarrow> bool" where
  "sendable params x h p \<longleftrightarrow>
     bd_Type (hd_BaseData h) = ''Node'' \<and> bd_Role (hd_BaseData h) \<noteq> ''Management'' \<and>
     po_RfFQDN p = hd_RfFQDN h \<and> hd_RfFQDN h \<noteq> [] \<and> po_PowerCapURI p \<noteq> [] \<and>
     (isHpeApollo6500 (po_PowerCapURI p) \<longrightarrow> po_PowerCapTargetURI p \<noteq> []) \<and>
     po_PowerCapControlsCount p = hd_PowerCapControlsCount h \<and> po_PowerCapCtlInfoCount p = hd_PowerCapCtlInfoCount h \<and>
     checked (requested params x) x (hd_PowerCaps h) (p, False)"

lemma gives_validate:
  assumes "checked req x caps (p, True)"
  shows "gives (\<lambda>(q, isError). isError \<or> (checked req x caps (q, False) \<and> hd_RfFQDN h \<noteq> [] \<and>
     bd_Type (hd_BaseData h) = ''Node'' \<and> bd_Role (hd_BaseData h) \<noteq> ''Management'' \<and>
     po_PowerCapURI q \<noteq> [] \<and> (isHpeApollo6500 (po_PowerCapURI q) \<longrightarrow> hd_PowerCapTargetURI h \<noteq> [])))
     (validate_op True req h p)"
proof -
  have uri: "po_PowerCapURI (fst (fold (check_control req) ncs st)) = po_PowerCapURI (fst st)" for ncs st
    by (induction ncs arbitrary: st) (auto simp: check_control_def split: prod.splits option.splits)
  have f: "checked req x caps (q, False) \<and> po_PowerCapURI q = po_PowerCapURI p"
    if "fold (check_control req) ncs (p, True) = (q, False)" "set ncs = set caps" for ncs q
    using checked_fold [of ncs caps req x "(p, True)"] uri [of ncs "(p, True)"] that assms by simp
  have c: "po_PowerCaps p = caps" using assms by (simp add: checked_def)
  show ?thesis
    unfolding validate_op_def reject_op_def
    by (auto simp: c intro!: gives_bind [OF gives_range_over] dest!: f split: prod.splits)
qed

lemma gives_place:
  assumes "\<forall>q \<in> set (snd st). I q" and "checked (requested params x) x (hd_PowerCaps h) (p\<lparr>po_Component := (po_Component p)\<lparr>pk_Xname := x\<rparr>\<rparr>, True)"
    and "\<And>q. sendable params x h q \<Longrightarrow> I q"
  shows "gives (\<lambda>st. \<forall>q \<in> set (snd st). I q) (place_op e True (requested params x) x h p st)"
proof -
  obtain task goodOps where st: "st = (task, goodOps)" by fastforce
  show ?thesis
    unfolding place_op_def st prod.case Let_def
    by (rule gives_bind [OF gives_validate [OF assms(2), of h]])
      (use assms(1,3) in \<open>auto simp: st sendable_def checked_def intro!: gives_skip split: prod.splits\<close>)
qed

lemma gives_control_ops:
  "gives (\<lambda>ps. \<forall>p \<in> set ps. po_Component p = zero_component \<and> po_PowerCaps p = caps) (control_ops task True req caps ncs)"
proof (induction ncs)
  case (Cons nc ncs)
  then show ?case
    by (cases nc) (auto simp: NewPowerCapOperation_def zero_operation_def intro!: gives_skip)
qed simp

lemma gives_temp_ops:
  "gives (\<lambda>ps. \<forall>p \<in> set ps. po_Component p = zero_component \<and> po_PowerCaps p = hd_PowerCaps h) (temp_ops task True req h)"
  unfolding temp_ops_def
  by (auto simp: NewPowerCapOperation_def zero_operation_def intro!: gives_skip gives_control_ops)

lemma gives_generate:
  assumes "\<forall>q \<in> set (snd st). I q" and "\<And>q. sendable params x h q \<Longrightarrow> I q"
  shows "gives (\<lambda>st. \<forall>q \<in> set (snd st). I q) (generate_ops e True params (x, h) st)"
proof -
  obtain task goodOps where st: "st = (task, goodOps)" by fastforce
  have place: "gives (\<lambda>st. \<forall>q \<in> set (snd st). I q) (fold_io (place_op e True (requested params x) x h) ps (t, goodOps))"
    if "\<forall>p \<in> set ps. po_Component p = zero_component \<and> po_PowerCaps p = hd_PowerCaps h" for ps t
    using assms that
    by (intro gives_fold_io gives_place) (auto simp: st checked_def zero_component_def)
  show ?thesis
    unfolding generate_ops_def st prod.case if_True
    by (rule gives_skip) (use assms(1) in \<open>auto simp: st intro!: gives_bind [OF gives_temp_ops] place\<close>)
qed

lemma gives_generate_all:
  "gives (\<lambda>st. \<forall>q \<in> set (snd st). \<exists>(x, h) \<in> set xhs. sendable params x h q)
     (fold_io (generate_ops e True params) xhs (task, []))"
proof (rule gives_fold_io)
  fix xh and st :: gen_state
  assume "xh \<in> set xhs" "\<forall>q \<in> set (snd st). \<exists>(x, h) \<in> set xhs. sendable params x h q"
  then show "gives (\<lambda>st. \<forall>q \<in> set (snd st). \<exists>(x, h) \<in> set xhs. sendable params x h q) (generate_ops e True params xh st)"
    by (cases "xh" rule: prod.exhaust) (use gives_generate in \<open>blast\<close>)
qed simp

text \<open>
  C15: a patch never sends a value that the inventory does not allow. Whatever the inventory
  lists and in every world, each operation that is carried out belongs to a compute node that
  is not a management node, sets at least one control, and every value it sets is the requested
  one and lies between the minimum and the maximum of that control (0, which switches the cap
  off, is always allowed below the minimum).
\<close>

theorem patch_within_limits:
  assumes "fst (run_state (fold_io (generate_ops e True params) xhs (task, [])) w) = (task', goodOps)"
    and "p \<in> set goodOps"
  shows "\<exists>x h. (x, h) \<in> set xhs \<and> pk_Xname (po_Component p) = x \<and> po_RfFQDN p = hd_RfFQDN h \<and>
    bd_Type (hd_BaseData h) = ''Node'' \<and> bd_Role (hd_BaseData h) \<noteq> ''Management'' \<and>
    pk_PowerCapLimits (po_Component p) \<noteq> [] \<and>
    (\<forall>l \<in> set (pk_PowerCapLimits (po_Component p)). \<exists>c v. (pl_Name l, c) \<in> set (hd_PowerCaps h) \<and>
       requested params x (pl_Name l) = Some v \<and> pl_CurrentValue l = Some v \<and> cap_in_range c v)"
proof -
  have "\<forall>q \<in> set (snd (fst (run_state (fold_io (generate_ops e True params) xhs (task, [])) w))).
      \<exists>(x, h) \<in> set xhs. sendable params x h q"
    using gives_generate_all [of xhs params e task] unfolding gives_def by blast
  then obtain x h where "(x, h) \<in> set xhs" "sendable params x h p"
    using assms by auto
  then show ?thesis
    by (intro exI [of _ x] exI [of _ h]) (auto simp: sendable_def checked_def limit_ok_def list_all_iff)
qed

section \<open>Every payload can be built\<close>

text \<open>What \<open>extractPowerCapInfo\<close> makes of a system: the indexes of its controls are in range.\<close>

definition caps_ok :: "HsmData \<Rightarrow> bool" where
  "caps_ok h \<longleftrightarrow> (hd_PowerCapControlsCount h \<le> 0 \<longrightarrow> 0 \<le> hd_PowerCapCtlInfoCount h \<and>
     (\<forall>(n, c) \<in> set (hd_PowerCaps h). 0 \<le> pc_PwrCtlIndex c \<and> pc_PwrCtlIndex c < hd_PowerCapCtlInfoCount h))"

lemma power_ctl_caps_index:
  "(\<forall>(n, c) \<in> set m. 0 \<le> pc_PwrCtlIndex c \<and> pc_PwrCtlIndex c < N) \<Longrightarrow> (\<forall>(i, ctl) \<in> set ics. int i < N) \<Longrightarrow>
   \<forall>(n, c) \<in> set (foldl (\<lambda>m (i, ctl). let pc = power_ctl_cap url hpe i ctl in AList.update (pc_Name pc) pc m) m ics).
     0 \<le> pc_PwrCtlIndex c \<and> pc_PwrCtlIndex c < N"
proof (induction ics arbitrary: m)
  case (Cons ic ics)
  obtain i ctl where ic: "ic = (i, ctl)" by fastforce
  let ?pc = "power_ctl_cap url hpe i ctl"
  have "pc_PwrCtlIndex ?pc = int i" by (simp add: power_ctl_cap_def Let_def case_prod_beta)
  then have "\<forall>(n, c) \<in> set (AList.update (pc_Name ?pc) ?pc m). 0 \<le> pc_PwrCtlIndex c \<and> pc_PwrCtlIndex c < N"
    using Cons.prems ic set_update_subset [of "pc_Name ?pc" ?pc m] by fastforce
  with Cons.IH Cons.prems(2) show ?case by (simp add: ic Let_def)
qed simp

lemma extract_caps_ok: "hd_PowerCaps h = [] \<Longrightarrow> caps_ok (extractPowerCapInfo h info)"
proof -
  assume h: "hd_PowerCaps h = []"
  let ?N = "int (length (sys_PowerCtl info))"
  define m where "m = foldl (\<lambda>m (i, ctl). let pc = power_ctl_cap (sys_PowerURL info)
      (str_contains (sys_PowerURL info) ''AccPowerService/PowerLimit'' \<or> str_contains (sys_PowerURL info) ''Chassis/1/Power'') i ctl
      in AList.update (pc_Name pc) pc m) [] (enumerate 0 (sys_PowerCtl info))"
  have "\<forall>(n, c) \<in> set m. 0 \<le> pc_PwrCtlIndex c \<and> pc_PwrCtlIndex c < ?N"
    unfolding m_def by (rule power_ctl_caps_index) (auto simp: in_set_enumerate_eq)
  moreover have "hd_PowerCaps (extractPowerCapInfo h info) = (if sys_PowerCtl info = [] then [] else m)" if "sys_Controls info = []"
    using that h by (simp add: extractPowerCapInfo_def m_def Let_def split: list.splits option.splits)
  moreover have "hd_PowerCapControlsCount (extractPowerCapInfo h info) = int (length (sys_Controls info))"
    "hd_PowerCapCtlInfoCount (extractPowerCapInfo h info) = ?N"
    by (simp_all add: extractPowerCapInfo_def Let_def split: list.splits option.splits)
  ultimately show ?thesis by (auto simp: caps_ok_def)
qed

lemma those_Some: "list_all (\<lambda>x. f x \<noteq> None) xs \<Longrightarrow> those (map f xs) \<noteq> None"
  by (induction xs) (auto split: option.splits)

lemma set_power_ctls_Some:
  "list_all (\<lambda>l. 0 \<le> snd (cap_of p (pl_Name l)) \<and> snd (cap_of p (pl_Name l)) < int (length ctls)) ls \<Longrightarrow>
   set_power_ctls p ls ctls \<noteq> None"
  by (induction ls arbitrary: ctls) (auto simp: set_power_ctl_def Let_def)

lemma payload_total: "sendable params x h p \<Longrightarrow> caps_ok h \<Longrightarrow> generatePowerCapPayload p \<noteq> None"
proof -
  assume s: "sendable params x h p" and ok: "caps_ok h"
  let ?ls = "pk_PowerCapLimits (po_Component p)"
  have caps: "po_PowerCaps p = hd_PowerCaps h" and ls: "?ls \<noteq> []" "list_all (limit_ok (requested params x) (hd_PowerCaps h)) ?ls"
    using s by (auto simp: sendable_def checked_def)
  have deep: "those (map (deep_member p) ?ls) \<noteq> None"
    using ls(2) by (intro those_Some) (auto simp: list_all_iff limit_ok_def deep_member_def)
  have gen: "set_power_ctls p ?ls (replicate (nat (po_PowerCapCtlInfoCount p)) (JObj [])) \<noteq> None \<and> 0 \<le> po_PowerCapCtlInfoCount p"
    if c: "\<not> po_PowerCapControlsCount p > 0"
  proof -
    have n: "hd_PowerCapControlsCount h \<le> 0" "po_PowerCapCtlInfoCount p = hd_PowerCapCtlInfoCount h"
      using s c by (auto simp: sendable_def)
    have "0 \<le> snd (cap_of p (pl_Name l)) \<and> snd (cap_of p (pl_Name l)) < hd_PowerCapCtlInfoCount h" if l: "l \<in> set ?ls" for l
    proof -
      obtain c where "(pl_Name l, c) \<in> set (hd_PowerCaps h)" using ls(2) l by (auto simp: list_all_iff limit_ok_def)
      then obtain c' where "map_of (hd_PowerCaps h) (pl_Name l) = Some c'" by (metis option.exhaust map_of_eq_None_iff fst_conv image_eqI)
      with ok n caps show ?thesis by (auto simp: cap_of_def caps_ok_def dest: map_of_SomeD)
    qed
    with ok n show ?thesis by (intro conjI set_power_ctls_Some) (auto simp: caps_ok_def list_all_iff)
  qed
  show ?thesis
  proof (cases "po_PowerCapControlsCount p > 0")
    case False
    with gen ls(1) show ?thesis by (auto simp: generatePowerCapPayload_def Let_def split: list.splits)
  qed (use deep in \<open>simp add: generatePowerCapPayload_def Let_def\<close>)
qed

text \<open>No panic.\<close>

definition returned :: "'a option \<Rightarrow> bool" where
  "returned r \<longleftrightarrow> r \<noteq> None"

lemma returned_simps [simp]: "returned (Some a)" "\<not> returned None" "returned (map_option f r) = returned r"
  by (simp_all add: returned_def)

lemma gives_returned: "returned r \<Longrightarrow> (\<And>a. gives Q (f a)) \<Longrightarrow> gives Q (case r of None \<Rightarrow> m | Some a \<Rightarrow> f a)"
  by (auto simp: returned_def)

lemma gives_requests:
  "(\<And>i p. (i, p) \<in> set ps \<Longrightarrow> isPatch \<Longrightarrow> generatePowerCapPayload p \<noteq> None) \<Longrightarrow> gives returned (pc_requests pe isPatch ps)"
proof (induction ps)
  case (Cons ip ps)
  obtain i p where ip: "ip = (i, p)" by fastforce
  have one: "gives returned (pc_request pe isPatch i p)"
    using Cons.prems [of i p] unfolding pc_request_def Let_def
    by (auto simp: ip intro!: gives_skip split: option.splits)
  have rest: "gives returned (pc_requests pe isPatch ps)"
    by (rule Cons.IH) (use Cons.prems in auto)
  show ?case
    unfolding ip pc_requests.simps
    by (rule gives_bind [OF one], rule gives_returned, assumption, rule gives_bind [OF rest], simp)
qed simp

lemma gives_send_stage:
  "(\<And>p. p \<in> set goodOps \<Longrightarrow> isPatch \<Longrightarrow> generatePowerCapPayload p \<noteq> None) \<Longrightarrow>
   gives returned (send_stage e pe isPatch goodOps)"
  unfolding send_stage_def Let_def
  by (rule gives_skip, rule gives_bind [OF gives_requests])
    (auto dest: set_zip_rightD intro!: gives_returned gives_skip)

lemma gives_compress: "Q (Some ()) \<Longrightarrow> gives Q (do { _ \<leftarrow> compressAndCompleteTask e task; State_Monad.return (Some ()) })"
  by (rule gives_skip) simp

lemma gives_inventory:
  "gives (\<lambda>r. Q (fst r)) (hp_FillHSMData hp xs) \<Longrightarrow> gives (\<lambda>r. Q (snd r)) (inventory_stage e hp xs task)"
  unfolding inventory_stage_def by (erule gives_bind) (auto intro!: gives_skip split: prod.splits)

lemma gives_payloads:
  assumes "\<forall>(x, h) \<in> set xhs. caps_ok h"
  shows "gives (\<lambda>st. \<forall>p \<in> set (snd st). isPatch \<longrightarrow> generatePowerCapPayload p \<noteq> None)
    (fold_io (generate_ops e isPatch params) xhs (task, []))"
proof (cases isPatch)
  case True
  have "generatePowerCapPayload p \<noteq> None" if "\<exists>(x, h) \<in> set xhs. sendable params x h p" for p
    using that assms payload_total by blast
  with gives_generate_all [of xhs params e task] True show ?thesis by (simp add: gives_def) blast
qed (simp add: gives_def)

lemma gives_run_powercap:
  assumes t: "task_request task \<noteq> None"
    and inv: "\<And>xs. gives (\<lambda>r. \<forall>(x, h) \<in> set (fst r). caps_ok h) (hp_FillHSMData (pe_HSM pe) xs)"
  shows "gives returned (run_powercap e pe task)"
proof -
  obtain isPatch xnames params where t: "task_request task = Some (isPatch, xnames, params)" using t by auto
  have finish: "gives returned (do {
      r \<leftarrow> send_stage e pe b goodOps;
      case r of None \<Rightarrow> State_Monad.return None
      | Some _ \<Rightarrow> do { _ \<leftarrow> compressAndCompleteTask e task'; State_Monad.return (Some ()) } })"
    if "\<forall>p \<in> set goodOps. b \<longrightarrow> generatePowerCapPayload p \<noteq> None" for b goodOps task'
    using that by (intro gives_bind [OF gives_send_stage]) (auto intro!: gives_returned gives_compress)
  have stages: "gives returned (do {
      xhs \<leftarrow> range_over hsmData;
      (task, goodOps) \<leftarrow> fold_io (generate_ops e isPatch params) xhs (task', []);
      if goodOps = [] then do { _ \<leftarrow> compressAndCompleteTask e task; State_Monad.return (Some ()) }
      else do {
        let task = task\<lparr>pt_TaskStatus := PowerCapTaskStatusInProgress\<rparr>;
        _ \<leftarrow> StorePowerCapTask e task;
        r \<leftarrow> send_stage e pe isPatch goodOps;
        case r of None \<Rightarrow> State_Monad.return None
        | Some _ \<Rightarrow> do { _ \<leftarrow> compressAndCompleteTask e task; State_Monad.return (Some ()) } } })"
    if "\<forall>(x, h) \<in> set hsmData. caps_ok h" for hsmData task'
    by (rule gives_bind [OF gives_range_over], rule gives_bind [OF gives_payloads])
      (use that in \<open>auto simp: Let_def intro!: gives_skip [where m = "StorePowerCapTask e t" for t] gives_compress finish
        simp del: bind_assoc\<close>)
  obtain good bad where v: "ValidateCompIDs xnames True = (good, bad)" by fastforce
  show ?thesis
    unfolding run_powercap_def t option.case prod.case v Let_def
    by (rule gives_skip) (auto intro!: gives_compress gives_bind [OF gives_inventory [OF inv]] stages [unfolded Let_def] simp del: bind_assoc)
qed


section \<open>Records in the store\<close>

text \<open>
  Power capping records follow the laws of a map: a stored task or operation is the one
  that is read back, and storing an operation changes neither the tasks nor other operations.
\<close>

lemma powercap_store_laws:
  assumes w: "quiet w" and t: "wf_pctask t" and p: "wf_pcop p"
    and i: "uuid_ok tid" "uuid_ok i" "(tid, i) \<noteq> (po_TaskID p, po_OperationID p)"
  shows "fst (run_state (do { _ \<leftarrow> StorePowerCapTask e t; GetPowerCapTask e (pt_TaskID t) }) w) = Inr t
    \<and> fst (run_state (do { _ \<leftarrow> StorePowerCapOperation e p; GetPowerCapOperation e (po_TaskID p) (po_OperationID p) }) w) = Inr p
    \<and> fst (run_state (do { _ \<leftarrow> StorePowerCapOperation e p; GetPowerCapOperation e tid i }) w)
       = fst (run_state (GetPowerCapOperation e tid i) w)
    \<and> fst (run_state (do { _ \<leftarrow> StorePowerCapOperation e p; GetPowerCapTask e tid }) w)
       = fst (run_state (GetPowerCapTask e tid) w)"
proof -
  have "fixUpKey (pctask_key tid) \<noteq> fixUpKey (pcop_key (po_TaskID p) (po_OperationID p))"
    by (simp add: fixUpKey_pctask fixUpKey_pcop)
  then have other: "fst (run_state (do { _ \<leftarrow> StorePowerCapOperation e p; GetPowerCapTask e tid }) w)
       = fst (run_state (GetPowerCapTask e tid) w)"
    using w by (simp add: powercap_storage_defs run_simps)
  show ?thesis
    using pctask_store.get_after_put [OF w t, of e] pcop_store.get_after_put [OF w p, of e]
      pcop_store.get_other_after_put [OF w, of "(tid, i)" p e] i p other
    by (auto simp: powercap_storage_defs wf_pcop_def)
qed

section \<open>The reaper\<close>

lemma reap_pctask_count: "gives (\<lambda>n'. n' \<le> n + (if pc_completed t then 1 else 0)) (reap_pctask e t n)"
  unfolding reap_pctask_def by (intro gives_skip) (auto intro!: gives_skip)

lemma reap_pctasks_count: "gives (\<lambda>n'. n' \<le> n + length (filter pc_completed ts)) (fold_io (reap_pctask e) ts n :: ('z, nat) io)"
proof (induction ts arbitrary: n)
  case (Cons t ts)
  show ?case
    unfolding fold_io.simps
  proof (rule gives_bind [OF reap_pctask_count])
    fix n1
    assume "n1 \<le> n + (if pc_completed t then 1 else 0)"
    then show "gives (\<lambda>n'. n' \<le> n + length (filter pc_completed (t # ts))) (fold_io (reap_pctask e) ts n1 :: ('z, nat) io)"
      by (intro gives_mono [OF Cons.IH [of n1]]) (auto split: if_splits)
  qed
qed simp

lemma gives_delete_pctasks: "gives returned (delete_pctasks e (map Some ts))"
  by (induction ts) (auto intro: gives_skip)

text \<open>
  The reaper of power capping never meets a nil entry: whatever the store answers and the
  other instances write, and for every limit, the array of the oldest completed tasks is full
  and the reaper runs to its end.
\<close>

lemma powercap_reaper_returns:
  fixes w :: "'z world_scheme"
  shows "fst (run_state (powerCapReaper e maxNumCompleted) w) \<noteq> None"
proof -
  have del: "gives returned (delete_pctasks e (oldest_pctasks (nat (int n - maxNumCompleted)) tasks))"
    if "n \<le> 0 + length (filter pc_completed tasks)" "0 < maxNumCompleted" for n tasks
  proof -
    have "nat (int n - maxNumCompleted) \<le> length (sort_key pt_TaskCreateTime (filter pc_completed tasks))"
      using that by simp
    then show ?thesis
      by (simp add: oldest_pctasks_def fill_oldest_eq pad_to_full gives_delete_pctasks)
  qed
  have "gives returned (powerCapReaper e maxNumCompleted :: ('z, unit option) io)"
    unfolding powerCapReaper_def Let_def
    by (rule gives_skip) (auto intro!: gives_bind [OF reap_pctasks_count] del)
  then show ?thesis by (simp add: gives_def returned_def)
qed

section \<open>Merging the operations of a component\<close>

lemma merge_limits:
  "map_of m x = Some c \<Longrightarrow> (\<forall>q \<in> set ops. pk_Xname (po_Component q) = x \<and> pk_Error (po_Component q) = []) \<Longrightarrow>
   \<exists>d. map_of (fold add_component ops m) x = Some d \<and> (pk_Limits d = None \<longleftrightarrow> pk_Limits c = None) \<and>
     pk_PowerCapLimits d = pk_PowerCapLimits c @ concat (map (\<lambda>q. pk_PowerCapLimits (po_Component q)) ops)"
proof (induction ops arbitrary: m c)
  case (Cons q ops)
  let ?c = "merge_component c (po_Component q)"
  have m: "map_of (add_component q m) x = Some ?c"
    using Cons.prems by (simp add: add_component_def Let_def)
  moreover have "pk_Limits ?c = None \<longleftrightarrow> pk_Limits c = None"
    "pk_PowerCapLimits ?c = pk_PowerCapLimits c @ pk_PowerCapLimits (po_Component q)"
    using Cons.prems by (auto simp: merge_component_def Let_def)
  ultimately show ?case using Cons.IH [OF m] Cons.prems(2) by auto
qed simp


section \<open>Examples\<close>

definition sample_cap :: PowerCap where
  "sample_cap = \<lparr>pc_Name = ''Node Power Limit'', pc_Path = ''/redfish/v1/Chassis/1/Power'', pc_Min = 200, pc_Max = 800, pc_PwrCtlIndex = 0\<rparr>"

definition sample_hsm :: HsmData where
  "sample_hsm = (new_hsmdata \<lparr>bd_ID = ''x0c0s0b0n0'', bd_Type = ''Node'', bd_State = ''Ready'', bd_Role = ''Compute'', bd_Class = ''River''\<rparr>)
     \<lparr>hd_RfFQDN := ''x0c0s0b0'', hd_PowerCapURI := ''/redfish/v1/Chassis/1/Power'', hd_PowerCapCtlInfoCount := 1,
      hd_PowerCaps := [(''Node Power Limit'', sample_cap)]\<rparr>"

definition sample_patch :: patch_map where
  "sample_patch = [(''x0c0s0b0n0'', [(''Node Power Limit'', 500)])]"

definition sample_pctask :: PowerCapTask where
  "sample_pctask = \<lparr>pt_TaskID = sample_uuid 5, pt_Type = PowerCapTaskTypePatch, pt_SnapshotParameters = None,
     pt_PatchParameters = Some \<lparr>pp_Components = [\<lparr>cmp_Xname = ''x0c0s0b0n0'',
        cmp_Controls = [\<lparr>cp_Name = ''Node Power Limit'', cp_Value = 500\<rparr>]\<rparr>]\<rparr>,
     pt_TaskCreateTime = 0, pt_AutomaticExpirationTime = 60, pt_TaskStatus = PowerCapTaskStatusNew, pt_OperationIDs = [],
     pt_IsCompressed = False, pt_TaskCounts = zero_pcounts, pt_Components = []\<rparr>"

lemma sample_generated: "length (snd (fst (run_state (fold_io (generate_ops sample_etcd True sample_patch)
    [(''x0c0s0b0n0'', sample_hsm)] (sample_pctask, [])) empty_world))) = 1"
  by (simp add: generate_ops_def sample_patch_def sample_hsm_def new_hsmdata_def keys_def run_simps skip_undefined_def
      temp_ops_def NewPowerCapOperation_def place_op_def validate_op_def isHpeApollo6500_def Let_def zero_operation_def
      has_prefix_def check_control_def requested_def out_of_range_def sample_cap_def save_op_def StorePowerCapOperation_def)

theorem patch_within_limits_witness:
  "\<exists>task' p. fst (run_state (fold_io (generate_ops sample_etcd True sample_patch) [(''x0c0s0b0n0'', sample_hsm)]
     (sample_pctask, [])) empty_world) = (task', [p]) \<and> pk_Xname (po_Component p) = ''x0c0s0b0n0''"
proof -
  obtain task' ops where r: "fst (run_state (fold_io (generate_ops sample_etcd True sample_patch) [(''x0c0s0b0n0'', sample_hsm)]
     (sample_pctask, [])) empty_world) = (task', ops)" by (metis prod.collapse)
  with sample_generated obtain p where ops: "ops = [p]" by (auto simp: length_Suc_conv)
  from patch_within_limits [OF r, of p] r ops show ?thesis by auto
qed

definition sample_pcenv :: "'z PowerCapEnv" where
  "sample_pcenv = \<lparr>pe_HSM = refusing_hsm\<lparr>hp_FillHSMData := (\<lambda>_. State_Monad.return ([(''x0c0s0b0n0'', sample_hsm)], None))\<rparr>,
     pe_Launch = (\<lambda>rs. State_Monad.return (map (\<lambda>r. \<lparr>pd_ID = pq_ID r, pd_Err = None, pd_StatusCode = 204, pd_Body = PB_Nil\<rparr>) rs)),
     pe_VaultEnabled = False, pe_Creds = (\<lambda>_. State_Monad.return ([], []))\<rparr>"

lemma sample_pctask_wf: "wf_pctask sample_pctask"
  by code_simp

definition sample_pcworld :: world where
  "sample_pcworld = empty_world\<lparr>kvs := [(fixUpKey (pctask_key (sample_uuid 5)), enc_PcTask sample_pctask)]\<rparr>"


definition sample_pcop :: PowerCapOperation where
  "sample_pcop = zero_operation\<lparr>po_OperationID := sample_uuid 6, po_TaskID := sample_uuid 5, po_Type := PowerCapTaskTypePatch,
     po_Status := PowerCapOpStatusInProgress, po_PowerCaps := [(''Node Power Limit'', sample_cap)]\<rparr>"

lemma powercap_store_laws_example:
  "fst (run_state (do { _ \<leftarrow> StorePowerCapOperation sample_etcd sample_pcop;
     GetPowerCapOperation sample_etcd (sample_uuid 5) (sample_uuid 6) }) empty_world) = Inr sample_pcop"
proof -
  have p: "wf_pcop sample_pcop" "uuid_ok (sample_uuid 1)" by code_simp+
  show ?thesis
    using powercap_store_laws [OF _ sample_pctask_wf p(1) p(2) p(2), of empty_world sample_etcd]
    by (simp add: sample_pcop_def sample_uuid_def digit_char_def)
qed

definition sample_limited :: PowerCapOperation where
  "sample_limited = sample_pcop\<lparr>po_Component := zero_component\<lparr>pk_Limits :=
     Some \<lparr>pb_HostLimitMax = Some 800, pb_HostLimitMin = Some 200, pb_PowerupPower = None\<rparr>\<rparr>\<rparr>"


end
