(* ===== verification/MasterElection.thy ===== *)
theory MasterElection
  imports Storage
begin

text \<open>
  The election of the instance that polls the hardware: the distributed lock of
  \<^verbatim>\<open>internal/storage/distlock_etcd_impl.go\<close> and \<^verbatim>\<open>distlock_mem_impl.go\<close>, and
  \<open>getPowerStatusMaster\<close> and the keep-alive \<open>startPowerStatusMaster\<close> of
  \<^verbatim>\<open>internal/domain/power-status.go\<close>. The instances only share one key of the store. The
  protocol is a step relation over all instances in which a step is one store call of one of
  them; it is proved for an abstract relation, which the running code refines.
\<close>

section \<open>The distributed lock\<close>

abbreviation "Second \<equiv> 1000000000 :: int"

text \<open>\<open>time.Duration.String\<close>.\<close>

definition decimal :: "nat \<Rightarrow> int \<Rightarrow> string" where
  "decimal prec v =
     (let f = trim_right (\<lambda>c. c = CHR ''0'') (pad prec (v mod 10 ^ prec))
      in itoa (v div 10 ^ prec) @ (if f = [] then [] else CHR ''.'' # f))"

definition duration_string :: "int \<Rightarrow> string" where
  "duration_string d =
     (let u = \<bar>d\<bar>; secs = u div Second;
          mins = (if secs \<ge> 60 then itoa (secs div 60 mod 60) @ ''m'' else []);
          hours = (if secs \<ge> 3600 then itoa (secs div 3600) @ ''h'' else []);
          s = (if u = 0 then ''0s''
               else if u < 1000 then itoa u @ ''ns''
               else if u < 1000000 then decimal 3 u @ [CHR 0xC2, CHR 0xB5] @ ''s''
               else if u < Second then decimal 6 u @ ''ms''
               else hours @ mins @ decimal 9 (secs mod 60 * Second + u mod Second) @ ''s'')
      in if d < 0 then CHR ''-'' # s else s)"

text \<open>The lock of the key-value client; the lock a provider offers also tracks its duration.\<close>

record 'z KvLock =
  kl_DistTimedLock :: "int \<Rightarrow> ('z, err option) io"
  kl_DistUnlock :: "('z, err option) io"

record LockProvider =
  lp_Duration :: int

definition ETCD_DistributedTimedLock :: "'z KvLock \<Rightarrow> int \<Rightarrow> LockProvider \<Rightarrow> ('z, err option \<times> LockProvider) io" where
  "ETCD_DistributedTimedLock kl maxLockTime d =
     (if maxLockTime < 1 then
        State_Monad.return (Some (''Error: lock duration request invalid ('' @ duration_string maxLockTime @
          '' seconds) -- must be >= 1.''), d)
      else do {
        err \<leftarrow> kl_DistTimedLock kl (maxLockTime div Second);
        State_Monad.return (err, if err \<noteq> None then d else d\<lparr>lp_Duration := maxLockTime\<rparr>) })"

definition ETCD_Unlock :: "'z KvLock \<Rightarrow> LockProvider \<Rightarrow> ('z, err option \<times> LockProvider) io" where
  "ETCD_Unlock kl d = do {
     err \<leftarrow> kl_DistUnlock kl;
     State_Monad.return (err, d\<lparr>lp_Duration := 0\<rparr>) }"

text \<open>The memory lock works on a copy of itself, so that only its own assignments count.\<close>

definition MEM_DistributedTimedLock :: "'z KvLock \<Rightarrow> int \<Rightarrow> LockProvider \<Rightarrow> ('z, err option \<times> LockProvider) io" where
  "MEM_DistributedTimedLock kl maxLockTime d =
     (if maxLockTime < Second then
        State_Monad.return (Some ''Error: lock duration request invalid -- must be >= 1 second.'', d)
      else do {
        (err, _) \<leftarrow> ETCD_DistributedTimedLock kl maxLockTime (d\<lparr>lp_Duration := maxLockTime\<rparr>);
        State_Monad.return (err, d\<lparr>lp_Duration := maxLockTime\<rparr>) })"

definition MEM_Unlock :: "'z KvLock \<Rightarrow> LockProvider \<Rightarrow> ('z, err option \<times> LockProvider) io" where
  "MEM_Unlock kl d = do {
     (err, _) \<leftarrow> ETCD_Unlock kl d;
     State_Monad.return (err, d\<lparr>lp_Duration := 0\<rparr>) }"

section \<open>The election\<close>

definition powerStatusMasterInterval :: int where
  "powerStatusMasterInterval = 15"

text \<open>
  The phases of an instance: not master, about to store the first entry, about to replace an
  entry that it found outdated, master with the time of its last refresh. The keep-alive
  goroutine runs exactly while the phase is \<open>Master\<close>.
\<close>

datatype phase = Follower | First time | Outdated time time | Master time

text \<open>The reading of clock and entry, up to the call that claims it.\<close>

definition check_master :: "ETCDStorage \<Rightarrow> ('z, phase) io" where
  "check_master e = do {
     t \<leftarrow> now;
     r \<leftarrow> GetPowerStatusMaster e;
     State_Monad.return (case r of
        Inl err \<Rightarrow> if \<not> str_contains err ''does not exist'' then Follower else First t
      | Inr lastUpdated \<Rightarrow>
          if lastUpdated + powerStatusMasterInterval * 3 * Second > t then Follower else Outdated t lastUpdated) }"

definition claim_master :: "ETCDStorage \<Rightarrow> phase \<Rightarrow> ('z, phase) io" where
  "claim_master e p = (case p of
       First t \<Rightarrow> do {
         err \<leftarrow> StorePowerStatusMaster e t;
         State_Monad.return (if err \<noteq> None then Follower else Master t) }
     | Outdated t lastUpdated \<Rightarrow> do {
         (success, err) \<leftarrow> TASPowerStatusMaster e t lastUpdated;
         State_Monad.return (if err \<noteq> None \<or> \<not> success then Follower else Master t) }
     | _ \<Rightarrow> State_Monad.return p)"

record 'z DistLock =
  dl_Lock :: "int \<Rightarrow> ('z, err option) io"
  dl_Unlock :: "('z, err option) io"

definition getPowerStatusMaster :: "ETCDStorage \<Rightarrow> 'z DistLock \<Rightarrow> int \<Rightarrow> ('z, phase) io" where
  "getPowerStatusMaster e dl distLockMaxTime = do {
     lockErr \<leftarrow> dl_Lock dl distLockMaxTime;
     if lockErr \<noteq> None then State_Monad.return Follower
     else do {
       p \<leftarrow> check_master e;
       q \<leftarrow> claim_master e p;
       _ \<leftarrow> dl_Unlock dl;
       State_Monad.return q } }"

text \<open>One tick of the keep-alive; \<open>running\<close> are the flags of monitor and service.\<close>

definition keep_master :: "ETCDStorage \<Rightarrow> bool \<Rightarrow> time \<Rightarrow> ('z, phase) io" where
  "keep_master e running lastUpdated =
     (if \<not> running then State_Monad.return Follower
      else do {
        t \<leftarrow> now;
        (success, err) \<leftarrow> TASPowerStatusMaster e t lastUpdated;
        State_Monad.return (if err \<noteq> None then Master lastUpdated
          else if \<not> success then Follower else Master t) })"

section \<open>All instances\<close>

text \<open>What an instance does next, given its phase.\<close>

definition turn :: "ETCDStorage \<Rightarrow> bool \<Rightarrow> phase \<Rightarrow> ('z, phase) io" where
  "turn e running p = (case p of Follower \<Rightarrow> check_master e | Master t \<Rightarrow> keep_master e running t | _ \<Rightarrow> claim_master e p)"

type_synonym 'z cluster = "'z world_scheme \<times> (nat \<Rightarrow> phase)"

text \<open>
  A step of the cluster: one instance takes its turn, an instance is restarted and
  forgets that it was master, or time passes.
\<close>

inductive cluster_step :: "ETCDStorage \<Rightarrow> 'z cluster \<Rightarrow> 'z cluster \<Rightarrow> bool" for e where
  turn: "run_state (turn e running (ph i)) w = (p, w') \<Longrightarrow> cluster_step e (w, ph) (w', ph(i := p))"
| restart: "cluster_step e (w, ph) (w, ph(i := Follower))"
| pass: "run_state step w = (n, w') \<Longrightarrow> cluster_step e (w, ph) (w', ph)"

inductive_cases cluster_stepE: "cluster_step e c d"

text \<open>The entry all instances agree on.\<close>

definition master_key :: string where
  "master_key = fixUpKey keySegPowerStatusMaster"

definition master_entry :: "kvstore \<Rightarrow> time option" where
  "master_entry m = (case map_of m master_key of Some (JTime t) \<Rightarrow> Some t | _ \<Rightarrow> None)"

definition holds_master :: "'z cluster \<Rightarrow> nat \<Rightarrow> bool" where
  "holds_master c i \<longleftrightarrow> (\<exists>t. snd c i = Master t \<and> master_entry (kvs (fst c)) = Some t)"

section \<open>The protocol\<close>

text \<open>
  The abstract protocol: the entry, the phases and the readings of the clock so far. No
  reading is drawn twice. That an instance finds no entry is not a guard of \<open>draw_first\<close>:
  the code takes every error text with \<^verbatim>\<open>does not exist\<close> for that.
\<close>

record protocol =
  pr_entry :: "time option"
  pr_phase :: "nat \<Rightarrow> phase"
  pr_drawn :: "time set"

inductive protocol_step :: "protocol \<Rightarrow> protocol \<Rightarrow> bool" where
  draw_first: "pr_phase s i = Follower \<Longrightarrow> t \<notin> pr_drawn s \<Longrightarrow>
     protocol_step s (s\<lparr>pr_phase := (pr_phase s)(i := First t), pr_drawn := insert t (pr_drawn s)\<rparr>)"
| draw_outdated: "pr_phase s i = Follower \<Longrightarrow> pr_entry s = Some u \<Longrightarrow> u + 45 * Second \<le> t \<Longrightarrow> t \<notin> pr_drawn s \<Longrightarrow>
     protocol_step s (s\<lparr>pr_phase := (pr_phase s)(i := Outdated t u), pr_drawn := insert t (pr_drawn s)\<rparr>)"
| store_first: "pr_phase s i = First t \<Longrightarrow>
     protocol_step s (s\<lparr>pr_entry := Some t, pr_phase := (pr_phase s)(i := Master t)\<rparr>)"
| take_over: "pr_phase s i = Outdated t u \<Longrightarrow> pr_entry s = Some u \<Longrightarrow>
     protocol_step s (s\<lparr>pr_entry := Some t, pr_phase := (pr_phase s)(i := Master t)\<rparr>)"
| refresh: "pr_phase s i = Master u \<Longrightarrow> pr_entry s = Some u \<Longrightarrow> t \<notin> pr_drawn s \<Longrightarrow>
     protocol_step s (s\<lparr>pr_entry := Some t, pr_phase := (pr_phase s)(i := Master t), pr_drawn := insert t (pr_drawn s)\<rparr>)"
| give_up: "protocol_step s (s\<lparr>pr_phase := (pr_phase s)(i := Follower)\<rparr>)"
| idle: "protocol_step s s"

inductive_cases protocol_stepE: "protocol_step s s'"

fun stamp :: "phase \<Rightarrow> time option" where
  "stamp Follower = None"
| "stamp (First t) = Some t"
| "stamp (Outdated t u) = Some t"
| "stamp (Master t) = Some t"

text \<open>
  Stamps are drawn readings that no two instances share, and an entry is only replaced after
  three intervals.
\<close>

definition protocol_inv :: "protocol \<Rightarrow> bool" where
  "protocol_inv s \<longleftrightarrow>
     (\<forall>i t. stamp (pr_phase s i) = Some t \<longrightarrow> t \<in> pr_drawn s) \<and>
     (\<forall>i j t. stamp (pr_phase s i) = Some t \<longrightarrow> stamp (pr_phase s j) = Some t \<longrightarrow> i = j) \<and>
     (\<forall>i t u. pr_phase s i = Outdated t u \<longrightarrow> u + 45 * Second \<le> t)"

lemma protocol_inv_step: "protocol_step s s' \<Longrightarrow> protocol_inv s \<Longrightarrow> protocol_inv s'"
  by (erule protocol_step.cases) (auto simp: protocol_inv_def split: if_splits; metis stamp.simps)+

definition holder :: "protocol \<Rightarrow> nat \<Rightarrow> bool" where
  "holder s i \<longleftrightarrow> (\<exists>t. pr_phase s i = Master t \<and> pr_entry s = Some t)"

definition deposed :: "protocol \<Rightarrow> nat \<Rightarrow> bool" where
  "deposed s i \<longleftrightarrow> (\<exists>t. pr_phase s i = Master t \<and> pr_entry s \<noteq> Some t)"

lemma holder_unique: "protocol_inv s \<Longrightarrow> holder s i \<Longrightarrow> holder s j \<Longrightarrow> i = j"
  unfolding protocol_inv_def holder_def by (metis option.inject stamp.simps(4))

lemma deposed_step: "protocol_step s s' \<Longrightarrow> protocol_inv s \<Longrightarrow> deposed s i \<Longrightarrow> \<not> holder s' i"
  by (erule protocol_step.cases) (auto simp: protocol_inv_def holder_def deposed_def split: if_splits; metis stamp.simps)+

lemma holder_step:
  assumes "protocol_step s s'" "protocol_inv s" "holder s i" "\<not> holder s' i"
  shows "pr_phase s' i = Follower \<or>
    (\<exists>j t u. j \<noteq> i \<and> holder s' j \<and> pr_phase s i = Master u \<and> pr_phase s' j = Master t \<and>
       (pr_phase s j = First t \<or> pr_phase s j = Outdated t u \<and> u + 45 * Second \<le> t))"
  using assms by (cases rule: protocol_step.cases) (auto simp: protocol_inv_def holder_def split: if_splits)

section \<open>The code refines the protocol\<close>

text \<open>
  The simulation: the peers of the world are everything but the election, no reading of the
  clock is repeated, and what has been drawn was read before now.
\<close>

definition spares_master :: "'z world_scheme \<Rightarrow> bool" where
  "spares_master w \<longleftrightarrow> (\<forall>n m. map_of (foldl apply_event m (w_peers w n)) master_key = map_of m master_key)"

definition sim :: "'z cluster \<Rightarrow> protocol \<Rightarrow> bool" where
  "sim c s \<longleftrightarrow> (case c of (w, ph) \<Rightarrow>
     spares_master w \<and> inj (w_clock w) \<and> pr_drawn s \<subseteq> w_clock w ` {..<ticks w} \<and>
     pr_entry s = master_entry (kvs w) \<and> pr_phase s = ph)"

lemma fresh_reading: "inj f \<Longrightarrow> D \<subseteq> f ` {..<n} \<Longrightarrow> f (n :: nat) \<notin> D"
  by (fastforce simp: inj_def dest: subsetD)

lemma drawn_later: "D \<subseteq> f ` {..<n} \<Longrightarrow> n \<le> k \<Longrightarrow> D \<subseteq> f ` {..<(k :: nat)}"
  by force

lemma spares_entry: "spares_master w \<Longrightarrow> master_entry (foldl apply_event m (w_peers w n)) = master_entry m"
  by (simp add: spares_master_def master_entry_def)

lemma spares_simps [simp]: "spares_master (bump w) = spares_master w" "spares_master (w\<lparr>kvs := m\<rparr>) = spares_master w"
  by (simp_all add: spares_master_def)

lemma entry_update [simp]: "master_entry (AList.update master_key (JTime t) m) = Some t"
  by (simp add: master_entry_def)

lemma entry_eq: "map_of m master_key = Some (JTime t) \<longleftrightarrow> master_entry m = Some t"
  by (auto simp: master_entry_def split: option.splits json.splits)

lemma run_tas_master: "es_kvHandle e = Kvs_etcd \<Longrightarrow> run_state (TASPowerStatusMaster e t u) w =
    (case w_faults w (ticks w) of Some er \<Rightarrow> ((False, Some er), bump w)
     | None \<Rightarrow> if master_entry (kvs (bump w)) = Some u
         then ((True, None), (bump w)\<lparr>kvs := AList.update master_key (JTime t) (kvs (bump w))\<rparr>)
         else ((False, None), bump w))"
  by (auto simp: TASPowerStatusMaster_def kvTAS_def Kvi_TAS_def run_kv_call tas_def
      master_key_def [symmetric] entry_eq [symmetric] split: option.splits)

lemma run_store_master: "es_kvHandle e = Kvs_etcd \<Longrightarrow> run_state (StorePowerStatusMaster e t) w =
    (case w_faults w (ticks w) of Some er \<Rightarrow> (Some er, bump w)
     | None \<Rightarrow> (None, (bump w)\<lparr>kvs := AList.update master_key (JTime t) (kvs (bump w))\<rparr>))"
  by (simp add: StorePowerStatusMaster_def kvStore_def Kvi_Store_def run_kv_call master_key_def [symmetric] split: option.splits)

lemma sim_to:
  assumes "sim (w, ph) s" "protocol_step s s'" "pr_phase s' = ph'" "pr_entry s' = master_entry (kvs w')"
    "w_clock w' = w_clock w" "spares_master w'"
    "pr_drawn s' \<subseteq> pr_drawn s \<and> ticks w \<le> ticks w' \<or>
     pr_drawn s' \<subseteq> insert (w_clock w (ticks w)) (pr_drawn s) \<and> ticks w < ticks w'"
  shows "\<exists>s'. protocol_step s s' \<and> sim (w', ph') s'"
proof -
  have D: "pr_drawn s \<subseteq> w_clock w ` {..<ticks w}" using assms(1) by (simp add: sim_def)
  from assms(7) have "pr_drawn s' \<subseteq> w_clock w ` {..<ticks w'}"
  proof (elim disjE conjE)
    assume "pr_drawn s' \<subseteq> pr_drawn s" "ticks w \<le> ticks w'"
    then show ?thesis using drawn_later [OF D] by blast
  next
    assume "pr_drawn s' \<subseteq> insert (w_clock w (ticks w)) (pr_drawn s)" "ticks w < ticks w'"
    then show ?thesis using drawn_later [OF D, of "ticks w'"] by auto
  qed
  with assms have "sim (w', ph') s'" by (simp add: sim_def)
  with assms(2) show ?thesis by blast
qed

lemmas sim_moves = sim_to [OF _ protocol_step.idle] sim_to [OF _ protocol_step.give_up]
  sim_to [OF _ protocol_step.draw_first] sim_to [OF _ protocol_step.draw_outdated]
  sim_to [OF _ protocol_step.store_first] sim_to [OF _ protocol_step.take_over] sim_to [OF _ protocol_step.refresh]

lemma simD:
  assumes "sim (w, ph) s"
  shows "pr_phase s = ph" "pr_entry s = master_entry (kvs w)" "spares_master w" "w_clock w (ticks w) \<notin> pr_drawn s"
  using assms by (auto simp: sim_def fresh_reading)

lemma sim_check:
  assumes "es_kvHandle e = Kvs_etcd" "sim (w, ph) s" "ph i = Follower" "run_state (check_master e) w = (p, w')"
  shows "\<exists>s'. protocol_step s s' \<and> sim (w', ph(i := p)) s'"
proof -
  let ?t = "w_clock w (ticks w)"
  note s = simD [OF assms(2)]
  have w': "w' = bump (bump w)" and p: "p = Follower \<or> p = First ?t \<or> (\<exists>u. p = Outdated ?t u \<and>
      u + 45 * Second \<le> ?t \<and> pr_entry s = Some u)"
    using assms(1,4) s(2,3)
    by (auto simp: check_master_def run_now GetPowerStatusMaster_def kvGet_def Kvi_Get_def run_kv_call
        master_key_def [symmetric] spares_master_def json_time_def powerStatusMasterInterval_def master_entry_def
        split: option.splits json.splits if_splits)
  have w: "ticks w < ticks w'" "w_clock w' = w_clock w" "spares_master w'" "pr_entry s = master_entry (kvs w')"
    using s by (simp_all add: w' spares_entry)
  from p show ?thesis
  proof (elim disjE exE conjE)
    assume "p = Follower"
    then show ?thesis using w s assms(3) by (intro sim_moves(1) [OF assms(2)]) auto
  next
    assume "p = First ?t"
    then show ?thesis using w s assms(3) by (intro sim_moves(3) [OF assms(2), of i ?t]) auto
  next
    fix u assume "p = Outdated ?t u" "u + 45 * Second \<le> ?t" "pr_entry s = Some u"
    then show ?thesis using w s assms(3) by (intro sim_moves(4) [OF assms(2), of i u ?t]) auto
  qed
qed

lemma sim_claim:
  assumes e: "es_kvHandle e = Kvs_etcd" and sim: "sim (w, ph) s"
    and p: "ph i = First t \<or> (\<exists>u. ph i = Outdated t u)" and run: "run_state (claim_master e (ph i)) w = (q, w')"
  shows "\<exists>s'. protocol_step s s' \<and> sim (w', ph(i := q)) s'"
proof -
  note s = simD [OF sim]
  have "(q = Follower \<and> w' = bump w) \<or> (q = Master t \<and> w' = (bump w)\<lparr>kvs := AList.update master_key (JTime t) (kvs (bump w))\<rparr> \<and>
      (ph i = First t \<or> (\<exists>u. ph i = Outdated t u \<and> pr_entry s = Some u)))"
    using p run e s by (auto simp: claim_master_def run_store_master run_tas_master spares_entry split: option.splits if_splits)
  then show ?thesis
  proof (elim disjE conjE exE)
    assume "q = Follower" "w' = bump w"
    then show ?thesis using s by (intro sim_moves(2) [OF sim, of i]) (auto simp: spares_entry)
  next
    assume "q = Master t" "w' = (bump w)\<lparr>kvs := AList.update master_key (JTime t) (kvs (bump w))\<rparr>" "ph i = First t"
    then show ?thesis using s by (intro sim_moves(5) [OF sim, of i t]) auto
  next
    fix u assume "q = Master t" "w' = (bump w)\<lparr>kvs := AList.update master_key (JTime t) (kvs (bump w))\<rparr>"
      "ph i = Outdated t u" "pr_entry s = Some u"
    then show ?thesis using s by (intro sim_moves(6) [OF sim, of i t u]) auto
  qed
qed

lemma sim_keep:
  assumes e: "es_kvHandle e = Kvs_etcd" and sim: "sim (w, ph) s"
    and p: "ph i = Master u" and run: "run_state (keep_master e running u) w = (q, w')"
  shows "\<exists>s'. protocol_step s s' \<and> sim (w', ph(i := q)) s'"
proof -
  let ?t = "w_clock w (ticks w)" and ?w = "bump (bump w)"
  note s = simD [OF sim]
  have "(q = Follower \<and> (w' = w \<or> w' = ?w)) \<or> (q = Master u \<and> w' = ?w) \<or>
      (q = Master ?t \<and> w' = ?w\<lparr>kvs := AList.update master_key (JTime ?t) (kvs ?w)\<rparr> \<and> pr_entry s = Some u)"
    using run e s by (auto simp: keep_master_def run_now run_tas_master spares_entry split: option.splits if_splits)
  then show ?thesis
  proof (elim disjE conjE)
    assume "q = Master u" "w' = ?w"
    then show ?thesis using s p by (intro sim_moves(1) [OF sim]) (auto simp: spares_entry)
  next
    assume "q = Master ?t" "w' = ?w\<lparr>kvs := AList.update master_key (JTime ?t) (kvs ?w)\<rparr>" "pr_entry s = Some u"
    then show ?thesis using s p by (intro sim_moves(7) [OF sim, of i u ?t]) auto
  qed (use s in \<open>intro sim_moves(2) [OF sim, of i]; auto simp: spares_entry\<close>)+
qed

text \<open>Every step of the running instances is one of the protocol.\<close>

lemma cluster_simulates:
  assumes e: "es_kvHandle e = Kvs_etcd" and sim: "sim c s" and st: "cluster_step e c d"
  shows "\<exists>s'. protocol_step s s' \<and> sim d s'"
  using st
proof cases
  case (turn running ph i w p w')
  with sim sim_check [OF e, of w ph s i] sim_claim [OF e, of w ph s i] sim_keep [OF e, of w ph s i] show ?thesis
    by (cases "ph i") (auto simp: turn_def)
next
  case (restart w ph i)
  with sim have sim: "sim (w, ph) s" by simp
  show ?thesis unfolding restart using simD [OF sim] by (intro sim_moves(2) [OF sim, of i]) auto
next
  case (pass w n w' ph)
  with sim have sim: "sim (w, ph) s" by simp
  have "w' = bump w" using pass by (simp add: run_step)
  then show ?thesis unfolding pass using simD [OF sim] by (intro sim_moves(1) [OF sim]) (auto simp: spares_entry)
qed

section \<open>What the election guarantees\<close>

text \<open>The instances start as followers; whatever they find in the store is left over.\<close>

definition cluster_start :: "'z cluster \<Rightarrow> bool" where
  "cluster_start c \<longleftrightarrow> snd c = (\<lambda>_. Follower) \<and> spares_master (fst c) \<and> inj (w_clock (fst c))"

lemma reachable_sim:
  assumes "es_kvHandle e = Kvs_etcd" "cluster_start c0" "(cluster_step e)\<^sup>*\<^sup>* c0 c"
  shows "\<exists>s. sim c s \<and> protocol_inv s"
  using assms(3)
proof (induction rule: rtranclp_induct)
  case base
  let ?s = "\<lparr>pr_entry = master_entry (kvs (fst c0)), pr_phase = snd c0, pr_drawn = {}\<rparr>"
  have "sim c0 ?s \<and> protocol_inv ?s"
    using assms(2) by (cases c0) (simp add: sim_def protocol_inv_def cluster_start_def)
  then show ?case by blast
next
  case (step c d)
  then show ?case using cluster_simulates [OF assms(1)] protocol_inv_step by blast
qed

lemma sim_holder: "sim c s \<Longrightarrow> holds_master c i = holder s i"
  by (cases c) (auto simp: sim_def holds_master_def holder_def)

lemma sim_phase: "sim c s \<Longrightarrow> pr_phase s = snd c"
  by (cases c) (simp add: sim_def)


text \<open>
  C6: a master is only displaced by an instance that had found no entry when it looked, or
  whose clock had then passed the last refresh by three intervals of the keep-alive (45 seconds); a master that
  refreshes in time keeps its place against every other instance.
\<close>

theorem master_lease:
  assumes "es_kvHandle e = Kvs_etcd" "cluster_start c0" "(cluster_step e)\<^sup>*\<^sup>* c0 c" "cluster_step e c d"
    and "holds_master c i" "\<not> holds_master d i"
  shows "snd d i = Follower \<or>
    (\<exists>j t u. j \<noteq> i \<and> holds_master d j \<and> snd c i = Master u \<and> snd d j = Master t \<and>
       (snd c j = First t \<or> snd c j = Outdated t u \<and> u + 3 * powerStatusMasterInterval * Second \<le> t))"
proof -
  obtain s where s: "sim c s" "protocol_inv s" using reachable_sim [OF assms(1-3)] by blast
  obtain s' where s': "protocol_step s s'" "sim d s'" using cluster_simulates [OF assms(1) s(1) assms(4)] by blast
  show ?thesis
    using holder_step [OF s'(1) s(2), of i] assms(5,6) s(1) s'(2)
    by (simp add: sim_holder sim_phase powerStatusMasterInterval_def)
qed

section \<open>Examples\<close>

definition sample_election :: world where
  "sample_election = empty_world\<lparr>w_clock := (\<lambda>n. int n * 50 * Second)\<rparr>"

definition sample_cluster :: "unit cluster" where
  "sample_cluster = (sample_election, \<lambda>_. Follower)"

definition take_turn :: "ETCDStorage \<Rightarrow> nat \<Rightarrow> 'z cluster \<Rightarrow> 'z cluster" where
  "take_turn e i c = (case run_state (turn e True (snd c i)) (fst c) of (p, w) \<Rightarrow> (w, (snd c)(i := p)))"

lemma cluster_take_turn: "cluster_step e c (take_turn e i c)"
  by (cases c) (auto simp: take_turn_def split: prod.splits intro: cluster_step.turn)

lemma cluster_take_turns: "(cluster_step e)\<^sup>*\<^sup>* c (foldl (\<lambda>c i. take_turn e i c) c is)"
proof (induction "is" arbitrary: c)
  case (Cons i js)
  show ?case unfolding foldl_Cons by (rule converse_rtranclp_into_rtranclp [OF cluster_take_turn Cons.IH])
qed simp

lemma sample_start: "cluster_start sample_cluster"
  by (simp add: cluster_start_def sample_cluster_def spares_master_def sample_election_def empty_world_def inj_def)

text \<open>Instance 0 becomes master and misses its refresh, instance 1 takes over.\<close>

definition sample_run :: "nat list \<Rightarrow> unit cluster" where
  "sample_run js = foldl (\<lambda>c i. take_turn sample_etcd i c) sample_cluster js"

lemma sample_runs: "es_kvHandle sample_etcd = Kvs_etcd" "(cluster_step sample_etcd)\<^sup>*\<^sup>* sample_cluster (sample_run js)"
  "cluster_step sample_etcd (sample_run js) (sample_run (js @ [i]))"
  unfolding sample_run_def by (simp_all add: sample_etcd_def cluster_take_turns cluster_take_turn)

lemma sample_phases: "snd (sample_run [0, 0, 1]) 1 = Outdated (150 * Second) 0"
  "snd (sample_run [0, 0, 1, 1]) 0 = Master 0" "snd (sample_run [0, 0, 1, 1]) 1 = Master (150 * Second)"
  "snd (sample_run [0, 0, 1]) 0 = Master 0"
  "master_entry (kvs (fst (sample_run [0, 0, 1]))) = Some 0"
  "master_entry (kvs (fst (sample_run [0, 0, 1, 1]))) = Some (150 * Second)"
  by code_simp+


theorem master_lease_witness:
  "snd (sample_run [0, 0, 1, 1]) 0 = Follower \<or> (\<exists>j t u. j \<noteq> 0 \<and> holds_master (sample_run [0, 0, 1, 1]) j \<and>
     snd (sample_run [0, 0, 1]) 0 = Master u \<and> snd (sample_run [0, 0, 1, 1]) j = Master t \<and>
     (snd (sample_run [0, 0, 1]) j = First t \<or>
      snd (sample_run [0, 0, 1]) j = Outdated t u \<and> u + 3 * powerStatusMasterInterval * Second \<le> t))"
  by (rule master_lease [OF sample_runs(1) sample_start sample_runs(2)])
    (use sample_runs(3) [of "[0, 0, 1]" 1] sample_phases in \<open>auto simp: holds_master_def\<close>)

end
