(* ===== verification/StatusMonitor.thy ===== *)
theory StatusMonitor
  imports MasterElection TransitionWorker "HOL-Library.Signed_Division"
begin

text \<open>
  The collection of power states, \<^verbatim>\<open>internal/domain/power-status.go\<close>: the map of components
  that the master keeps in memory, its synchronisation with HSM and with the credential store,
  the polling of the hardware and the query of the API. The global map is an argument and a
  result. HSM, credential store, distributed lock and task launcher are arguments; \<open>None\<close>
  stands for a panic.
\<close>

section \<open>State\<close>

record componentPowerInfo =
  ci_PSComp :: PowerStatusComponent
  ci_HSMData :: HsmData
  ci_BmcUsername :: string
  ci_BmcPassword :: string

type_synonym hw_map = "(xname \<times> componentPowerInfo) list"

text \<open>A request carries the name, the type and the FQDN of its component in its headers.\<close>

record StatusRequest =
  sq_XName :: xname
  sq_CType :: HMSType
  sq_FQDN :: string
  sq_URL :: string
  sq_Auth :: "string \<times> string"

text \<open>
  A body that has been read is empty, does not decode into the struct of its component type, or
  gives the fields \<open>PowerState\<close> and \<open>Status.State\<close>.
\<close>

datatype StatusBody = SB_Unread | SB_Empty | SB_Garbled | SB_Info string string

record StatusResponse =
  sr_StatusCode :: int
  sr_Status :: string
  sr_Body :: StatusBody

record StatusDone =
  sd_XName :: "xname option"
  sd_CType :: "HMSType option"
  sd_FQDN :: "string option"
  sd_Err :: "err option"
  sd_Response :: "StatusResponse option"

record 'z MonitorEnv =
  me_HSM :: "'z HSMProvider"
  me_Launch :: "StatusRequest list \<Rightarrow> ('z, err + StatusDone list) io"
  me_Vault :: bool
  me_Creds :: "xname \<Rightarrow> ('z, err + string \<times> string) io"
  me_Lock :: "'z DistLock"
  me_LockTime :: int

section \<open>Start\<close>

record MonitorGlobals =
  mg_HSM :: bool
  mg_DSP :: bool
  mg_CS :: bool
  mg_VaultEnabled :: bool
  mg_DistLock :: bool
  mg_RFTloc :: bool

text \<open>The checks of \<open>PowerStatusMonitorInit\<close>; the flags tell which handles are not nil.\<close>

definition PowerStatusMonitorInit :: "MonitorGlobals \<Rightarrow> int \<Rightarrow> int \<Rightarrow> err option" where
  "PowerStatusMonitorInit g distLockMaxTimeIn sampleInterval =
     (if \<not> mg_HSM g then Some ''ERROR: must supply valid HSM handle.''
      else if \<not> mg_DSP g then Some ''ERROR: must supply valid storage object.''
      else if \<not> mg_CS g \<and> mg_VaultEnabled g then Some ''ERROR: must supply valid component cred store handle.''
      else if \<not> mg_DistLock g then Some ''ERROR: must supply valid distributed lock object.''
      else if distLockMaxTimeIn < Second then Some ''ERROR: distributed lock max time must be >= 1 second.''
      else if \<not> mg_RFTloc g then Some ''ERROR: must supply valid Task Runner Service handle.''
      else if sampleInterval < Second then Some ''ERROR: power monitor sample interval must be >= 1 second.''
      else None)"

definition PowerStatusMonitorChangeInterval :: "int \<Rightarrow> int \<Rightarrow> err option \<times> int" where
  "PowerStatusMonitorChangeInterval newInterval pmSampleInterval =
     (if newInterval < Second then (Some ''ERROR: power monitor sample interval must be >= 1 second.'', pmSampleInterval)
      else (None, newInterval))"

section \<open>Supported transitions\<close>

definition add_action :: "Operation \<Rightarrow> Operation list \<Rightarrow> Operation list" where
  "add_action a as = (if a \<in> set as then as else as @ [a])"

text \<open>The action map and the list of names grow together, so that the list of operations is both.\<close>

definition add_rf_action :: "Operation list \<Rightarrow> string \<Rightarrow> Operation list" where
  "add_rf_action as rf =
     (let a = to_lower rf in
      if a = ''forceoff'' then add_action Operation_ForceOff as
      else if a = ''forcerestart'' \<or> a = ''gracefulrestart'' then add_action Operation_SoftRestart as
      else if a = ''off'' \<or> a = ''gracefulshutdown'' then add_action Operation_Off (add_action Operation_SoftOff as)
      else if a = ''on'' then add_action Operation_On as
      else as)"

definition pcs_actions :: "string list \<Rightarrow> Operation list" where
  "pcs_actions rfPowerActions =
     (let as = foldl add_rf_action [] rfPowerActions in
      if Operation_On \<in> set as \<and> Operation_Off \<in> set as then
        as @ [Operation_Init, Operation_HardRestart] @
          (if Operation_SoftRestart \<in> set as then [] else [Operation_SoftRestart])
      else as)"

definition toPCSPowerActions :: "string list \<Rightarrow> string list" where
  "toPCSPowerActions rfPowerActions = List.map_filter Operation_String (pcs_actions rfPowerActions)"

section \<open>One component\<close>

text \<open>A record is written to the store only when the state differs from the one in the map.\<close>

definition updateHWState :: "ETCDStorage \<Rightarrow> xname \<Rightarrow> PowerStateFilter \<Rightarrow> ManagementStateFilter \<Rightarrow> string
    \<Rightarrow> hw_map \<Rightarrow> ('z, hw_map) io" where
  "updateHWState e x hwState mgmtState errInfo m = (case map_of m x of None \<Rightarrow> State_Monad.return m
     | Some ci \<Rightarrow>
       (let hwStateStr = to_lower (PowerStateFilter_String hwState);
            mgmtStateStr = to_lower (ManagementStateFilter_String mgmtState) in
        if hwStateStr = to_lower (ps_PowerState (ci_PSComp ci)) \<and> mgmtStateStr = to_lower (ps_ManagementState (ci_PSComp ci))
        then State_Monad.return m
        else do {
          t \<leftarrow> now;
          let ps = (ci_PSComp ci)\<lparr>ps_PowerState := hwStateStr, ps_ManagementState := mgmtStateStr,
            ps_LastUpdated := rfc3339nano t, ps_Error := errInfo\<rparr>;
          _ \<leftarrow> StorePowerStatus e (ps\<lparr>ps_XName := x\<rparr>);
          State_Monad.return (AList.update x (ci\<lparr>ci_PSComp := ps\<rparr>) m) }))"

section \<open>Synchronisation with HSM\<close>

definition monitored_types :: "HMSType list" where
  "monitored_types = [Chassis, ChassisBMC, ComputeModule, RouterModule, NodeBMC, RouterBMC, Node,
     MgmtSwitch, MgmtHLSwitch, CDUMgmtSwitch, CabinetPDUPowerConnector]"

definition zero_base :: BaseComponent where
  "zero_base = \<lparr>bd_ID = [], bd_Type = [], bd_State = [], bd_Role = [], bd_Class = []\<rparr>"

definition new_component :: "HsmData \<Rightarrow> time \<Rightarrow> componentPowerInfo" where
  "new_component v t =
     \<lparr>ci_PSComp = \<lparr>ps_XName = bd_ID (hd_BaseData v), ps_PowerState = PowerStateFilter_String PowerStateFilter_Undefined,
        ps_ManagementState = ManagementStateFilter_String ManagementStateFilter_unavailable, ps_Error = [],
        ps_SupportedPowerTransitions = toPCSPowerActions (hd_AllowableActions v), ps_LastUpdated = rfc3339 t\<rparr>,
      ci_HSMData = (new_hsmdata zero_base)\<lparr>hd_RfFQDN := hd_RfFQDN v, hd_PowerStatusURI := hd_PowerStatusURI v,
        hd_PowerActionURI := hd_PowerActionURI v, hd_PowerCapURI := hd_PowerCapURI v\<rparr>,
      ci_BmcUsername = [], ci_BmcPassword = []\<rparr>"

definition drop_component :: "ETCDStorage \<Rightarrow> hsm_map \<Rightarrow> xname \<Rightarrow> hw_map \<Rightarrow> ('z, hw_map) io" where
  "drop_component e compMap k m =
     (if map_of compMap k \<noteq> None then State_Monad.return m
      else do { _ \<leftarrow> DeletePowerStatus e k; State_Monad.return (AList.delete k m) })"

definition sync_component :: "ETCDStorage \<Rightarrow> HsmData \<Rightarrow> hw_map \<Rightarrow> ('z, hw_map) io" where
  "sync_component e v m =
     (if bd_State (hd_BaseData v) = ''Empty'' \<or> bd_Type (hd_BaseData v) \<notin> set (map HMSType_String monitored_types)
      then State_Monad.return m
      else let x = bd_ID (hd_BaseData v) in
        case map_of m x of
          None \<Rightarrow> do { t \<leftarrow> now; State_Monad.return (AList.update x (new_component v t) m) }
        | Some ci \<Rightarrow>
            if bd_Type (hd_BaseData v) = HMSType_String NodeBMC \<and> ps_SupportedPowerTransitions (ci_PSComp ci) = [] \<and>
               hd_AllowableActions v \<noteq> [] then
              updateHWState e x PowerStateFilter_Undefined ManagementStateFilter_undefined []
                (AList.update x (ci\<lparr>ci_PSComp := (ci_PSComp ci)\<lparr>ps_SupportedPowerTransitions :=
                   toPCSPowerActions (hd_AllowableActions v)\<rparr>\<rparr>) m)
            else State_Monad.return m)"

definition updateComponentMap :: "ETCDStorage \<Rightarrow> 'z HSMProvider \<Rightarrow> hw_map \<Rightarrow> ('z, hw_map \<times> err option) io" where
  "updateComponentMap e hp m = do {
     (compMap, err) \<leftarrow> hp_FillHSMData hp [''all''];
     case err of Some x \<Rightarrow> State_Monad.return (m, Some (''Error fetching HSM data: '' @ x))
     | None \<Rightarrow>
       if compMap = [] then State_Monad.return (m, Some ''HSM returned empty list of components!'')
       else do {
         ks \<leftarrow> range_over (keys m);
         m \<leftarrow> fold_io (drop_component e compMap) ks m;
         vs \<leftarrow> range_over (map snd compMap);
         m \<leftarrow> fold_io (sync_component e) vs m;
         State_Monad.return (m, None) } }"

section \<open>Credentials\<close>

text \<open>
  The entries whose credentials are fetched. The source asks for a password that is \<^emph>\<open>not\<close>
  empty; entries without a user name are covered by the first test.
\<close>

definition wants_creds :: "componentPowerInfo \<Rightarrow> bool" where
  "wants_creds v \<longleftrightarrow> ci_BmcUsername v = [] \<or> ci_BmcPassword v \<noteq> []"

definition set_creds :: "xname \<Rightarrow> string \<Rightarrow> string \<Rightarrow> hw_map \<Rightarrow> hw_map" where
  "set_creds x un pw m = (case map_of m x of None \<Rightarrow> m
     | Some ci \<Rightarrow> AList.update x (ci\<lparr>ci_BmcUsername := un, ci_BmcPassword := pw\<rparr>) m)"

fun fetch_creds :: "'z MonitorEnv \<Rightarrow> xname list \<Rightarrow> hw_map \<Rightarrow> ('z, hw_map \<times> err option) io" where
  "fetch_creds me [] m = State_Monad.return (m, None)"
| "fetch_creds me (k # ks) m = do {
     r \<leftarrow> me_Creds me k;
     case r of Inl err \<Rightarrow> State_Monad.return (m, Some (''ERROR: Can'' @ [CHR 0x27] @ ''t get BMC creds for '' @ [CHR 0x27] @ k @ [CHR 0x27] @ '': '' @ err))
     | Inr (un, pw) \<Rightarrow> fetch_creds me ks (set_creds k un pw m) }"

definition getVaultCredsAll :: "'z MonitorEnv \<Rightarrow> hw_map \<Rightarrow> hw_map \<Rightarrow> ('z, hw_map \<times> err option) io" where
  "getVaultCredsAll me tmpMap m =
     (if \<not> me_Vault me then State_Monad.return (m, None)
      else do { ks \<leftarrow> range_over (keys tmpMap); fetch_creds me ks m })"

definition updateVaultCreds :: "'z MonitorEnv \<Rightarrow> hw_map \<Rightarrow> ('z, hw_map \<times> err option) io" where
  "updateVaultCreds me m = getVaultCredsAll me (filter (\<lambda>(k, v). wants_creds v) m) m"

section \<open>Polling\<close>

definition status_request :: "xname \<times> componentPowerInfo \<Rightarrow> StatusRequest option" where
  "status_request kv = (case kv of (k, v) \<Rightarrow>
     let ctype = GetHMSType k; fqdn = hd_RfFQDN (ci_HSMData v); uri = hd_PowerStatusURI (ci_HSMData v) in
     if ctype \<in> set monitored_types \<and> fqdn \<noteq> [] \<and> uri \<noteq> [] then
       Some \<lparr>sq_XName = k, sq_CType = ctype, sq_FQDN = fqdn, sq_URL = ''https://'' @ fqdn @ uri,
         sq_Auth = (ci_BmcUsername v, ci_BmcPassword v)\<rparr>
     else None)"

definition getStatusCode :: "StatusDone \<Rightarrow> int" where
  "getStatusCode d = (case sd_Response d of Some r \<Rightarrow> sr_StatusCode r
     | None \<Rightarrow> if sd_Err d \<noteq> None then 500 else 204)"

text \<open>A response whose body could not be read is dropped; the last answer of a name counts.\<close>

definition read_done :: "StatusDone \<Rightarrow> StatusDone" where
  "read_done d = (case sd_Response d of
       Some r \<Rightarrow> if sr_Body r = SB_Unread then d\<lparr>sd_Response := None\<rparr> else d
     | None \<Rightarrow> d)"

definition collect_done :: "StatusDone \<Rightarrow> (xname \<times> StatusDone) list \<Rightarrow> (xname \<times> StatusDone) list" where
  "collect_done d m = (case (sd_XName d, sd_FQDN d) of
       (Some x, Some _) \<Rightarrow> if x = [] then m else AList.update x (read_done d) m
     | _ \<Rightarrow> m)"

text \<open>What a decoded body says, by the type of the component.\<close>

abbreviation "unavailable msg \<equiv> (PowerStateFilter_Undefined, ManagementStateFilter_unavailable, msg)"
abbreviation "unknown_state msg \<equiv> (PowerStateFilter_Undefined, ManagementStateFilter_available, msg)"
abbreviation "available_in ps \<equiv> (ps, ManagementStateFilter_available, [])"

definition decode_state :: "HMSType \<Rightarrow> StatusBody \<Rightarrow> PowerStateFilter \<times> ManagementStateFilter \<times> string" where
  "decode_state ctype body =
     (if ctype \<in> {NodeBMC, RouterBMC, ChassisBMC} then available_in PowerStateFilter_On
      else if ctype \<notin> set monitored_types then unknown_state ''Unknown component type''
      else case body of
        SB_Info powerState state \<Rightarrow>
          if ctype = Node then
            available_in (if snd (ToPowerStateFilter powerState) \<noteq> None then PowerStateFilter_Undefined
              else fst (ToPowerStateFilter powerState))
          else if ctype \<in> {MgmtSwitch, MgmtHLSwitch, CDUMgmtSwitch} \<and> to_lower state = ''unavailableoffline'' then
            unavailable ''Management switch is unreachable''
          else available_in (fst (ToPowerStateFilter powerState))
      | _ \<Rightarrow> unknown_state ''Unable to unmarshal power payload'')"

text \<open>The state that the answer of one component stands for.\<close>

definition status_of :: "HMSType \<Rightarrow> StatusDone \<Rightarrow> PowerStateFilter \<times> ManagementStateFilter \<times> string" where
  "status_of ctype d = (case sd_Response d of
       None \<Rightarrow> unavailable ''No response from target''
     | Some r \<Rightarrow>
         let scode = getStatusCode d in
         if scode \<in> {400, 404, 405, 403, 501, 500, 502, 503} then unavailable (sr_Status r)
         else if scode = 401 then unavailable (sr_Status r)
         else if scode \<ge> 206 then unavailable (sr_Status r)
         else if sr_Body r = SB_Empty then unknown_state ''Unable to read response body''
         else decode_state ctype (sr_Body r))"

definition refused_creds :: "StatusDone \<Rightarrow> bool" where
  "refused_creds d \<longleftrightarrow> sd_Response d \<noteq> None \<and> getStatusCode d = 401"

definition quoted_headers :: "string option \<Rightarrow> string" where
  "quoted_headers h = [CHR 0x27] @ ''['' @ (case h of None \<Rightarrow> [] | Some v \<Rightarrow> v) @ '']'' @ [CHR 0x27]"

text \<open>Missing headers end the loop with an error, a missing entry after a refused login panics.\<close>

definition process_done :: "ETCDStorage \<Rightarrow> xname \<times> StatusDone \<Rightarrow> hw_map \<Rightarrow> ('z, (hw_map \<times> err option) option) io" where
  "process_done e xd m = (case xd of (x, d) \<Rightarrow>
     case (sd_CType d, sd_FQDN d) of
       (Some ctype, Some _) \<Rightarrow> do {
         let (ps, ms, msg) = status_of ctype d;
         m \<leftarrow> updateHWState e x ps ms msg m;
         State_Monad.return (if refused_creds d then
             (if map_of m x = None then None else Some (set_creds x [] [] m, None))
           else Some (m, None)) }
     | _ \<Rightarrow> State_Monad.return (Some (m, Some (''Internal error: response headers for xname/ctype/fqdn are empty: '' @
         quoted_headers (map_option HMSType_String (sd_CType d)) @ '', '' @ quoted_headers (sd_FQDN d)))))"

fun process_all :: "ETCDStorage \<Rightarrow> (xname \<times> StatusDone) list \<Rightarrow> hw_map \<Rightarrow> ('z, (hw_map \<times> err option) option) io" where
  "process_all e [] m = State_Monad.return (Some (m, None))"
| "process_all e (xd # xds) m = do {
     r \<leftarrow> process_done e xd m;
     case r of Some (m, None) \<Rightarrow> process_all e xds m | _ \<Rightarrow> State_Monad.return r }"

definition getHWStatesFromHW :: "ETCDStorage \<Rightarrow> 'z MonitorEnv \<Rightarrow> hw_map \<Rightarrow> ('z, (hw_map \<times> err option) option) io" where
  "getHWStatesFromHW e me m = do {
     (m, cerr) \<leftarrow> updateVaultCreds me m;
     if cerr \<noteq> None then State_Monad.return (Some (m, cerr))
     else do {
       kvs \<leftarrow> range_over m;
       let active = List.map_filter status_request kvs;
       if active = [] then State_Monad.return (Some (m, None))
       else do {
         r \<leftarrow> me_Launch me active;
         case r of Inl x \<Rightarrow> State_Monad.return (Some (m, Some (''getHWStatesFromHW: TRS Launch() error: '' @ x @ ''.'')))
         | Inr dones \<Rightarrow> do {
             xds \<leftarrow> range_over (fold collect_done dones []);
             process_all e xds m } } } }"

section \<open>The monitor\<close>

text \<open>One round of \<open>monitorHW\<close>; the phase is that of the election.\<close>

definition monitorHW_round :: "ETCDStorage \<Rightarrow> 'z MonitorEnv \<Rightarrow> phase \<times> hw_map \<Rightarrow> ('z, (phase \<times> hw_map) option) io" where
  "monitorHW_round e me st = (case st of (ph, m) \<Rightarrow> do {
     ph \<leftarrow> (case ph of Master _ \<Rightarrow> State_Monad.return ph | _ \<Rightarrow> getPowerStatusMaster e (me_Lock me) (me_LockTime me));
     case ph of Master _ \<Rightarrow> do {
         (m, err) \<leftarrow> updateComponentMap e (me_HSM me) m;
         if err \<noteq> None then State_Monad.return (Some (ph, m))
         else do {
           r \<leftarrow> getHWStatesFromHW e me m;
           State_Monad.return (map_option (\<lambda>(m, _). (ph, m)) r) } }
     | _ \<Rightarrow> State_Monad.return (Some (ph, m)) })"

text \<open>
  \<open>monitorHW\<close>: the loop runs once per process, guarded by \<open>pstateMonitorRunning\<close>. A list tells
  what each check of the exit conditions reads, \<open>pstateMonitorRunning\<close>, which \<open>PowerStatusMonitorStop\<close> clears, and \<open>*serviceRunning\<close>;
  it is as long as the run that is looked at. The first component of the result tells whether the loop goes on.
\<close>

fun monitor_rounds :: "ETCDStorage \<Rightarrow> 'z MonitorEnv \<Rightarrow> (bool \<times> bool) list \<Rightarrow> phase \<times> hw_map \<Rightarrow> ('z, (bool \<times> phase \<times> hw_map) option) io" where
  "monitor_rounds e me [] st = State_Monad.return (Some (True, st))"
| "monitor_rounds e me ((monitorRunning, serviceRunning) # checks) st =
     (if \<not> monitorRunning \<or> \<not> serviceRunning then State_Monad.return (Some (False, st))
      else do {
        _ \<leftarrow> sleep;
        r \<leftarrow> monitorHW_round e me st;
        case r of None \<Rightarrow> State_Monad.return None
        | Some st' \<Rightarrow> monitor_rounds e me checks st' })"

definition monitorHW :: "ETCDStorage \<Rightarrow> 'z MonitorEnv \<Rightarrow> bool \<Rightarrow> (bool \<times> bool) list \<Rightarrow> ('z, (bool \<times> phase \<times> hw_map) option) io" where
  "monitorHW e me pstateMonitorRunning checks =
     (if pstateMonitorRunning then State_Monad.return (Some (False, Follower, []))
      else monitor_rounds e me checks (Follower, []))"

text \<open>
  The settings of the status requests: an idle connection is kept for one and a half times a
  poll and the wait for the next one. Go divides towards zero; times are in seconds.
\<close>

record TrsSettings =
  ts_Timeout :: int
  ts_Retries :: int
  ts_TxEnabled :: bool
  ts_MaxIdleConns :: int
  ts_MaxIdleConnsPerHost :: int
  ts_IdleConnTimeout :: int

definition status_settings :: "int \<Rightarrow> int \<Rightarrow> int \<Rightarrow> int \<Rightarrow> int \<Rightarrow> TrsSettings" where
  "status_settings statusTimeout pmSampleInterval httpRetries maxIdleConns maxIdleConnsPerHost =
     (let idleConnTimeout = (statusTimeout + pmSampleInterval sdiv Second) * 15 sdiv 10 in
      \<lparr>ts_Timeout = statusTimeout, ts_Retries = httpRetries, ts_TxEnabled = True, ts_MaxIdleConns = maxIdleConns,
       ts_MaxIdleConnsPerHost = maxIdleConnsPerHost, ts_IdleConnTimeout = idleConnTimeout\<rparr>)"

section \<open>The query\<close>

record PowerStatus =
  pst_Status :: "PowerStatusComponent list"

definition missing_error :: "xname \<Rightarrow> string" where
  "missing_error x =
     (let htype = GetHMSType x in
      if htype \<in> set monitored_types then ''Component not found in component map.''
      else if htype = HMSTypeInvalid then ''Invalid component name.''
      else ''Component can not have power state and managment state data'')"

definition missing_component :: "xname \<Rightarrow> PowerStatusComponent" where
  "missing_component x = \<lparr>ps_XName = x, ps_PowerState = [], ps_ManagementState = [], ps_Error = missing_error x,
     ps_SupportedPowerTransitions = [], ps_LastUpdated = []\<rparr>"

definition state_matches :: "PowerStateFilter \<Rightarrow> ManagementStateFilter \<Rightarrow> PowerStatusComponent \<Rightarrow> bool" where
  "state_matches psf msf p \<longleftrightarrow>
     (psf = PowerStateFilter_Nil \<or> to_lower (PowerStateFilter_String psf) = to_lower (ps_PowerState p)) \<and>
     (msf = ManagementStateFilter_Nil \<or> msf = ManagementStateFilter_undefined \<or>
      to_lower (ManagementStateFilter_String msf) = to_lower (ps_ManagementState p))"

text \<open>The error text of the stored record is not copied.\<close>

definition status_entry :: "(xname \<times> PowerStatusComponent) list \<Rightarrow> PowerStateFilter \<Rightarrow> ManagementStateFilter \<Rightarrow> xname
    \<Rightarrow> PowerStatusComponent option" where
  "status_entry compMap psf msf x = (case map_of compMap x of
       None \<Rightarrow> Some (missing_component x)
     | Some p \<Rightarrow> if state_matches psf msf p then Some (p\<lparr>ps_XName := x, ps_Error := []\<rparr>) else None)"

definition GetPowerStatus_query :: "ETCDStorage \<Rightarrow> xname list \<Rightarrow> PowerStateFilter \<Rightarrow> ManagementStateFilter
    \<Rightarrow> ('z, PowerStatus Passback) io" where
  "GetPowerStatus_query e xnames psf msf = do {
     (status, err) \<leftarrow> GetAllPowerStatus e;
     case err of Some x \<Rightarrow> State_Monad.return (BuildErrorPassback 500 x)
     | None \<Rightarrow> do {
         let compMap = foldl (\<lambda>m p. AList.update (ps_XName p) p m) [] status;
         let names = (if xnames = [] then map ps_XName status else xnames);
         State_Monad.return (BuildSuccessPassback 200 \<lparr>pst_Status = List.map_filter (status_entry compMap psf msf) names\<rparr>) } }"

end
