(* ===== verification/MonitorSafety.thy ===== *)
theory MonitorSafety
  imports StatusMonitor
begin

text \<open>
  What the monitor guarantees. The abstract contract of the collection is a map from names to
  records, \<open>power_view\<close>; the query of the API answers from it, and the in-memory map of the
  master and the store stay synchronised with each other through every round.
\<close>

section \<open>The stored records as a map\<close>

definition pstate_prefix :: string where
  "pstate_prefix = ''/pcs/powerstate''"

definition pkey :: "xname \<Rightarrow> string" where
  "pkey x = pstate_prefix @ ''/'' @ x"

lemma pkey_eq [simp]: "pkey x = pkey y \<longleftrightarrow> x = y"
  by (simp add: pkey_def)

lemma power_key_pkey: "fixUpKey (power_key x) = pkey x"
  by (simp add: fixUpKey_power pkey_def pstate_prefix_def)

definition power_view :: "kvstore \<Rightarrow> xname \<Rightarrow> PowerStatusComponent option" where
  "power_view m x = (case map_of m (pkey x) of None \<Rightarrow> None | Some j \<Rightarrow> dec_PowerStatus j)"

definition power_clean :: "kvstore \<Rightarrow> bool" where
  "power_clean m \<longleftrightarrow> distinct (keys m) \<and>
     (\<forall>(k, j) \<in> set m. has_prefix k pstate_prefix \<longrightarrow> (\<exists>p. k = pkey (ps_XName p) \<and> j = enc_PowerStatus p))"

definition power_range :: "kvi \<Rightarrow> kvstore \<Rightarrow> kvstore" where
  "power_range h m = filter (\<lambda>(k, v). in_range h (pstate_prefix @ keyMin) (pstate_prefix @ keyMax) k) m"

lemma dec_enc_power [simp]: "dec_PowerStatus (enc_PowerStatus p) = Some p"
  by (rule ps_codec.dec_enc) simp

lemma fixUpKey_power_seg: "fixUpKey keySegPowerState = pstate_prefix"
  by (simp add: pstate_prefix_def fixUpKey_def key_defs has_prefix_def)

lemma power_range_entries:
  assumes "power_clean m"
  shows "\<exists>ps. power_range h m = map (\<lambda>p. (pkey (ps_XName p), enc_PowerStatus p)) ps"
proof -
  have "\<exists>p. kv = (pkey (ps_XName p), enc_PowerStatus p)" if "kv \<in> set (power_range h m)" for kv
  proof (cases kv)
    case (Pair k j)
    with that have "(k, j) \<in> set m" "has_prefix k pstate_prefix" by (auto simp: power_range_def dest: in_range_prefix)
    with assms Pair show ?thesis unfolding power_clean_def by blast
  qed
  then show ?thesis unfolding ex_map_conv by blast
qed

lemma decode_records: "decode_list dec_PowerStatus (map (\<lambda>p. (k p, enc_PowerStatus p)) ps) None = (ps, None)"
  by (induction ps) simp_all

lemma view_in_range: "map_of (power_range h m) (pkey x) = map_of m (pkey x)"
proof -
  have r: "in_range h (pstate_prefix @ keyMin) (pstate_prefix @ keyMax) (pkey x)"
    unfolding pkey_def by (rule in_range_page)
  show ?thesis unfolding power_range_def
    by (induction m) (use r in \<open>auto split: prod.splits\<close>)
qed

lemma records_view:
  assumes "distinct (keys rs)" "rs = map (\<lambda>p. (pkey (ps_XName p), enc_PowerStatus p)) ps" "mset qs = mset ps"
  shows "map_of (foldl (\<lambda>m p. AList.update (ps_XName p) p m) [] qs) x = (case map_of rs (pkey x) of None \<Rightarrow> None | Some j \<Rightarrow> dec_PowerStatus j)"
proof -
  have d: "distinct (map ps_XName ps)" using assms(1,2) by (simp add: keys_def comp_def distinct_map inj_on_def)
  then have d': "distinct (map ps_XName qs)" using assms(3) by (metis mset_eq_imp_distinct_iff mset_map)
  have "map_of (foldl (\<lambda>m p. AList.update (ps_XName p) p m) m0 qs) x =
      (case find (\<lambda>p. ps_XName p = x) qs of None \<Rightarrow> map_of m0 x | Some p \<Rightarrow> Some p)" for m0
    using d'
  proof (induction qs arbitrary: m0)
    case (Cons q qs)
    from Cons.prems have "x = ps_XName q \<Longrightarrow> find (\<lambda>p. ps_XName p = x) qs = None"
      by (simp add: find_None_iff) (metis imageI)
    with Cons show ?case by (auto split: option.splits)
  qed simp
  moreover have "map_of rs (pkey x) = map_option enc_PowerStatus (find (\<lambda>p. ps_XName p = x) ps)"
    unfolding assms(2) by (induction ps) auto
  moreover have "find (\<lambda>p. ps_XName p = x) qs = find (\<lambda>p. ps_XName p = x) ps"
  proof (cases "find (\<lambda>p. ps_XName p = x) ps")
    case None
    moreover have "find (\<lambda>p. ps_XName p = x) qs = None"
      using None mset_eq_setD [OF assms(3)] by (simp add: find_None_iff)
    ultimately show ?thesis by simp
  next
    case (Some p)
    then have "p \<in> set qs" "ps_XName p = x" using assms(3) by (auto simp: find_Some_iff dest: mset_eq_setD)
    with d' show ?thesis unfolding Some
      by (induction qs) (auto simp: rev_image_eqI)
  qed
  ultimately show ?thesis by (auto split: option.splits)
qed

lemma run_GetAllPowerStatus:
  assumes "quiet w" "power_clean (kvs w)"
  obtains qs where "run_state (GetAllPowerStatus e) w = ((qs, None), tick (tick w))"
    "\<And>x. map_of (foldl (\<lambda>m p. AList.update (ps_XName p) p m) [] qs) x = power_view (kvs w) x"
proof -
  let ?h = "es_kvHandle e"
  obtain ps where ps: "power_range ?h (kvs w) = map (\<lambda>p. (pkey (ps_XName p), enc_PowerStatus p)) ps"
    using power_range_entries [OF assms(2)] by blast
  obtain qs where qs: "mset qs = mset ps"
    "shuffle (w_order w (Suc (ticks w))) (power_range ?h (kvs w)) = map (\<lambda>p. (pkey (ps_XName p), enc_PowerStatus p)) qs"
    using that [of "shuffle (w_order w (Suc (ticks w))) ps"] by (simp add: ps shuffle_map)
  have "run_state (GetAllPowerStatus e) w = ((qs, None), tick (tick w))"
    using assms(1) qs(2)
    by (simp add: GetAllPowerStatus_def fixUpKey_power_seg kvRange_def run_Kvi_GetRange_quiet power_range_def decode_records)
  moreover have "distinct (keys (power_range ?h (kvs w)))"
    using assms(2) by (simp add: power_clean_def power_range_def keys_def distinct_map_filter)
  ultimately show thesis
    using that records_view [OF _ ps qs(1)] by (simp add: view_in_range power_view_def)
qed

section \<open>The query\<close>

definition view_entry :: "kvstore \<Rightarrow> PowerStateFilter \<Rightarrow> ManagementStateFilter \<Rightarrow> xname \<Rightarrow> PowerStatusComponent option" where
  "view_entry m psf msf x = (case power_view m x of
       None \<Rightarrow> Some (missing_component x)
     | Some p \<Rightarrow> if state_matches psf msf p then Some (p\<lparr>ps_XName := x, ps_Error := []\<rparr>) else None)"

text \<open>
  C34: the query answers from the stored records, each name for itself and in the order of the
  request: the record without its error text if it passes the filters, nothing if it does not,
  and an entry with an error for a name that has no record.
\<close>

theorem query_reports_store:
  assumes "quiet w" "power_clean (kvs w)" "xs \<noteq> []"
  shows "fst (run_state (GetPowerStatus_query e xs psf msf) w) =
    BuildSuccessPassback 200 \<lparr>pst_Status = List.map_filter (view_entry (kvs w) psf msf) xs\<rparr>"
proof -
  obtain qs where qs: "run_state (GetAllPowerStatus e) w = ((qs, None), tick (tick w))"
    "\<And>x. map_of (foldl (\<lambda>m p. AList.update (ps_XName p) p m) [] qs) x = power_view (kvs w) x"
    using run_GetAllPowerStatus [OF assms(1,2)] by blast
  have "status_entry (foldl (\<lambda>m p. AList.update (ps_XName p) p m) [] qs) psf msf = view_entry (kvs w) psf msf"
    by (rule ext) (simp add: status_entry_def view_entry_def qs(2))
  then show ?thesis using assms(3) by (simp add: GetPowerStatus_query_def qs(1))
qed

section \<open>Map and store\<close>

text \<open>
  A component is unreported while the map still has the state of a new entry. The map and
  the store are synchronised when every entry of the map is stored as it is or unreported
  and not stored, and nothing else is stored.
\<close>

definition unreported :: "componentPowerInfo \<Rightarrow> bool" where
  "unreported ci \<longleftrightarrow> to_lower (ps_PowerState (ci_PSComp ci)) = ''undefined'' \<and>
     to_lower (ps_ManagementState (ci_PSComp ci)) = ''unavailable''"

definition synced :: "hw_map \<Rightarrow> kvstore \<Rightarrow> bool" where
  "synced m s \<longleftrightarrow> power_clean s \<and>
     (\<forall>x ci. map_of m x = Some ci \<longrightarrow> IsHMSCompIDValid x \<and> ps_XName (ci_PSComp ci) = x \<and>
        (power_view s x = Some (ci_PSComp ci) \<or> power_view s x = None \<and> unreported ci)) \<and>
     (\<forall>x. power_view s x \<noteq> None \<longrightarrow> map_of m x \<noteq> None)"

definition in_sync :: "hw_map \<Rightarrow> 'z world_scheme \<Rightarrow> bool" where
  "in_sync m w \<longleftrightarrow> quiet w \<and> synced m (kvs w)"

lemma power_clean_update: "power_clean m \<Longrightarrow> power_clean (AList.update (pkey (ps_XName p)) (enc_PowerStatus p) m)"
  unfolding power_clean_def using set_update_subset [of "pkey (ps_XName p)" "enc_PowerStatus p" m] by fastforce

lemma power_view_update: "power_view (AList.update (pkey (ps_XName p)) (enc_PowerStatus p) m) = (power_view m)(ps_XName p \<mapsto> p)"
  by (rule ext) (simp add: power_view_def)

lemma power_clean_delete: "power_clean m \<Longrightarrow> power_clean (AList.delete k m)"
  unfolding power_clean_def using set_delete_subset [of k m] by auto

lemma power_view_delete: "power_view (AList.delete (pkey x) m) = (power_view m)(x := None)"
  by (rule ext) (simp add: power_view_def)

section \<open>One component\<close>

definition shows_state :: "PowerStateFilter \<Rightarrow> ManagementStateFilter \<Rightarrow> PowerStatusComponent \<Rightarrow> bool" where
  "shows_state ps ms p \<longleftrightarrow> to_lower (ps_PowerState p) = PowerStateFilter_String ps \<and>
     to_lower (ps_ManagementState p) = ManagementStateFilter_String ms"

lemma lower_states [simp]: "to_lower (PowerStateFilter_String ps) = PowerStateFilter_String ps"
  "to_lower (ManagementStateFilter_String ms) = ManagementStateFilter_String ms"
  by (cases ps; simp add: to_lower_def lower_char_def less_eq_char_def)
    (cases ms; simp add: to_lower_def lower_char_def less_eq_char_def)

lemma same_comp: "ci\<lparr>ci_PSComp := ci_PSComp ci\<rparr> = ci"
  by (cases ci) simp

lemma syncedD:
  assumes "synced m s" "map_of m x = Some ci"
  shows "IsHMSCompIDValid x" "ps_XName (ci_PSComp ci) = x"
  using assms by (auto simp: synced_def)

lemma synced_store:
  assumes "synced m s" "map_of m x = Some ci" "ps_XName p = x"
  shows "synced (AList.update x (ci\<lparr>ci_PSComp := p\<rparr>) m) (AList.update (pkey x) (enc_PowerStatus p) s)"
  using assms power_clean_update [of s p] power_view_update [of p s] by (auto simp: synced_def)

lemma run_StorePowerStatus:
  "quiet w \<Longrightarrow> IsHMSCompIDValid (ps_XName p) \<Longrightarrow> run_state (StorePowerStatus e p) w =
     (None, (tick w)\<lparr>kvs := AList.update (pkey (ps_XName p)) (enc_PowerStatus p) (kvs w)\<rparr>)"
  by (simp add: StorePowerStatus_def run_kvStore_quiet power_key_pkey)

definition new_record :: "PowerStateFilter \<Rightarrow> ManagementStateFilter \<Rightarrow> string \<Rightarrow> time \<Rightarrow> PowerStatusComponent \<Rightarrow> PowerStatusComponent" where
  "new_record ps ms msg t p = p\<lparr>ps_PowerState := PowerStateFilter_String ps,
     ps_ManagementState := ManagementStateFilter_String ms, ps_LastUpdated := rfc3339nano t, ps_Error := msg\<rparr>"

lemma new_record_simps [simp]: "ps_XName (new_record ps ms msg t p) = ps_XName p"
  "ps_SupportedPowerTransitions (new_record ps ms msg t p) = ps_SupportedPowerTransitions p"
  "shows_state ps ms (new_record ps ms msg t p)"
  by (simp_all add: new_record_def shows_state_def)

lemma run_updateHWState:
  assumes "quiet w" "map_of m x = Some ci" "\<not> shows_state ps ms (ci_PSComp ci)" "IsHMSCompIDValid x" "ps_XName (ci_PSComp ci) = x"
  shows "run_state (updateHWState e x ps ms msg m) w =
      (AList.update x (ci\<lparr>ci_PSComp := new_record ps ms msg (w_clock w (ticks w)) (ci_PSComp ci)\<rparr>) m,
       (tick (tick w))\<lparr>kvs := AList.update (pkey x)
          (enc_PowerStatus (new_record ps ms msg (w_clock w (ticks w)) (ci_PSComp ci))) (kvs w)\<rparr>)"
  using assms
  by (auto simp: updateHWState_def shows_state_def new_record_def run_now_quiet run_StorePowerStatus Let_def)

lemma updateHWState_spec:
  "triple (in_sync m) (updateHWState e x ps ms msg m) (\<lambda>m' w'. in_sync m' w' \<and>
     (\<forall>y. y \<noteq> x \<longrightarrow> map_of m' y = map_of m y) \<and> (map_of m x = None \<longrightarrow> m' = m) \<and>
     (\<forall>ci. map_of m x = Some ci \<longrightarrow> (\<exists>p. map_of m' x = Some (ci\<lparr>ci_PSComp := p\<rparr>) \<and> shows_state ps ms p \<and>
        ps_SupportedPowerTransitions p = ps_SupportedPowerTransitions (ci_PSComp ci))))"
proof (cases "\<exists>ci. map_of m x = Some ci \<and> \<not> shows_state ps ms (ci_PSComp ci)")
  case False
  then have "updateHWState e x ps ms msg m = (State_Monad.return m :: ('a, hw_map) io)"
    by (auto simp: updateHWState_def shows_state_def split: option.splits)
  moreover have "shows_state ps ms (ci_PSComp ci)" if "map_of m x = Some ci" for ci using False that by blast
  ultimately show ?thesis by (simp add: triple_def) (metis same_comp)
next
  case True
  then obtain ci where ci: "map_of m x = Some ci" "\<not> shows_state ps ms (ci_PSComp ci)" by blast
  have "in_sync (AList.update x (ci\<lparr>ci_PSComp := new_record ps ms msg t (ci_PSComp ci)\<rparr>) m)
      ((tick (tick w))\<lparr>kvs := AList.update (pkey x) (enc_PowerStatus (new_record ps ms msg t (ci_PSComp ci))) (kvs w)\<rparr>)"
    if "in_sync m w" for w :: "'a world_scheme" and t
    using that synced_store [of m "kvs w" x ci "new_record ps ms msg t (ci_PSComp ci)"] syncedD [of m "kvs w" x ci] ci(1)
    by (simp add: in_sync_def)
  moreover have "IsHMSCompIDValid x" "ps_XName (ci_PSComp ci) = x" "quiet w" if "in_sync m w" for w :: "'a world_scheme"
    using that syncedD [of m "kvs w" x ci] ci(1) by (auto simp: in_sync_def)
  ultimately show ?thesis using ci by (auto simp: triple_def run_updateHWState shows_state_def new_record_def)
qed

section \<open>Synchronisation with HSM\<close>

text \<open>
  A controller whose transitions were filled in later keeps being polled under a state that
  no poll gives, so that the change is written.
\<close>

definition settled :: "hw_map \<Rightarrow> bool" where
  "settled m \<longleftrightarrow> (\<forall>x ci. map_of m x = Some ci \<longrightarrow> ps_SupportedPowerTransitions (ci_PSComp ci) \<noteq> [] \<or>
     to_lower (ps_ManagementState (ci_PSComp ci)) \<noteq> ''undefined'')"

definition monitor_inv :: "hw_map \<Rightarrow> 'z world_scheme \<Rightarrow> bool" where
  "monitor_inv m w \<longleftrightarrow> in_sync m w \<and> settled m"

lemma monitor_inv_tick [simp]: "monitor_inv m (tick w) = monitor_inv m w"
  "monitor_inv m ((tick w)\<lparr>kvs := kvs w\<rparr>) = monitor_inv m w"
  by (simp_all add: monitor_inv_def in_sync_def)

lemma monitor_update:
  assumes "ms \<noteq> ManagementStateFilter_undefined"
  shows "triple (monitor_inv m) (updateHWState e x ps ms msg m) (\<lambda>m' w'. monitor_inv m' w' \<and>
     (\<forall>y. y \<noteq> x \<longrightarrow> map_of m' y = map_of m y) \<and> (map_of m x = None \<longrightarrow> m' = m) \<and>
     (\<forall>ci. map_of m x = Some ci \<longrightarrow> (\<exists>p. map_of m' x = Some (ci\<lparr>ci_PSComp := p\<rparr>) \<and> shows_state ps ms p)))"
proof (rule triple_weaken [OF triple_conj_const [OF updateHWState_spec, where A = "settled m"]], goal_cases)
  case (2 m' w')
  have "settled m'" unfolding settled_def
  proof (intro allI impI)
    fix y ci assume y: "map_of m' y = Some ci"
    show "ps_SupportedPowerTransitions (ci_PSComp ci) \<noteq> [] \<or> to_lower (ps_ManagementState (ci_PSComp ci)) \<noteq> ''undefined''"
      using 2 y assms by (cases "y = x"; cases "map_of m x"; cases ms) (auto simp: settled_def shows_state_def)
  qed
  with 2 show ?case by (force simp: monitor_inv_def)
qed (auto simp: monitor_inv_def)

lemma drop_component_spec:
  "IsHMSCompIDValid k \<Longrightarrow> triple (monitor_inv m) (drop_component e cm k m) monitor_inv"
  by (auto simp: triple_def drop_component_def DeletePowerStatus_def run_kvDelete_quiet monitor_inv_def in_sync_def synced_def
      settled_def power_key_pkey power_clean_delete power_view_delete)

lemma monitor_inv_cong: "map_of m = map_of m' \<Longrightarrow> monitor_inv m w = monitor_inv m' w"
  by (simp add: monitor_inv_def in_sync_def synced_def settled_def)

text \<open>What is required of the inventory: names are valid, actions of controllers are known ones.\<close>

definition inventory_ok :: "HsmData \<Rightarrow> bool" where
  "inventory_ok v \<longleftrightarrow> IsHMSCompIDValid (bd_ID (hd_BaseData v)) \<and>
     (hd_AllowableActions v \<noteq> [] \<longrightarrow> toPCSPowerActions (hd_AllowableActions v) \<noteq> [])"

lemma add_new_component:
  assumes "monitor_inv m w" "map_of m (bd_ID (hd_BaseData v)) = None" "inventory_ok v"
  shows "monitor_inv (AList.update (bd_ID (hd_BaseData v)) (new_component v t) m) w"
proof -
  have "unreported (new_component v t)" "to_lower (ps_ManagementState (ci_PSComp (new_component v t))) = ''unavailable''"
    using lower_states(1) [of PowerStateFilter_Undefined] lower_states(2) [of ManagementStateFilter_unavailable]
    by (simp_all add: unreported_def new_component_def)
  moreover have "power_view (kvs w) (bd_ID (hd_BaseData v)) = None"
    using assms by (auto simp: monitor_inv_def in_sync_def synced_def)
  moreover have "ps_XName (ci_PSComp (new_component v t)) = bd_ID (hd_BaseData v)" by (simp add: new_component_def)
  ultimately show ?thesis using assms
    by (auto simp: monitor_inv_def in_sync_def synced_def settled_def inventory_ok_def)
qed

lemma refresh_component:
  assumes w: "monitor_inv m w" and ci: "map_of m x = Some ci" "ps_SupportedPowerTransitions (ci_PSComp ci) = []" and ne: "acts \<noteq> []"
    and run: "run_state (updateHWState e x PowerStateFilter_Undefined ManagementStateFilter_undefined []
      (AList.update x (ci\<lparr>ci_PSComp := (ci_PSComp ci)\<lparr>ps_SupportedPowerTransitions := acts\<rparr>\<rparr>) m)) w = (m', w')"
  shows "monitor_inv m' w'"
proof -
  let ?p = "(ci_PSComp ci)\<lparr>ps_SupportedPowerTransitions := acts\<rparr>"
  let ?q = "new_record PowerStateFilter_Undefined ManagementStateFilter_undefined [] (w_clock w (ticks w)) ?p"
  have x: "quiet w" "synced m (kvs w)" "IsHMSCompIDValid x" "ps_XName (ci_PSComp ci) = x" "settled m"
    "\<not> shows_state PowerStateFilter_Undefined ManagementStateFilter_undefined ?p"
    using w ci syncedD [of m "kvs w" x ci] by (auto simp: monitor_inv_def in_sync_def settled_def shows_state_def)
  have m': "map_of m' = map_of (AList.update x (ci\<lparr>ci_PSComp := ?q\<rparr>) m)"
    and w': "w' = (tick (tick w))\<lparr>kvs := AList.update (pkey x) (enc_PowerStatus ?q) (kvs w)\<rparr>"
    using run x run_updateHWState [of w "AList.update x (ci\<lparr>ci_PSComp := ?p\<rparr>) m" x "ci\<lparr>ci_PSComp := ?p\<rparr>"
      PowerStateFilter_Undefined ManagementStateFilter_undefined e "[]"]
    by auto
  have "settled (AList.update x (ci\<lparr>ci_PSComp := ?q\<rparr>) m)" using x(5) ne by (auto simp: settled_def)
  moreover have "synced (AList.update x (ci\<lparr>ci_PSComp := ?q\<rparr>) m) (kvs w')"
    unfolding w' using synced_store [OF x(2) ci(1), of ?q] x(4) by simp
  ultimately show ?thesis unfolding monitor_inv_cong [OF m'] using x(1) by (simp add: monitor_inv_def in_sync_def w')
qed

lemma sync_component_spec:
  assumes "inventory_ok v"
  shows "triple (monitor_inv m) (sync_component e v m) monitor_inv"
  unfolding triple_def
proof (intro allI impI)
  fix w :: "'a world_scheme" assume w: "monitor_inv m w"
  then have q: "quiet w" by (simp add: monitor_inv_def in_sync_def)
  obtain m' w' where run: "run_state (sync_component e v m) w = (m', w')" by fastforce
  have "monitor_inv m' w'"
    using run w q assms refresh_component [OF w, of "bd_ID (hd_BaseData v)"] add_new_component [OF w]
    by (auto simp: sync_component_def Let_def run_now_quiet inventory_ok_def split: if_splits option.splits)
  then show "monitor_inv (fst (run_state (sync_component e v m) w)) (snd (run_state (sync_component e v m) w))"
    by (simp add: run)
qed

text \<open>An action that neither writes to the store nor ends the quiet, as the calls of other services.\<close>

definition calm :: "('z, 'a) io \<Rightarrow> bool" where
  "calm a \<longleftrightarrow> (\<forall>w. quiet w \<longrightarrow> quiet (snd (run_state a w)) \<and> kvs (snd (run_state a w)) = kvs w)"

lemma calm_inv: "calm a \<Longrightarrow> triple (monitor_inv m) a (\<lambda>_. monitor_inv m)"
  by (simp add: triple_def calm_def monitor_inv_def in_sync_def)

lemma range_inv: "triple (monitor_inv m) (range_over xs) (\<lambda>ys w. monitor_inv m w \<and> set ys = set xs)"
  by (simp add: triple_def monitor_inv_def in_sync_def run_range_over_quiet)

definition hsm_ok :: "'z HSMProvider \<Rightarrow> bool" where
  "hsm_ok hp \<longleftrightarrow> calm (hp_FillHSMData hp [''all'']) \<and>
     (\<forall>w. \<forall>v \<in> snd ` set (fst (fst (run_state (hp_FillHSMData hp [''all'']) w))). inventory_ok v)"

lemma monitor_inv_valid: "monitor_inv m w \<Longrightarrow> k \<in> set (keys m) \<Longrightarrow> IsHMSCompIDValid k"
  by (auto simp: monitor_inv_def in_sync_def synced_def in_keys_iff)

lemma updateComponentMap_spec:
  assumes "hsm_ok hp"
  shows "triple (monitor_inv m) (updateComponentMap e hp m) (\<lambda>r. monitor_inv (fst r))"
proof -
  have fill: "triple (monitor_inv m) (hp_FillHSMData hp [''all''])
      (\<lambda>r w. monitor_inv m w \<and> (\<forall>v \<in> snd ` set (fst r). inventory_ok v))"
    using calm_inv [of "hp_FillHSMData hp [''all'']" m] assms by (auto simp: triple_def hsm_ok_def)
  have drops: "triple (\<lambda>w. monitor_inv m w \<and> set ks = set (keys m)) (fold_io (drop_component e cm) ks m) monitor_inv" for ks cm
    by (rule triple_pure [where A = "\<forall>k \<in> set ks. IsHMSCompIDValid k"])
      (auto simp: monitor_inv_valid intro!: triple_weaken [OF triple_fold [where I = monitor_inv]] drop_component_spec)
  have syncs: "triple (\<lambda>w. monitor_inv m' w \<and> set vs = set (map snd cm)) (fold_io (sync_component e) vs m') monitor_inv"
    if "\<forall>v \<in> snd ` set cm. inventory_ok v" for m' vs and cm :: hsm_map
    by (rule triple_pure [where A = "set vs = set (map snd cm)"])
      (use that in \<open>auto intro!: triple_weaken [OF triple_fold [where I = monitor_inv]] sync_component_spec\<close>)
  have work: "triple (\<lambda>w. monitor_inv m w \<and> (\<forall>x \<in> set cm. inventory_ok (snd x)))
      (do { ks \<leftarrow> range_over (keys m); m1 \<leftarrow> fold_io (drop_component e cm) ks m;
         vs \<leftarrow> range_over (map snd cm); m2 \<leftarrow> fold_io (sync_component e) vs m1; State_Monad.return (m2, None :: err option) })
      (\<lambda>r. monitor_inv (fst r))" for cm :: hsm_map
  proof (rule triple_pure [where A = "\<forall>v \<in> snd ` set cm. inventory_ok v"])
    assume ok: "\<forall>v \<in> snd ` set cm. inventory_ok v"
    show ?thesis
      by (rule triple_weaken [where P = "monitor_inv m"], rule triple_bind [OF range_inv], rule triple_bind [OF drops],
          rule triple_bind [OF range_inv], rule triple_bind [OF syncs [OF ok]], rule triple_return) auto
  qed auto
  show ?thesis
    unfolding updateComponentMap_def
    by (rule triple_bind [OF fill]) (auto simp del: bind_assoc split: option.split intro!: triple_return work)
qed

section \<open>Polling\<close>

definition record_of :: "hw_map \<Rightarrow> xname \<Rightarrow> PowerStatusComponent option" where
  "record_of m x = map_option ci_PSComp (map_of m x)"

lemma record_of_creds [simp]: "record_of (set_creds x un pw m) = record_of m"
  by (rule ext) (simp add: record_of_def set_creds_def split: option.split)

lemma monitor_inv_records: "monitor_inv m w \<longleftrightarrow> quiet w \<and> power_clean (kvs w) \<and>
    (\<forall>x p. record_of m x = Some p \<longrightarrow> IsHMSCompIDValid x \<and> ps_XName p = x \<and>
       (power_view (kvs w) x = Some p \<or> power_view (kvs w) x = None \<and> shows_state PowerStateFilter_Undefined ManagementStateFilter_unavailable p) \<and>
       (ps_SupportedPowerTransitions p \<noteq> [] \<or> to_lower (ps_ManagementState p) \<noteq> ''undefined'')) \<and>
    (\<forall>x. power_view (kvs w) x \<noteq> None \<longrightarrow> record_of m x \<noteq> None)"
  unfolding monitor_inv_def in_sync_def synced_def settled_def unreported_def record_of_def shows_state_def by auto

lemma monitor_inv_creds: "monitor_inv m w \<Longrightarrow> monitor_inv (set_creds x un pw m) w"
  by (simp add: monitor_inv_records)

lemma fetch_creds_spec:
  assumes "\<And>k. calm (me_Creds me k)"
  shows "triple (monitor_inv m) (fetch_creds me ks m) (\<lambda>r w. monitor_inv (fst r) w \<and> record_of (fst r) = record_of m)"
proof (induction ks arbitrary: m)
  case Nil
  show ?case by (auto intro!: triple_return)
next
  case (Cons k ks)
  have "triple (monitor_inv m) (case r of Inl err \<Rightarrow> State_Monad.return (m, Some (f err)) | Inr (un, pw) \<Rightarrow> fetch_creds me ks (set_creds k un pw m))
      (\<lambda>r w. monitor_inv (fst r) w \<and> record_of (fst r) = record_of m)" for r :: "err + string \<times> string" and f :: "err \<Rightarrow> err"
    using Cons.IH monitor_inv_creds [of m]
    by (auto intro!: triple_return triple_weaken [OF Cons.IH] split: sum.split prod.split)
  then show ?case unfolding fetch_creds.simps by (intro triple_bind [OF calm_inv [OF assms]])
qed

lemma status_of_managed: "fst (snd (status_of ctype d)) \<noteq> ManagementStateFilter_undefined"
  by (auto simp: status_of_def decode_state_def Let_def split: option.split StatusBody.split)

definition answered :: "HMSType \<Rightarrow> StatusDone \<Rightarrow> PowerStatusComponent \<Rightarrow> bool" where
  "answered ctype d p = shows_state (fst (status_of ctype d)) (fst (snd (status_of ctype d))) p"

lemma record_upd_known:
  assumes "record_of r = f(x \<mapsto> p)"
  shows "map_of r x \<noteq> None"
proof -
  have "record_of r x = Some p" unfolding assms by simp
  then show ?thesis by (auto simp: record_of_def)
qed

lemma process_done_spec:
  assumes d: "sd_CType d = Some ctype" "sd_FQDN d = Some fqdn" and x: "record_of m x \<noteq> None"
  shows "triple (monitor_inv m) (process_done e (x, d) m) (\<lambda>r w. \<exists>m' p. r = Some (m', None) \<and> monitor_inv m' w \<and>
     record_of m' = (record_of m)(x \<mapsto> p) \<and> answered ctype d p)"
proof -
  obtain ps ms msg where st: "status_of ctype d = (ps, ms, msg)" by (metis prod.exhaust)
  have ms: "ms \<noteq> ManagementStateFilter_undefined" using status_of_managed [of ctype d] st by simp
  obtain ci where ci: "map_of m x = Some ci" using x by (auto simp: record_of_def)
  have upd: "triple (monitor_inv m) (updateHWState e x ps ms msg m) (\<lambda>m' w. monitor_inv m' w \<and>
      (\<exists>p. record_of m' = (record_of m)(x \<mapsto> p) \<and> answered ctype d p))"
    by (rule triple_weaken [OF monitor_update [OF ms]])
      (use ci in \<open>auto simp: answered_def st record_of_def fun_eq_iff\<close>)
  show ?thesis
    unfolding process_done_def
    by (simp add: d st Let_def, rule triple_bind [OF upd], rule triple_return)
      (auto intro: monitor_inv_creds dest: record_upd_known)
qed

text \<open>An answer that carries the headers of its request, for a component of the map.\<close>

definition proper :: "hw_map \<Rightarrow> xname \<times> StatusDone \<Rightarrow> bool" where
  "proper m xd \<longleftrightarrow> record_of m (fst xd) \<noteq> None \<and> sd_CType (snd xd) \<noteq> None \<and> sd_FQDN (snd xd) \<noteq> None"

definition all_answered :: "(xname \<times> StatusDone) list \<Rightarrow> hw_map \<Rightarrow> hw_map \<Rightarrow> bool" where
  "all_answered xds m m' \<longleftrightarrow>
     (\<forall>x. map_of xds x = None \<longrightarrow> record_of m' x = record_of m x) \<and>
     (\<forall>x d. map_of xds x = Some d \<longrightarrow> (\<exists>p. record_of m' x = Some p \<and> answered (the (sd_CType d)) d p))"

lemma process_all_spec:
  assumes "distinct (keys xds)" "\<forall>xd \<in> set xds. proper m xd"
  shows "triple (monitor_inv m) (process_all e xds m) (\<lambda>r w. \<exists>m'. r = Some (m', None) \<and> monitor_inv m' w \<and> all_answered xds m m')"
  using assms
proof (induction xds arbitrary: m)
  case Nil
  show ?case by (auto simp: all_answered_def intro!: triple_return)
next
  case (Cons xd xds)
  obtain x d where xd: "xd = (x, d)" by fastforce
  then obtain ctype fqdn where d: "sd_CType d = Some ctype" "sd_FQDN d = Some fqdn" "record_of m x \<noteq> None"
    using Cons.prems(2) by (auto simp: proper_def)
  have x: "map_of xds x = None" using Cons.prems(1) xd by (simp add: keys_def map_of_eq_None_iff)
  have rest: "triple (monitor_inv m1) (process_all e xds m1 :: ('a, (hw_map \<times> err option) option) io)
      (\<lambda>r w. \<exists>m'. r = Some (m', None) \<and> monitor_inv m' w \<and> all_answered ((x, d) # xds) m m')"
    if "record_of m1 = (record_of m)(x \<mapsto> p)" "answered ctype d p" for m1 p
  proof (rule triple_weaken [OF Cons.IH])
    show "distinct (keys xds)" using Cons.prems(1) by (simp add: keys_def)
    show "\<forall>xd \<in> set xds. proper m1 xd" using Cons.prems(2) that by (auto simp: proper_def)
    show "\<exists>m'. r = Some (m', None) \<and> monitor_inv m' w \<and> all_answered ((x, d) # xds) m m'"
      if "\<exists>m'. r = Some (m', None) \<and> monitor_inv m' w \<and> all_answered xds m1 m'" for r w
      using that \<open>record_of m1 = _\<close> \<open>answered ctype d p\<close> x d(1) by (fastforce simp: all_answered_def)
  qed
  show ?case unfolding xd process_all.simps
    by (rule triple_bind [OF process_done_spec [OF d]]) (auto simp: triple_def dest!: rest [unfolded triple_def, rule_format])
qed

section \<open>What is reported\<close>


text \<open>
  C35: the map of a new master starts with the state of an unreachable component. If a component
  does not answer, nothing is written: a record that an earlier master left in the store stays
  as it is and the query goes on to report its old state.
\<close>

theorem takeover_keeps_stale_state:
  assumes "quiet w" "power_clean (kvs w)" "map_of m x = Some (new_component v t)" "bd_ID (hd_BaseData v) = x"
    and "power_view (kvs w) x = Some p" "sd_Response d = None" "sd_CType d = Some ctype" "sd_FQDN d = Some fqdn"
  shows "run_state (process_done e (x, d) m) w = (Some (m, None), w) \<and>
    fst (run_state (GetPowerStatus_query e' [x] PowerStateFilter_Nil ManagementStateFilter_Nil) w) =
      BuildSuccessPassback 200 \<lparr>pst_Status = [p\<lparr>ps_XName := x, ps_Error := []\<rparr>]\<rparr>"
proof -
  have "shows_state PowerStateFilter_Undefined ManagementStateFilter_unavailable (ci_PSComp (new_component v t))"
    using lower_states(1) [of PowerStateFilter_Undefined] lower_states(2) [of ManagementStateFilter_unavailable]
    by (simp add: new_component_def shows_state_def)
  then have "run_state (process_done e (x, d) m) w = (Some (m, None), w)"
    using assms(3,6-8) by (simp add: process_done_def status_of_def updateHWState_def refused_creds_def shows_state_def Let_def)
  moreover have "view_entry (kvs w) PowerStateFilter_Nil ManagementStateFilter_Nil x = Some (p\<lparr>ps_XName := x, ps_Error := []\<rparr>)"
    using assms(5) by (simp add: view_entry_def state_matches_def)
  ultimately show ?thesis
    using query_reports_store [OF assms(1,2), of "[x]" e' PowerStateFilter_Nil ManagementStateFilter_Nil]
    by (simp add: List.map_filter_simps)
qed

section \<open>A round of the monitor\<close>

text \<open>
  What the task launcher is documented to do: each response is that of a request and carries its
  headers. The calls of other services leave the store alone.
\<close>

definition answers_requests :: "'z MonitorEnv \<Rightarrow> bool" where
  "answers_requests me \<longleftrightarrow> (\<forall>rs w ds. fst (run_state (me_Launch me rs) w) = Inr ds \<longrightarrow>
     (\<forall>d \<in> set ds. \<exists>r \<in> set rs. sd_XName d = Some (sq_XName r) \<and> sd_CType d = Some (sq_CType r) \<and> sd_FQDN d = Some (sq_FQDN r)))"

definition env_ok :: "'z MonitorEnv \<Rightarrow> bool" where
  "env_ok me \<longleftrightarrow> hsm_ok (me_HSM me) \<and> (\<forall>k. calm (me_Creds me k)) \<and> (\<forall>rs. calm (me_Launch me rs)) \<and> answers_requests me"

definition known_dones :: "hw_map \<Rightarrow> StatusDone list \<Rightarrow> bool" where
  "known_dones m ds \<longleftrightarrow>
     (\<forall>d \<in> set ds. \<exists>x. sd_XName d = Some x \<and> record_of m x \<noteq> None \<and> sd_CType d \<noteq> None \<and> sd_FQDN d \<noteq> None)"

lemma collected_proper:
  assumes "known_dones m ds"
    and "distinct (keys xds)" "\<forall>xd \<in> set xds. proper m xd"
  shows "distinct (keys (fold collect_done ds xds)) \<and> (\<forall>xd \<in> set (fold collect_done ds xds). proper m xd)"
  using assms
proof (induction ds arbitrary: xds)
  case (Cons d ds)
  have r: "sd_CType (read_done d) = sd_CType d" "sd_FQDN (read_done d) = sd_FQDN d"
    by (simp_all add: read_done_def split: option.splits)
  obtain x f where x: "sd_XName d = Some x" "sd_FQDN d = Some f" "proper m (x, read_done d)"
    using Cons.prems(1) by (auto simp: proper_def known_dones_def r)
  then have c: "collect_done d xds = xds \<or> collect_done d xds = AList.update x (read_done d) xds"
    by (simp add: collect_done_def)
  have "distinct (keys (collect_done d xds)) \<and> (\<forall>xd \<in> set (collect_done d xds). proper m xd)"
    using c
  proof
    assume "collect_done d xds = AList.update x (read_done d) xds"
    moreover have "\<forall>xd \<in> set (AList.update x (read_done d) xds). proper m xd"
      using set_update_subset [of x "read_done d" xds] x(3) Cons.prems(3) by blast
    ultimately show ?thesis using Cons.prems(2) by simp
  qed (use Cons.prems in simp)
  with Cons.IH [of "collect_done d xds"] Cons.prems(1) show ?case by (simp add: known_dones_def)
qed simp

lemma shuffled_proper: "distinct (keys xds) \<Longrightarrow> distinct (keys (shuffle c xds))"
  by (simp add: keys_def shuffle_map [symmetric])

lemma range_dones:
  "triple (monitor_inv m) (range_over xds) (\<lambda>ys w. monitor_inv m w \<and> (distinct (keys xds) \<longrightarrow> distinct (keys ys)) \<and> set ys = set xds)"
  by (simp add: triple_def monitor_inv_def in_sync_def run_range_over_quiet shuffled_proper)

lemma requested_known: "r \<in> set (List.map_filter status_request es) \<Longrightarrow> set es = set m \<Longrightarrow> record_of m (sq_XName r) \<noteq> None"
  by (auto simp: List.map_filter_def status_request_def record_of_def Let_def weak_map_of_SomeI map_of_eq_None_iff rev_image_eqI
      split: if_splits)

definition survived :: "(hw_map \<times> err option) option \<Rightarrow> 'z world_scheme \<Rightarrow> bool" where
  "survived r w \<longleftrightarrow> (\<exists>m er. r = Some (m, er) \<and> monitor_inv m w)"

lemma survived_Some [simp]: "survived (Some (m, er)) w = monitor_inv m w"
  by (simp add: survived_def)

lemma process_dones:
  "triple (\<lambda>w. monitor_inv m w \<and> known_dones m ds) (do { xds \<leftarrow> range_over (fold collect_done ds []); process_all e xds m })
     survived"
proof (rule triple_pure [where A = "known_dones m ds"])
  assume "known_dones m ds"
  then have c: "distinct (keys (fold collect_done ds []))" "\<forall>xd \<in> set (fold collect_done ds []). proper m xd"
    using collected_proper [of m ds "[]"] by (simp_all add: keys_def)
  have "triple (\<lambda>w. monitor_inv m w \<and> (distinct (keys (fold collect_done ds [])) \<longrightarrow> distinct (keys ys)) \<and>
        set ys = set (fold collect_done ds [])) (process_all e ys m) survived" for ys
    by (rule triple_pure [where A = "distinct (keys ys) \<and> set ys = set (fold collect_done ds [])"])
      (use c in \<open>auto simp: survived_def intro!: triple_weaken [OF process_all_spec]\<close>)
  then show ?thesis by (rule triple_weaken [OF triple_bind [OF range_dones]]) auto
qed simp

lemma getHWStates_spec:
  assumes env: "env_ok me"
  shows "triple (monitor_inv m) (getHWStatesFromHW e me m) survived"
proof -
  have creds: "triple (monitor_inv m) (updateVaultCreds me m) (\<lambda>r. monitor_inv (fst r))"
    unfolding updateVaultCreds_def getVaultCredsAll_def using env
    by (auto simp: env_ok_def intro!: triple_return triple_bind [OF range_inv] triple_weaken [OF fetch_creds_spec])
  have launch: "triple (\<lambda>w. monitor_inv n w \<and> set es = set n)
      (do { r \<leftarrow> me_Launch me (List.map_filter status_request es);
         case r of Inl x \<Rightarrow> State_Monad.return (Some (n, Some (f x)))
         | Inr dones \<Rightarrow> do { xds \<leftarrow> range_over (fold collect_done dones []); process_all e xds n } }) survived" for n es and f :: "err \<Rightarrow> err"
  proof (rule triple_pure [where A = "set es = set n"])
    assume es: "set es = set n"
    let ?rs = "List.map_filter status_request es"
    have l: "triple (\<lambda>w. monitor_inv n w \<and> set es = set n) (me_Launch me ?rs) (\<lambda>r w. monitor_inv n w \<and>
        (\<forall>ds. r = Inr ds \<longrightarrow> known_dones n ds))"
      using env calm_inv [of "me_Launch me ?rs" n] requested_known [OF _ es]
      unfolding env_ok_def answers_requests_def triple_def known_dones_def by (metis option.distinct(1))
    show ?thesis
      by (rule triple_bind [OF l]) (auto simp del: bind_assoc split: sum.split intro!: triple_return process_dones)
  qed simp
  show ?thesis
    unfolding getHWStatesFromHW_def
    by (rule triple_bind [OF creds], clarsimp simp del: bind_assoc, intro conjI impI, rule triple_return, simp,
        rule triple_bind [OF range_inv]) (auto simp del: bind_assoc simp: Let_def intro!: triple_return launch)
qed

lemma monitor_inv_master_key: "monitor_inv m w \<Longrightarrow> monitor_inv m (w\<lparr>kvs := AList.update master_key v (kvs w)\<rparr>)"
proof -
  have k: "\<not> has_prefix master_key pstate_prefix"
    by (simp add: master_key_def fixUpKey_def key_defs has_prefix_def pstate_prefix_def)
  then have "master_key \<noteq> pkey x" for x by (metis has_prefix_append pkey_def)
  then have "power_view (AList.update master_key v s) = power_view s" for s
    by (intro ext) (metis (no_types) fun_upd_other map_of_update_eq power_view_def)
  moreover have "power_clean s \<Longrightarrow> power_clean (AList.update master_key v s)" for s
    unfolding power_clean_def using set_update_subset [of master_key v s] k by auto
  ultimately show "monitor_inv m w \<Longrightarrow> monitor_inv m (w\<lparr>kvs := AList.update master_key v (kvs w)\<rparr>)"
    by (simp add: monitor_inv_def in_sync_def synced_def)
qed

lemma monitor_inv_quiet: "monitor_inv m w \<Longrightarrow> quiet w"
  by (simp add: monitor_inv_def in_sync_def)

lemma check_master_spec:
  "triple (monitor_inv m) (check_master e) (\<lambda>p. monitor_inv m)"
  by (auto simp: triple_def check_master_def GetPowerStatusMaster_def run_now_quiet run_kvGet_quiet monitor_inv_quiet
      split: sum.split option.split)

lemma claim_master_spec: "triple (monitor_inv m) (claim_master e p) (\<lambda>_. monitor_inv m)"
  using monitor_inv_master_key [of m "tick _"]
  by (auto simp: triple_def claim_master_def StorePowerStatusMaster_def TASPowerStatusMaster_def run_kvStore_quiet run_kvTAS_quiet
      monitor_inv_quiet tas_def master_key_def split: phase.split option.split)

lemma getPowerStatusMaster_spec:
  assumes "\<And>n. calm (dl_Lock dl n)" "calm (dl_Unlock dl)"
  shows "triple (monitor_inv m) (getPowerStatusMaster e dl n) (\<lambda>_. monitor_inv m)"
  unfolding getPowerStatusMaster_def
  by (rule triple_bind [OF calm_inv [OF assms(1)]])
    (auto simp del: bind_assoc intro!: triple_return triple_bind [OF check_master_spec] triple_bind [OF claim_master_spec]
      triple_bind [OF calm_inv [OF assms(2)]])

definition lock_ok :: "'z MonitorEnv \<Rightarrow> bool" where
  "lock_ok me \<longleftrightarrow> (\<forall>n. calm (dl_Lock (me_Lock me) n)) \<and> calm (dl_Unlock (me_Lock me))"

text \<open>A round of the monitor, of a master or of an instance that tries to become one.\<close>

lemma monitor_round_spec:
  assumes env: "env_ok me" "lock_ok me"
  shows "triple (monitor_inv m) (monitorHW_round e me (ph, m)) (\<lambda>r w. \<exists>ph' m'. r = Some (ph', m') \<and> monitor_inv m' w)"
proof -
  let ?Q = "\<lambda>r w. \<exists>ph' m'. r = Some (ph', m') \<and> monitor_inv m' w"
  have elect: "triple (monitor_inv m) (case ph of Master _ \<Rightarrow> State_Monad.return ph
      | _ \<Rightarrow> getPowerStatusMaster e (me_Lock me) (me_LockTime me)) (\<lambda>_. monitor_inv m)"
    using env(2) by (auto simp: lock_ok_def intro!: triple_return getPowerStatusMaster_spec split: phase.split)
  have poll: "triple (monitor_inv m1) (do { r \<leftarrow> getHWStatesFromHW e me m1;
      State_Monad.return (map_option (\<lambda>(m, _). (q, m)) r) }) ?Q" for m1 and q :: phase
    by (rule triple_bind [OF getHWStates_spec [OF env(1)]], rule triple_return) (auto simp: survived_def)
  have hsm: "hsm_ok (me_HSM me)" using env(1) by (simp add: env_ok_def)
  have work: "triple (monitor_inv m) (do { (m, err) \<leftarrow> updateComponentMap e (me_HSM me) m;
      if err \<noteq> None then State_Monad.return (Some (q, m))
      else do { r \<leftarrow> getHWStatesFromHW e me m; State_Monad.return (map_option (\<lambda>(m, _). (q, m)) r) } }) ?Q" for q :: phase
    by (rule triple_bind [OF updateComponentMap_spec [OF hsm]])
      (auto simp del: bind_assoc split: prod.split intro: triple_return intro!: poll)
  show ?thesis
    unfolding monitorHW_round_def prod.case
    by (rule triple_bind [OF elect]) (auto simp del: bind_assoc not_None_eq split: phase.split intro!: triple_return work)
qed

lemma sleep_inv: "triple (monitor_inv m) sleep (\<lambda>_. monitor_inv m)"
  by (simp add: triple_def sleep_def step_def monitor_inv_def in_sync_def quiet_def)

lemma monitor_rounds_spec:
  assumes env: "env_ok me" "lock_ok me"
  shows "triple (monitor_inv m) (monitor_rounds e me checks (ph, m))
    (\<lambda>r w. \<exists>ph' m'. r = Some (list_all (\<lambda>c. fst c \<and> snd c) checks, ph', m') \<and> monitor_inv m' w)"
proof (induction checks arbitrary: ph m)
  case Nil
  then show ?case by (auto intro!: triple_return)
next
  case (Cons c checks)
  obtain a b where c: "c = (a, b)" by fastforce
  let ?Q = "\<lambda>r w. \<exists>ph' m'. r = Some (list_all (\<lambda>c. fst c \<and> snd c) checks, ph', m') \<and> monitor_inv m' w"
  have go_on: "triple (\<lambda>w. \<exists>ph' m'. r = Some (ph', m') \<and> monitor_inv m' w)
      (case r of None \<Rightarrow> State_Monad.return None | Some st' \<Rightarrow> monitor_rounds e me checks st') ?Q" for r
  proof (rule triple_pure [where A = "r \<noteq> None"])
    assume "r \<noteq> None"
    then obtain ph' m' where r: "r = Some (ph', m')" by auto
    show ?thesis unfolding r option.case by (rule triple_weaken [OF Cons.IH]) auto
  qed auto
  have "triple (monitor_inv m) (do { _ \<leftarrow> sleep; r \<leftarrow> monitorHW_round e me (ph, m);
      case r of None \<Rightarrow> State_Monad.return None | Some st' \<Rightarrow> monitor_rounds e me checks st' }) ?Q"
    by (rule triple_bind [OF sleep_inv], rule triple_bind [OF monitor_round_spec [OF env]], rule go_on)
  then show ?case by (auto simp: c intro!: triple_return)
qed


text \<open>The connections outlive the wait between two polls.\<close>

lemma idle_outlives_poll:
  assumes "0 \<le> statusTimeout" "Second \<le> pmSampleInterval"
  shows "statusTimeout + pmSampleInterval sdiv Second \<le> ts_IdleConnTimeout (status_settings statusTimeout pmSampleInterval r c h)"
proof -
  have pos: "a sdiv b = a div b" if "0 \<le> a" "0 < b" for a b :: int
    using that by (cases "a = 0") (simp_all add: signed_divide_int_def)
  have s: "0 < Second" "0 \<le> pmSampleInterval" using assms(2) by simp_all
  define n where "n = statusTimeout + pmSampleInterval div Second"
  have n: "0 \<le> n" using assms(1) s by (simp add: n_def pos_imp_zdiv_nonneg_iff)
  then have "n \<le> n * 15 div 10" by (simp add: int_div_less_self)
  then show ?thesis using n pos [of "n * 15" 10] pos [OF s(2,1)] by (simp add: status_settings_def Let_def n_def)
qed

section \<open>Examples\<close>

definition sample_node :: HsmData where
  "sample_node = (new_hsmdata zero_base)\<lparr>hd_BaseData := \<lparr>bd_ID = ''x0c0s0b0n0'', bd_Type = ''Node'', bd_State = ''On'',
     bd_Role = ''Compute'', bd_Class = []\<rparr>, hd_RfFQDN := ''x0c0s0b0'', hd_PowerStatusURI := ''/redfish/v1/Systems/Node0'',
     hd_AllowableActions := [''On'', ''Off'']\<rparr>"

definition sample_hwmap :: hw_map where
  "sample_hwmap = [(''x0c0s0b0n0'', new_component sample_node 0)]"

definition sample_answer :: "StatusResponse option \<Rightarrow> StatusDone" where
  "sample_answer r = \<lparr>sd_XName = Some ''x0c0s0b0n0'', sd_CType = Some Node, sd_FQDN = Some ''x0c0s0b0'', sd_Err = None, sd_Response = r\<rparr>"

definition node_on :: StatusResponse where
  "node_on = \<lparr>sr_StatusCode = 200, sr_Status = ''200 OK'', sr_Body = SB_Info ''On'' []\<rparr>"

definition answer_request :: "StatusRequest \<Rightarrow> StatusDone" where
  "answer_request q = \<lparr>sd_XName = Some (sq_XName q), sd_CType = Some (sq_CType q), sd_FQDN = Some (sq_FQDN q),
     sd_Err = None, sd_Response = Some node_on\<rparr>"

definition sample_monitor :: "unit MonitorEnv" where
  "sample_monitor = \<lparr>me_HSM = \<lparr>hp_FillHSMData = (\<lambda>_. State_Monad.return ([(''x0c0s0b0n0'', sample_node)], None)),
       hp_FillPowerMapData = (\<lambda>m. State_Monad.return (m, None)), hp_ReserveComponents = (\<lambda>_. State_Monad.return None),
       hp_CheckDeputyKeys = (\<lambda>_. State_Monad.return None), hp_ReleaseComponents = (\<lambda>_. State_Monad.return None)\<rparr>,
     me_Launch = (\<lambda>rs. State_Monad.return (Inr (map answer_request rs))), me_Vault = False,
     me_Creds = (\<lambda>_. State_Monad.return (Inr ([], []))),
     me_Lock = \<lparr>dl_Lock = (\<lambda>_. State_Monad.return None), dl_Unlock = State_Monad.return None\<rparr>, me_LockTime = Second\<rparr>"

lemma sample_node_ok: "inventory_ok sample_node" "bd_ID (hd_BaseData sample_node) = ''x0c0s0b0n0''"
  unfolding inventory_ok_def by code_simp+

lemma calm_return [simp]: "calm (State_Monad.return a)"
  by (simp add: calm_def)

lemma sample_monitor_ok: "env_ok sample_monitor" "lock_ok sample_monitor"
  by (auto simp: env_ok_def hsm_ok_def lock_ok_def answers_requests_def sample_monitor_def sample_node_ok answer_request_def)

lemma sample_empty: "monitor_inv [] empty_world"
  by (simp add: monitor_inv_def in_sync_def synced_def settled_def power_clean_def power_view_def keys_def)

lemma sample_inv: "monitor_inv sample_hwmap empty_world"
  using add_new_component [OF sample_empty, of sample_node 0] sample_node_ok by (simp add: sample_hwmap_def)



text \<open>A record that an earlier master left behind, and a node that does not answer.\<close>

definition sample_record :: PowerStatusComponent where
  "sample_record = \<lparr>ps_XName = ''x0c0s0b0n0'', ps_PowerState = ''on'', ps_ManagementState = ''available'', ps_Error = [],
     ps_SupportedPowerTransitions = [''On''], ps_LastUpdated = []\<rparr>"

definition sample_left :: world where
  "sample_left = empty_world\<lparr>kvs := [(pkey ''x0c0s0b0n0'', enc_PowerStatus sample_record)]\<rparr>"

lemma sample_left_facts: "quiet sample_left" "power_clean (kvs sample_left)"
  "power_view (kvs sample_left) ''x0c0s0b0n0'' = Some sample_record"
  unfolding sample_left_def power_clean_def
  by (simp_all add: power_view_def keys_def) (auto simp: sample_record_def intro!: exI [of _ sample_record])

theorem query_reports_store_witness:
  "fst (run_state (GetPowerStatus_query sample_etcd [''x0c0s0b0n0'', ''s0''] PowerStateFilter_Nil ManagementStateFilter_Nil) sample_left) =
    BuildSuccessPassback 200 \<lparr>pst_Status = [sample_record, missing_component ''s0'']\<rparr>"
proof -
  have "power_view (kvs sample_left) ''s0'' = None" by (simp add: sample_left_def power_view_def)
  with sample_left_facts(3) query_reports_store [OF sample_left_facts(1,2), of "[''x0c0s0b0n0'', ''s0'']" sample_etcd
      PowerStateFilter_Nil ManagementStateFilter_Nil]
  show ?thesis by (simp add: List.map_filter_simps view_entry_def state_matches_def sample_record_def)
qed

theorem takeover_keeps_stale_state_witness:
  "run_state (process_done sample_etcd (''x0c0s0b0n0'', sample_answer None) sample_hwmap) sample_left = (Some (sample_hwmap, None), sample_left) \<and>
   fst (run_state (GetPowerStatus_query sample_etcd [''x0c0s0b0n0''] PowerStateFilter_Nil ManagementStateFilter_Nil) sample_left) =
     BuildSuccessPassback 200 \<lparr>pst_Status = [sample_record\<lparr>ps_XName := ''x0c0s0b0n0'', ps_Error := []\<rparr>]\<rparr>"
  by (rule takeover_keeps_stale_state [OF sample_left_facts(1,2) _ sample_node_ok(2) sample_left_facts(3)])
    (simp_all add: sample_hwmap_def sample_answer_def)

end
