(* ===== verification/MasterLiveness.thy ===== *)
theory MasterLiveness
  imports MasterElection
begin

text \<open>
  Progress of the election: a vacant mastership is filled. The loop of \<open>monitorHW\<close> asks for the
  mastership once per interval; it gets it when the store answers again, the lock is granted
  again and the lease of the last master has run out, whatever failed before that.
\<close>

text \<open>The first \<open>k\<close> rounds of an instance that is not master, up to the round in which it becomes master.\<close>

primrec attempts :: "ETCDStorage \<Rightarrow> 'z DistLock \<Rightarrow> int \<Rightarrow> nat \<Rightarrow> ('z, phase) io" where
  "attempts e dl d 0 = State_Monad.return Follower"
| "attempts e dl d (Suc k) = do {
     p \<leftarrow> getPowerStatusMaster e dl d;
     if p = Follower then attempts e dl d k else State_Monad.return p }"

text \<open>Time passes and other keys may change, the entry of the master stays.\<close>

definition elapsed :: "'z world_scheme \<Rightarrow> 'z world_scheme \<Rightarrow> bool" where
  "elapsed w w' \<longleftrightarrow> ticks w \<le> ticks w' \<and> w_clock w' = w_clock w \<and> w_peers w' = w_peers w \<and> w_faults w' = w_faults w \<and>
     map_of (kvs w') master_key = map_of (kvs w) master_key"

text \<open>A lock that takes time and is granted from step \<open>N\<close> on.\<close>

definition lock_from :: "nat \<Rightarrow> 'z DistLock \<Rightarrow> int \<Rightarrow> bool" where
  "lock_from N dl d \<longleftrightarrow>
     (\<forall>w. spares_master w \<longrightarrow> ticks w < ticks (snd (run_state (dl_Lock dl d) w)) \<and> elapsed w (snd (run_state (dl_Lock dl d) w)) \<and>
        (N \<le> ticks w \<longrightarrow> fst (run_state (dl_Lock dl d) w) = None)) \<and>
     (\<forall>w. spares_master w \<longrightarrow> elapsed w (snd (run_state (dl_Unlock dl) w)))"

text \<open>
  The mastership is vacant: there is no entry, or one whose lease has run out from step \<open>N\<close> on,
  from when on the store answers. Only the instances of the election write the entry.
\<close>

definition vacant_from :: "nat \<Rightarrow> 'z world_scheme \<Rightarrow> bool" where
  "vacant_from N w \<longleftrightarrow> spares_master w \<and> (\<forall>n \<ge> N. w_faults w n = None) \<and>
     (map_of (kvs w) master_key = None \<or>
      (\<exists>u. map_of (kvs w) master_key = Some (JTime u) \<and> (\<forall>n \<ge> N. u + 3 * powerStatusMasterInterval * Second \<le> w_clock w n)))"

lemma elapsed_trans: "elapsed u v \<Longrightarrow> elapsed v w \<Longrightarrow> elapsed u w"
  by (simp add: elapsed_def)

lemma vacant_elapsed: "vacant_from N w \<Longrightarrow> elapsed w w' \<Longrightarrow> vacant_from N w'"
  by (simp add: vacant_from_def elapsed_def spares_master_def)

lemma elapsed_bump: "spares_master w \<Longrightarrow> elapsed w (bump w)"
  by (simp add: elapsed_def spares_master_def)

lemma elapsed_bump2: "spares_master w \<Longrightarrow> elapsed w (bump (bump w))"
  by (rule elapsed_trans [OF elapsed_bump elapsed_bump]) simp_all

lemma master_missing: "str_contains (''Key '' @ keySegPowerStatusMaster @ '' does not exist'') ''does not exist''"
  by code_simp

lemma check_vacant:
  assumes "es_kvHandle e = Kvs_etcd" "vacant_from N w" "run_state (check_master e) w = (p, w')"
  shows "w' = bump (bump w)" "N \<le> ticks w \<longrightarrow> p \<noteq> Follower"
    "p = Follower \<or> p = First (w_clock w (ticks w)) \<or>
     (\<exists>u. p = Outdated (w_clock w (ticks w)) u \<and> master_entry (kvs w') = Some u)"
proof -
  have g: "run_state (kvGet e json_time keySegPowerStatusMaster) v = (case w_faults v (ticks v) of Some er \<Rightarrow> (Inl er, bump v)
      | None \<Rightarrow> (case map_of (kvs (bump v)) master_key of
          None \<Rightarrow> (Inl (''Key '' @ keySegPowerStatusMaster @ '' does not exist''), bump v)
        | Some j \<Rightarrow> ((case json_time j of None \<Rightarrow> Inl unmarshal_error | Some x \<Rightarrow> Inr x), bump v)))" for v :: "'a world_scheme"
    using assms(1) by (simp add: kvGet_def Kvi_Get_def run_kv_call master_key_def [symmetric] split: option.splits)
  have v: "map_of (kvs (bump (bump w))) master_key = map_of (kvs w) master_key"
    using assms(2) by (simp add: vacant_from_def spares_master_def)
  have run: "run_state (check_master e) w = (case run_state (kvGet e json_time keySegPowerStatusMaster) (bump w) of
      (r, w') \<Rightarrow> (case r of
          Inl err \<Rightarrow> if \<not> str_contains err ''does not exist'' then Follower else First (w_clock w (ticks w))
        | Inr u \<Rightarrow> if u + 45 * Second > w_clock w (ticks w) then Follower else Outdated (w_clock w (ticks w)) u, w'))"
    by (simp add: check_master_def run_now GetPowerStatusMaster_def powerStatusMasterInterval_def split: prod.splits sum.splits)
  have cases: "w_faults w (Suc (ticks w)) \<noteq> None \<and> \<not> N \<le> ticks w \<or> w_faults w (Suc (ticks w)) = None"
    using assms(2) by (auto simp: vacant_from_def)
  show "w' = bump (bump w)"
    using assms(3) unfolding run g by (auto split: option.splits if_splits)
  show "N \<le> ticks w \<longrightarrow> p \<noteq> Follower"
    using assms(2,3) cases master_missing unfolding run g v
    by (auto simp: vacant_from_def powerStatusMasterInterval_def json_time_def split: option.splits if_splits)
  show "p = Follower \<or> p = First (w_clock w (ticks w)) \<or>
     (\<exists>u. p = Outdated (w_clock w (ticks w)) u \<and> master_entry (kvs w') = Some u)"
    using assms(2,3) unfolding run g v
    by (auto simp: vacant_from_def spares_master_def json_time_def master_entry_def split: option.splits if_splits)
qed

lemma claim_vacant:
  assumes "es_kvHandle e = Kvs_etcd" "vacant_from N w" "run_state (claim_master e p) w = (q, w')"
    and "p = First t \<or> (\<exists>u. p = Outdated t u \<and> master_entry (kvs w) = Some u)"
  shows "spares_master w'"
    "q = Master t \<and> master_entry (kvs w') = Some t \<or> q = Follower \<and> w_faults w (ticks w) \<noteq> None \<and> elapsed w w'"
proof -
  have sp: "spares_master w" using assms(2) by (simp add: vacant_from_def)
  have "master_entry (kvs (bump w)) = master_entry (kvs w)" using sp by (simp add: spares_entry)
  with assms sp show "spares_master w'"
    "q = Master t \<and> master_entry (kvs w') = Some t \<or> q = Follower \<and> w_faults w (ticks w) \<noteq> None \<and> elapsed w w'"
    by (auto simp: claim_master_def run_store_master run_tas_master elapsed_bump split: option.splits)
qed

lemma one_attempt:
  assumes e: "es_kvHandle e = Kvs_etcd" and l: "lock_from N dl d" and v: "vacant_from N w"
    and run: "run_state (getPowerStatusMaster e dl d) w = (q, w')"
  shows "(\<exists>t. q = Master t \<and> master_entry (kvs w') = Some t) \<or>
    q = Follower \<and> vacant_from N w' \<and> ticks w < ticks w' \<and> ticks w < N"
proof -
  obtain r w1 where w1: "run_state (dl_Lock dl d) w = (r, w1)" by fastforce
  have el1: "elapsed w w1" "ticks w < ticks w1" "N \<le> ticks w \<longrightarrow> r = None" using l w1 v by (auto simp: lock_from_def vacant_from_def dest!: spec [of _ w])
  show ?thesis
  proof (cases r)
    case (Some x)
    then have "q = Follower" "w' = w1" using run w1 by (auto simp: getPowerStatusMaster_def)
    then show ?thesis using el1 vacant_elapsed [OF v] Some by auto
  next
    case None
    note v1 = vacant_elapsed [OF v el1(1)]
    obtain p w2 where w2: "run_state (check_master e) w1 = (p, w2)" by fastforce
    note c = check_vacant [OF e v1 w2]
    have el2: "elapsed w1 w2" using v1 c(1) elapsed_bump2 by (auto simp: vacant_from_def)
    note v2 = vacant_elapsed [OF v1 el2]
    obtain q' w3 where w3: "run_state (claim_master e p) w2 = (q', w3)" by fastforce
    have q: "q = q'" "w' = snd (run_state (dl_Unlock dl) w3)"
      using run w1 w2 w3 None by (auto simp: getPowerStatusMaster_def split: prod.splits)
    have el4: "elapsed w3 w'" if "spares_master w3" using l that unfolding q(2) lock_from_def by blast
    have m: "master_entry (kvs w') = master_entry (kvs w3)" if "spares_master w3"
      using el4 [OF that] by (simp add: elapsed_def master_entry_def)
    consider (follower) "p = Follower" | (claim) t where "p = First t \<or> (\<exists>u. p = Outdated t u \<and> master_entry (kvs w2) = Some u)"
      using c(3) by blast
    then show ?thesis
    proof cases
      case follower
      then have "q = Follower" "w3 = w2" using w3 q(1) by (auto simp: claim_master_def)
      then have el4: "elapsed w3 w'" using el4 v2 by (simp add: vacant_from_def)
      moreover have "ticks w < N" using c(2) follower el1(2) by auto
      moreover have "elapsed w w'" using el1(1) el2 el4 \<open>w3 = w2\<close> by (metis elapsed_trans)
      ultimately show ?thesis using vacant_elapsed [OF v] el1(2) el2 el4 \<open>q = Follower\<close> \<open>w3 = w2\<close> by (auto simp: elapsed_def)
    next
      case claim
      note el4 = el4 [OF claim_vacant(1) [OF e v2 w3 claim]] and m = m [OF claim_vacant(1) [OF e v2 w3 claim]]
      from claim_vacant(2) [OF e v2 w3 claim] show ?thesis
      proof (elim disjE conjE)
        assume "q' = Master t" "master_entry (kvs w3) = Some t"
        then show ?thesis using q(1) m by simp
      next
        assume f: "q' = Follower" "w_faults w2 (ticks w2) \<noteq> None" "elapsed w2 w3"
        then have "ticks w2 < N" using v2 by (auto simp: vacant_from_def not_le [symmetric])
        moreover have "elapsed w w'" using el1(1) el2 f(3) el4 by (meson elapsed_trans)
        ultimately show ?thesis
          using q(1) f(1) vacant_elapsed [OF v] el1(2) el2 f(3) el4 by (auto simp: elapsed_def)
      qed
    qed
  qed
qed

text \<open>
  C7: a vacant mastership is filled. If from some step on the store answers, the lock is
  granted and the clock is past the lease of the last entry, then an instance that keeps asking
  becomes master after finitely many rounds, with its own entry in the store, whatever failed
  before and whatever else is written meanwhile.
\<close>

theorem eventually_master:
  assumes "es_kvHandle e = Kvs_etcd" "lock_from N dl d" "vacant_from N w"
  shows "\<exists>k t w'. run_state (attempts e dl d k) w = (Master t, w') \<and> master_entry (kvs w') = Some t"
  using assms(3)
proof (induction "N - ticks w" arbitrary: w rule: less_induct)
  case less
  obtain q w' where run: "run_state (getPowerStatusMaster e dl d) w = (q, w')" by fastforce
  from one_attempt [OF assms(1,2) less.prems run] show ?case
  proof (elim disjE exE conjE)
    fix t assume "q = Master t" "master_entry (kvs w') = Some t"
    then have "run_state (attempts e dl d 1) w = (Master t, w')" using run by simp
    then show ?thesis using \<open>master_entry (kvs w') = Some t\<close> by blast
  next
    assume f: "q = Follower" "vacant_from N w'" "ticks w < ticks w'" "ticks w < N"
    then have "N - ticks w' < N - ticks w" by simp
    with less.hyps [OF this] f(2) obtain k t w2 where
      "run_state (attempts e dl d k) w' = (Master t, w2)" "master_entry (kvs w2) = Some t" by auto
    moreover from this have "run_state (attempts e dl d (Suc k)) w = (Master t, w2)" using run f(1) by simp
    ultimately show ?thesis by blast
  qed
qed

section \<open>Examples\<close>

text \<open>A lock that is refused three times, and a store that fails up to step 6.\<close>

definition late_lock :: "unit DistLock" where
  "late_lock = \<lparr>dl_Lock = (\<lambda>d. do { n \<leftarrow> step; State_Monad.return (if n < 3 then Some ''lock is held'' else None) }),
     dl_Unlock = State_Monad.return None\<rparr>"

definition sample_vacancy :: world where
  "sample_vacancy = sample_election\<lparr>kvs := [(master_key, JTime (200 * Second))],
     w_faults := (\<lambda>n. if n < 6 then Some ''no connection'' else None)\<rparr>"

theorem eventually_master_witness:
  "\<exists>k t w'. run_state (attempts sample_etcd late_lock (60 * Second) k) sample_vacancy = (Master t, w') \<and>
     master_entry (kvs w') = Some t"
proof (rule eventually_master [of _ 10])
  show "es_kvHandle sample_etcd = Kvs_etcd" by (simp add: sample_etcd_def)
  show "lock_from 10 late_lock (60 * Second)"
    by (simp add: lock_from_def late_lock_def run_step elapsed_bump) (simp add: elapsed_def)
  show "vacant_from 10 sample_vacancy"
    by (auto simp: vacant_from_def sample_vacancy_def sample_election_def empty_world_def spares_master_def
        powerStatusMasterInterval_def)
qed

end
