(* ===== verification/CredStore.thy ===== *)
theory CredStore
  imports World Xnames
begin

text \<open>
  The credential store, \<^verbatim>\<open>internal/credstore/credstore.go\<close>: credentials of controllers, fetched
  from the vendored Vault client (the argument \<open>getCompCred\<close>) and cached for a fixed time.
  The connection to Vault is not modelled.
\<close>

record CompCredCached =
  cc_User :: string
  cc_Pw :: string
  cc_Expire :: time

record VAULTv0 =
  va_CredCacheDuration :: int
  va_credStoreReady :: bool
  va_credsCacheMap :: "(xname \<times> CompCredCached) list"

definition IsReady :: "VAULTv0 \<Rightarrow> bool" where
  "IsReady b = va_credStoreReady b"

type_synonym 'z vault_client = "xname \<Rightarrow> ('z, err + string \<times> string) io"

text \<open>
  \<open>Init\<close>: connect until it succeeds or the service stops. Round \<open>n\<close> finds the service
  running or not and the connection made or not; the loop may never end.
\<close>

partial_function (option) Init_loop :: "(nat \<Rightarrow> bool) \<Rightarrow> (nat \<Rightarrow> bool) \<Rightarrow> nat \<Rightarrow> VAULTv0 \<Rightarrow> VAULTv0 option" where
  "Init_loop running connects n b =
     (if \<not> running n then Some b
      else if connects n then Some (b\<lparr>va_credStoreReady := True\<rparr>)
      else Init_loop running connects (Suc n) b)"

definition VAULTv0_Init :: "(nat \<Rightarrow> bool) \<Rightarrow> (nat \<Rightarrow> bool) \<Rightarrow> int \<Rightarrow> VAULTv0 option" where
  "VAULTv0_Init running connects credCacheDuration =
     Init_loop running connects 0 \<lparr>va_CredCacheDuration = credCacheDuration, va_credStoreReady = False, va_credsCacheMap = []\<rparr>"

lemma Init_loop_ends: "\<not> running (n + k) \<or> connects (n + k) \<Longrightarrow> Init_loop running connects n b \<noteq> None"
proof (induction k arbitrary: n)
  case 0
  then show ?case by (subst Init_loop.simps) auto
next
  case (Suc k)
  then have "Init_loop running connects (Suc n) b \<noteq> None" by simp
  then show ?case by (subst Init_loop.simps) auto
qed

lemma Init_loop_ended:
  assumes "Init_loop running connects n b = Some c"
  shows "\<exists>m. \<not> running m \<or> connects m"
proof (rule Init_loop.raw_induct [where P = "\<lambda>running connects n b c. \<exists>m. \<not> running m \<or> connects m", OF _ assms])
  fix loop and running connects :: "nat \<Rightarrow> bool" and n b c
  assume "\<And>running connects n b c. loop running connects n b = Some c \<Longrightarrow> \<exists>m. \<not> running m \<or> connects m"
    "(if \<not> running n then Some b else if connects n then Some (b\<lparr>va_credStoreReady := True\<rparr>)
      else loop running connects (Suc n) b) = Some c"
  then show "\<exists>m. \<not> running m \<or> connects m" by (auto split: if_splits)
qed

lemma VAULTv0_Init_ends: "VAULTv0_Init running connects d \<noteq> None \<longleftrightarrow> (\<exists>n. \<not> running n \<or> connects n)"
  unfolding VAULTv0_Init_def using Init_loop_ends [of running 0 _ connects] Init_loop_ended by (metis add_0 not_None_eq)

text \<open>The clock is read only for a name that is in the cache.\<close>

definition cached :: "xname \<Rightarrow> VAULTv0 \<Rightarrow> ('z, CompCredCached option) io" where
  "cached x b = (case map_of (va_credsCacheMap b) x of
       None \<Rightarrow> State_Monad.return None
     | Some creds \<Rightarrow> do { t \<leftarrow> now; State_Monad.return (if cc_Expire creds > t then Some creds else None) })"

definition GetCredentials :: "'z vault_client \<Rightarrow> xname \<Rightarrow> VAULTv0 \<Rightarrow> ('z, (err + string \<times> string) \<times> VAULTv0) io" where
  "GetCredentials getCompCred x b =
     (if GetHMSType x = HMSTypeInvalid then
        State_Monad.return (Inl (''Invalid xname for GetCredentials(), '' @ x), b)
      else do {
        hit \<leftarrow> cached x b;
        case hit of
          Some creds \<Rightarrow> State_Monad.return (Inr (cc_User creds, cc_Pw creds), b)
        | None \<Rightarrow>
            if va_credStoreReady b then do {
              r \<leftarrow> getCompCred x;
              case r of
                Inl credErr \<Rightarrow> State_Monad.return (Inl credErr, b)
              | Inr (user, pw) \<Rightarrow> do {
                  t \<leftarrow> now;
                  State_Monad.return (Inr (user, pw), b\<lparr>va_credsCacheMap := AList.update x
                    \<lparr>cc_User = user, cc_Pw = pw, cc_Expire = t + va_CredCacheDuration b * 1000000000\<rparr> (va_credsCacheMap b)\<rparr>) } }
            else State_Monad.return (Inl ''Credentials store not ready'', b) })"

text \<open>
  The search for the controller of a component. It ends because the parent of a valid name
  has a smaller rank, a fact of the interpretation of \<open>hierarchy\<close> on xnames.
\<close>

function controller_of :: "xname \<Rightarrow> xname \<Rightarrow> xname" where
  "controller_of x i =
     (if GetHMSType i = HMSTypeInvalid then x
      else if IsHMSTypeController (GetHMSType i) then i
      else controller_of x (GetHMSCompParent i))"
  by pat_completeness auto

termination
  by (relation "measure (\<lambda>(x, i). xrank i)") (auto intro: xn.rank_parent simp: IsHMSCompIDValid_def)

declare controller_of.simps [simp del]

definition GetControllerCredentials :: "'z vault_client \<Rightarrow> xname \<Rightarrow> VAULTv0 \<Rightarrow> ('z, (err + string \<times> string) \<times> VAULTv0) io" where
  "GetControllerCredentials getCompCred x b =
     (if GetHMSType x = HMSTypeInvalid then
        State_Monad.return (Inl (''Invalid xname for GetControllerCredentials(), '' @ x), b)
      else GetCredentials getCompCred (controller_of x x) b)"

section \<open>The controller\<close>

definition controller :: "xname \<Rightarrow> bool" where
  "controller i \<longleftrightarrow> IsHMSCompIDValid i \<and> IsHMSTypeController (GetHMSType i)"

definition is_above :: "xname \<Rightarrow> nat \<Rightarrow> xname" where
  "is_above x n = (GetHMSCompParent ^^ n) x"

text \<open>The names below the \<open>n\<close>-th ancestor are valid and no controllers.\<close>

definition plain_below :: "xname \<Rightarrow> nat \<Rightarrow> bool" where
  "plain_below i n \<longleftrightarrow> (\<forall>k < n. IsHMSCompIDValid (is_above i k) \<and> \<not> controller (is_above i k))"

lemma is_above_simps [simp]: "is_above i 0 = i" "is_above (GetHMSCompParent i) n = is_above i (Suc n)"
  by (simp_all add: is_above_def funpow_swap1)

lemma plain_below_Suc:
  assumes "plain_below (GetHMSCompParent i) n" "IsHMSCompIDValid i" "\<not> controller i"
  shows "plain_below i (Suc n)"
  unfolding plain_below_def
proof (intro allI impI)
  fix k assume "k < Suc n"
  then show "IsHMSCompIDValid (is_above i k) \<and> \<not> controller (is_above i k)"
    using assms by (cases k) (auto simp: plain_below_def)
qed

lemma controller_of_cases:
  "(\<exists>n. controller_of x i = is_above i n \<and> controller (is_above i n) \<and> plain_below i n)
   \<or> controller_of x i = x \<and> (\<exists>n. \<not> IsHMSCompIDValid (is_above i n) \<and> plain_below i n)"
proof (induction i rule: xn.up_induct)
  case (up i)
  show ?case
  proof (cases "IsHMSCompIDValid i \<and> \<not> controller i")
    case False
    have "plain_below i 0" by (simp add: plain_below_def)
    moreover have "controller_of x i = (if IsHMSCompIDValid i then i else x)"
      using False by (subst controller_of.simps) (auto simp: controller_def IsHMSCompIDValid_def)
    ultimately show ?thesis using False by (metis is_above_simps(1))
  next
    case True
    then have c: "controller_of x i = controller_of x (GetHMSCompParent i)"
      by (subst controller_of.simps) (auto simp: controller_def IsHMSCompIDValid_def)
    from up True show ?thesis unfolding c is_above_simps using plain_below_Suc by blast
  qed
qed

text \<open>
  The credentials asked for a component are those of its nearest controller, itself
  included; the search through the hierarchy always ends, and a component below no controller
  is looked up under its own name.
\<close>

lemma nearest_controller:
  assumes "IsHMSCompIDValid x"
  shows "\<exists>i. GetControllerCredentials gc x b = GetCredentials gc i b \<and>
    ((\<exists>n. i = is_above x n \<and> controller i \<and> plain_below x n) \<or>
     i = x \<and> (\<exists>n. \<not> IsHMSCompIDValid (is_above x n) \<and> plain_below x n))"
proof (intro exI conjI)
  show "GetControllerCredentials gc x b = GetCredentials gc (controller_of x x) b"
    using assms by (simp add: GetControllerCredentials_def IsHMSCompIDValid_def)
  show "(\<exists>n. controller_of x x = is_above x n \<and> controller (controller_of x x) \<and> plain_below x n) \<or>
      controller_of x x = x \<and> (\<exists>n. \<not> IsHMSCompIDValid (is_above x n) \<and> plain_below x n)"
    using controller_of_cases [of x x] by metis
qed

section \<open>The cache\<close>


section \<open>The store as part of the world\<close>

text \<open>
  The global credential store of the process, as the workers and the monitor call it: a world
  that also holds the cache.
\<close>

record vault_world = world +
  vw_vault :: VAULTv0

definition global_creds :: "('z vault_world_ext) vault_client \<Rightarrow> xname \<Rightarrow> ('z vault_world_ext, err + string \<times> string) io" where
  "global_creds gc x = do {
     w \<leftarrow> State_Monad.get;
     (r, b) \<leftarrow> GetControllerCredentials gc x (vw_vault w);
     w' \<leftarrow> State_Monad.get;
     _ \<leftarrow> State_Monad.set (w'\<lparr>vw_vault := b\<rparr>);
     State_Monad.return r }"

section \<open>Examples\<close>

definition sample_vault :: VAULTv0 where
  "sample_vault = \<lparr>va_CredCacheDuration = 600, va_credStoreReady = True, va_credsCacheMap = []\<rparr>"

definition one_password :: "string \<Rightarrow> 'z vault_client" where
  "one_password pw x = State_Monad.return (Inr (''root'', pw))"

lemma sample_fetch: "fst (run_state (GetControllerCredentials (one_password ''a'') ''x0c0s0b0n0'' sample_vault) empty_world) =
    (Inr (''root'', ''a''), sample_vault\<lparr>va_credsCacheMap :=
      [(''x0c0s0b0'', \<lparr>cc_User = ''root'', cc_Pw = ''a'', cc_Expire = 600000000000\<rparr>)]\<rparr>)"
  by code_simp

lemma nearest_controller_example:
  "\<exists>i. GetControllerCredentials (one_password ''a'' :: unit vault_client) ''x0c0s0b0n0'' sample_vault = GetCredentials (one_password ''a'') i sample_vault"
proof -
  have "IsHMSCompIDValid ''x0c0s0b0n0''" by code_simp
  from nearest_controller [OF this] show ?thesis by blast
qed


end
