(* ===== verification/Api.thy ===== *)
theory Api
  imports PowerCap StatusMonitor CredStore
begin

text \<open>
  The handlers of the REST interface, \<^verbatim>\<open>internal/api\<close>: routing, reading and checking of
  requests, the calls of the domain and the answers. The globals of the domain are arguments.
  A handler returns the answer and the identifiers of the tasks for which a worker was
  started; \<open>None\<close> is a panic of the domain. Draining the request body and logging are left
  out. A request body is given as what \<open>io.ReadAll\<close> and \<open>json.Unmarshal\<close> make of it, and
  \<open>uuid.Parse\<close>, code of a vendored library, is the argument \<open>parse\<close>.
\<close>

section \<open>Answers\<close>

record healthRsp =
  hr_KvStore :: string
  hr_DistLocking :: string
  hr_StateManager :: string
  hr_Vault :: string
  hr_TaskRunner :: string

text \<open>The values that the field \<open>Obj\<close> of a passback takes; the last four are those of \<open>WriteHeaders\<close>.\<close>

datatype Obj =
    Obj_TransitionCreation TransitionCreation | Obj_TransitionResp TransitionResp
  | Obj_TransitionRespArray "TransitionResp list" | Obj_TransitionAbortResp string
  | Obj_PowerStatus PowerStatus | Obj_PowerCapTaskCreation PowerCapTaskCreation
  | Obj_PowerCapTaskRespArray PowerCapTaskRespArray | Obj_PowerCapTaskResp PowerCapTaskResp
  | Obj_healthRsp healthRsp
  | Obj_UUIDs "uuid list" | Obj_UUID uuid | Obj_IDList "uuid list" | Obj_IDResp uuid

datatype Content = Content_Problem Problem7807 | Content_Obj Obj | Content_Text string

record Response =
  rs_ContentType :: "string option"
  rs_Location :: "string option"
  rs_StatusCode :: int
  rs_Content :: "Content option"

definition as_obj :: "('o \<Rightarrow> Obj) \<Rightarrow> 'o Passback \<Rightarrow> Obj Passback" where
  "as_obj f pb = \<lparr>pb_StatusCode = pb_StatusCode pb, pb_Obj = map_option f (pb_Obj pb), pb_Error = pb_Error pb,
     pb_IsError = pb_IsError pb\<rparr>"

definition WriteHeaders :: "Obj Passback \<Rightarrow> Response" where
  "WriteHeaders pb =
     (if pb_IsError pb then
        \<lparr>rs_ContentType = Some ''application/problem+json'', rs_Location = None, rs_StatusCode = pb_StatusCode pb,
         rs_Content = Some (Content_Problem (pb_Error pb))\<rparr>
      else case pb_Obj pb of
        Some obj \<Rightarrow> \<lparr>rs_ContentType = Some ''application/json'', rs_Location = None, rs_StatusCode = pb_StatusCode pb,
          rs_Content = Some (Content_Obj (case obj of Obj_UUIDs val \<Rightarrow> Obj_IDList val | Obj_UUID val \<Rightarrow> Obj_IDResp val
            | _ \<Rightarrow> obj))\<rparr>
      | None \<Rightarrow> \<lparr>rs_ContentType = None, rs_Location = None, rs_StatusCode = pb_StatusCode pb, rs_Content = None\<rparr>)"

definition WriteHeadersWithLocation :: "Obj Passback \<Rightarrow> string \<Rightarrow> Response" where
  "WriteHeadersWithLocation pb location = (WriteHeaders pb)\<lparr>rs_Location := Some location\<rparr>"

section \<open>Requests\<close>

text \<open>No body, a read error, text that is not the JSON of the parameters, and the parameters.\<close>

datatype 'p Body = Body_None | Body_Unread err | Body_Unparseable err | Body_Params 'p

definition read_parameters :: "'p Body \<Rightarrow> Obj Passback + 'p" where
  "read_parameters body = (case body of
       Body_None \<Rightarrow> Inl (BuildErrorPassback 400 ''empty body not allowed'')
     | Body_Unread err \<Rightarrow> Inl (BuildErrorPassback 500 err)
     | Body_Unparseable err \<Rightarrow> Inl (BuildErrorPassback 400 err)
     | Body_Params p \<Rightarrow> Inr p)"

type_synonym uuid_parser = "string \<Rightarrow> err + uuid"

text \<open>A key that is not in the variables of the route reads as the empty string.\<close>

definition GetUUIDFromVars :: "uuid_parser \<Rightarrow> string \<Rightarrow> (string \<times> string) list \<Rightarrow> uuid Passback" where
  "GetUUIDFromVars parse key vars =
     (case parse (case map_of vars key of None \<Rightarrow> [] | Some value \<Rightarrow> value) of
        Inl err \<Rightarrow> BuildErrorPassback 400 err
      | Inr u \<Rightarrow> BuildSuccessPassback 200 u)"

type_synonym started = "(Response \<times> uuid list) option"

definition answer :: "Obj Passback \<Rightarrow> started" where
  "answer pb = Some (WriteHeaders pb, [])"

text \<open>The identifier of the route, or the answer that refuses it.\<close>

definition with_uuid :: "uuid_parser \<Rightarrow> string \<Rightarrow> (string \<times> string) list \<Rightarrow> (uuid \<Rightarrow> ('z, started) io) \<Rightarrow> ('z, started) io" where
  "with_uuid parse key vars f =
     (let pb = GetUUIDFromVars parse key vars in
      case (if pb_IsError pb then None else pb_Obj pb) of
        Some u \<Rightarrow> f u
      | None \<Rightarrow> State_Monad.return (answer (as_obj Obj_UUID pb)))"

section \<open>Transitions\<close>

definition CreateTransition :: "ETCDStorage \<Rightarrow> int \<Rightarrow> TransitionParameter Body \<Rightarrow> ('z, started) io" where
  "CreateTransition e expireTimeMins body = (case read_parameters body of
       Inl pb \<Rightarrow> State_Monad.return (answer pb)
     | Inr parameters \<Rightarrow> do {
         u \<leftarrow> new_uuid;
         n1 \<leftarrow> now;
         n2 \<leftarrow> now;
         n3 \<leftarrow> now;
         let (transition, err) = ToTransition u n1 n2 n3 parameters expireTimeMins;
         case err of
           Some x \<Rightarrow> State_Monad.return (answer (BuildErrorPassback 400 x))
         | None \<Rightarrow> do {
             r \<leftarrow> TriggerTransition e transition;
             State_Monad.return (case r of
                 None \<Rightarrow> None
               | Some (pb, workers) \<Rightarrow> (case (if pb_IsError pb then None else pb_Obj pb) of
                   Some obj \<Rightarrow> Some (WriteHeadersWithLocation (as_obj Obj_TransitionCreation pb)
                     (''../transitions/'' @ tc_TransitionID obj), workers)
                 | None \<Rightarrow> Some (WriteHeaders (as_obj Obj_TransitionCreation pb), workers))) } })"

definition GetTransitions :: "uuid_parser \<Rightarrow> ETCDStorage \<Rightarrow> (string \<times> string) list \<Rightarrow> ('z, started) io" where
  "GetTransitions parse e params =
     (if map_of params ''transitionID'' \<noteq> None then
        with_uuid parse ''transitionID'' params (\<lambda>transitionID. do {
          r \<leftarrow> domain_GetTransition e transitionID;
          State_Monad.return (case r of None \<Rightarrow> None | Some pb \<Rightarrow> answer (as_obj Obj_TransitionResp pb)) })
      else do {
        r \<leftarrow> GetTransitionStatuses e;
        State_Monad.return (case r of None \<Rightarrow> None | Some pb \<Rightarrow> answer (as_obj Obj_TransitionRespArray pb)) })"

definition AbortTransition :: "uuid_parser \<Rightarrow> ETCDStorage \<Rightarrow> (string \<times> string) list \<Rightarrow> ('z, started) io" where
  "AbortTransition parse e params =
     with_uuid parse ''transitionID'' params (\<lambda>transitionID. do {
       pb \<leftarrow> AbortTransitionID e transitionID;
       State_Monad.return (answer (as_obj Obj_TransitionAbortResp pb)) })"

section \<open>Power status\<close>

record PowerStatusParameter =
  psp_Xnames :: "string list"
  psp_PowerStateFilter :: string
  psp_ManagementStateFilter :: string

definition bad_xnames_error :: "string list \<Rightarrow> err" where
  "bad_xnames_error badXnames = foldl (\<lambda>errormsg badxname. errormsg @ '' '' @ badxname) ''invalid xnames detected:'' badXnames"

definition doGetPowerStatus :: "ETCDStorage \<Rightarrow> string list \<Rightarrow> string \<Rightarrow> string \<Rightarrow> ('z, started) io" where
  "doGetPowerStatus e xnamesReq powerStateFilterReq managementStateFilterReq =
     (case ToPowerStateFilter powerStateFilterReq of
        (_, Some err) \<Rightarrow> State_Monad.return (answer (BuildErrorPassback 400 err))
      | (psf, None) \<Rightarrow>
     (case ToManagementStateFilter managementStateFilterReq of
        (_, Some err) \<Rightarrow> State_Monad.return (answer (BuildErrorPassback 400 err))
      | (msf, None) \<Rightarrow>
     (let (xnames, badXnames) = ValidateCompIDs xnamesReq True in
      if length badXnames > 0 then
        State_Monad.return (answer (BuildErrorPassback 400 (bad_xnames_error badXnames)))
      else do {
        pb \<leftarrow> GetPowerStatus_query e xnames psf msf;
        State_Monad.return (answer (as_obj Obj_PowerStatus pb)) })))"

text \<open>The query of a URL is a map from names to their values in order.\<close>

definition query_values :: "(string \<times> string list) list \<Rightarrow> string \<Rightarrow> string list" where
  "query_values q key = (case map_of q key of None \<Rightarrow> [] | Some vs \<Rightarrow> vs)"

definition query_get :: "(string \<times> string list) list \<Rightarrow> string \<Rightarrow> string" where
  "query_get q key = (case query_values q key of [] \<Rightarrow> [] | v # _ \<Rightarrow> v)"

definition GetPowerStatus_handler :: "ETCDStorage \<Rightarrow> (string \<times> string list) list \<Rightarrow> ('z, started) io" where
  "GetPowerStatus_handler e queryParams =
     doGetPowerStatus e (query_values queryParams ''xname'') (query_get queryParams ''powerStateFilter'')
       (query_get queryParams ''managementStateFilter'')"

definition PostPowerStatus :: "ETCDStorage \<Rightarrow> PowerStatusParameter Body \<Rightarrow> ('z, started) io" where
  "PostPowerStatus e body = (case read_parameters body of
       Inl pb \<Rightarrow> State_Monad.return (answer pb)
     | Inr parameters \<Rightarrow> doGetPowerStatus e (psp_Xnames parameters) (psp_PowerStateFilter parameters)
         (psp_ManagementStateFilter parameters))"

section \<open>Power capping\<close>

definition created_task :: "PowerCapTaskCreation Passback \<times> uuid list \<Rightarrow> started" where
  "created_task r = (case r of (pb, workers) \<Rightarrow>
     (case (if pb_IsError pb then None else pb_Obj pb) of
        Some obj \<Rightarrow> Some (WriteHeadersWithLocation (as_obj Obj_PowerCapTaskCreation pb)
          (''../power-cap/'' @ ptc_TaskID obj), workers)
      | None \<Rightarrow> Some (WriteHeaders (as_obj Obj_PowerCapTaskCreation pb), workers)))"

definition SnapshotPowerCap_handler :: "ETCDStorage \<Rightarrow> int \<Rightarrow> PowerCapSnapshotParameter Body \<Rightarrow> ('z, started) io" where
  "SnapshotPowerCap_handler e expireTimeMins body = (case read_parameters body of
       Inl pb \<Rightarrow> State_Monad.return (answer pb)
     | Inr parameters \<Rightarrow>
         if length (sp_Xnames parameters) = 0 then
           State_Monad.return (answer (BuildErrorPassback 400 ''Xname list is empty. A list of xnames is required''))
         else do {
           r \<leftarrow> SnapshotPowerCap e expireTimeMins parameters;
           State_Monad.return (created_task r) })"

definition bad_control :: "PowerCapControlParameter \<Rightarrow> bool" where
  "bad_control ctl \<longleftrightarrow> cp_Name ctl = [] \<or> cp_Value ctl < 0"

definition bad_controls :: "PowerCapPatchParameter \<Rightarrow> xname list" where
  "bad_controls parameters = map cmp_Xname (filter (\<lambda>c. list_ex bad_control (cmp_Controls c)) (pp_Components parameters))"

definition bad_controls_error :: "xname list \<Rightarrow> err" where
  "bad_controls_error badCtls =
     foldl (\<lambda>errormsg xname. errormsg @ xname @ '' '') ''Invalid control parameters for xnames detected '' badCtls"

definition PatchPowerCap_handler :: "ETCDStorage \<Rightarrow> int \<Rightarrow> PowerCapPatchParameter Body \<Rightarrow> ('z, started) io" where
  "PatchPowerCap_handler e expireTimeMins body = (case read_parameters body of
       Inl pb \<Rightarrow> State_Monad.return (answer pb)
     | Inr parameters \<Rightarrow>
         if length (bad_controls parameters) > 0 then
           State_Monad.return (answer (BuildErrorPassback 400 (bad_controls_error (bad_controls parameters))))
         else do {
           r \<leftarrow> PatchPowerCap e expireTimeMins parameters;
           State_Monad.return (created_task r) })"

definition GetPowerCap_handler :: "ETCDStorage \<Rightarrow> ('z, started) io" where
  "GetPowerCap_handler e = do {
     pb \<leftarrow> GetPowerCap e;
     State_Monad.return (answer (as_obj Obj_PowerCapTaskRespArray pb)) }"

definition GetPowerCapQuery_handler :: "uuid_parser \<Rightarrow> ETCDStorage \<Rightarrow> (string \<times> string) list \<Rightarrow> ('z, started) io" where
  "GetPowerCapQuery_handler parse e params =
     with_uuid parse ''taskID'' params (\<lambda>taskID. do {
       pb \<leftarrow> GetPowerCapQuery e taskID;
       State_Monad.return (answer (as_obj Obj_PowerCapTaskResp pb)) })"

section \<open>Health\<close>

text \<open>
  The providers that the probes ask, \<open>None\<close> for a nil pointer: \<open>Ping\<close> of storage, lock and
  state manager, \<open>IsReady\<close> of the credential store, and the task launcher with the name of its
  type and its \<open>Alive\<close>.
\<close>

record 'z HealthEnv =
  hx_DSP :: "('z, err option) io option"
  hx_DistLock :: "('z, err option) io option"
  hx_HSM :: "('z, err option) io option"
  hx_VaultEnabled :: bool
  hx_CS :: "bool option"
  hx_RFTloc :: "(string \<times> ('z, bool \<times> err option) io) option"

definition no_content :: "int \<Rightarrow> Response" where
  "no_content code = \<lparr>rs_ContentType = None, rs_Location = None, rs_StatusCode = code, rs_Content = None\<rparr>"

definition GetLiveness :: Response where
  "GetLiveness = no_content 204"

text \<open>One check of the readiness probe; a nil provider is a panic.\<close>

definition check_ping :: "('z, err option) io option \<Rightarrow> bool \<Rightarrow> ('z, bool option) io" where
  "check_ping p ready = (case p of None \<Rightarrow> State_Monad.return None
     | Some ping \<Rightarrow> do { err \<leftarrow> ping; State_Monad.return (Some (if err \<noteq> None then False else ready)) })"

definition bind_check :: "('z, 'a option) io \<Rightarrow> ('a \<Rightarrow> ('z, 'b option) io) \<Rightarrow> ('z, 'b option) io" where
  "bind_check m f = do { r \<leftarrow> m; case r of None \<Rightarrow> State_Monad.return None | Some a \<Rightarrow> f a }"

definition check_vault :: "'z HealthEnv \<Rightarrow> bool \<Rightarrow> ('z, bool option) io" where
  "check_vault g ready = State_Monad.return
     (if hx_VaultEnabled g then map_option (\<lambda>isReady. if \<not> isReady then False else ready) (hx_CS g) else Some ready)"

definition check_launcher :: "'z HealthEnv \<Rightarrow> bool \<Rightarrow> ('z, bool option) io" where
  "check_launcher g ready = (case hx_RFTloc g of None \<Rightarrow> State_Monad.return None
     | Some (_, isAlive) \<Rightarrow> do {
         (alive, terr) \<leftarrow> isAlive;
         State_Monad.return (Some (if \<not> alive \<or> terr \<noteq> None then False else ready)) })"

definition GetReadiness :: "'z HealthEnv \<Rightarrow> ('z, Response option) io" where
  "GetReadiness g =
     bind_check (check_ping (hx_DSP g) True) (\<lambda>ready.
     bind_check (check_ping (hx_DistLock g) ready) (\<lambda>ready.
     bind_check (check_ping (hx_HSM g) ready) (\<lambda>ready.
     bind_check (check_vault g ready) (\<lambda>ready.
     bind_check (check_launcher g ready) (\<lambda>ready.
       State_Monad.return (Some (no_content (if ready then 204 else 503))))))))"

abbreviation "unconnected \<equiv> ''not connected''"
abbreviation "responsive \<equiv> ''connected, responsive''"
abbreviation "unresponsive \<equiv> ''connected, not responsive''"

definition health_ping :: "('z, err option) io option \<Rightarrow> ('z, string) io" where
  "health_ping p = (case p of None \<Rightarrow> State_Monad.return unconnected
     | Some ping \<Rightarrow> do { err \<leftarrow> ping; State_Monad.return (if err = None then responsive else unresponsive) })"

definition health_vault :: "'z HealthEnv \<Rightarrow> string" where
  "health_vault g =
     (if hx_VaultEnabled g then
        (case hx_CS g of None \<Rightarrow> unconnected | Some isReady \<Rightarrow> if isReady then responsive else unresponsive)
      else ''disabled'')"

definition health_launcher :: "'z HealthEnv \<Rightarrow> ('z, string) io" where
  "health_launcher g = (case hx_RFTloc g of None \<Rightarrow> State_Monad.return unconnected
     | Some (ktype, isAlive) \<Rightarrow> do {
         (alive, terr) \<leftarrow> isAlive;
         let state = (if terr \<noteq> None then ''not connected, not responsive'' else if \<not> alive then unresponsive else responsive);
         State_Monad.return (state @ (if str_contains (to_lower ktype) ''local'' then '', local mode'' else '', remote mode'')) })"

definition GetHealth :: "'z HealthEnv \<Rightarrow> ('z, Response) io" where
  "GetHealth g = do {
     kv \<leftarrow> health_ping (hx_DSP g);
     dl \<leftarrow> health_ping (hx_DistLock g);
     sm \<leftarrow> health_ping (hx_HSM g);
     tr \<leftarrow> health_launcher g;
     State_Monad.return (WriteHeaders \<lparr>pb_StatusCode = 200, pb_Obj = Some (Obj_healthRsp \<lparr>hr_KvStore = kv, hr_DistLocking = dl,
       hr_StateManager = sm, hr_Vault = health_vault g, hr_TaskRunner = tr\<rparr>), pb_Error = zero_problem, pb_IsError = False\<rparr>) }"

definition Index :: Response where
  "Index = \<lparr>rs_ContentType = None, rs_Location = None, rs_StatusCode = 200, rs_Content = Some (Content_Text ''hms-power-control'')\<rparr>"

section \<open>Routes\<close>

datatype Handler = H_Index | H_GetTransitions | H_CreateTransition | H_AbortTransitionID | H_GetPowerStatus | H_PostPowerStatus
  | H_SnapshotPowerCap | H_PatchPowerCap | H_GetPowerCap | H_GetPowerCapQuery | H_GetLiveness | H_GetReadiness | H_GetHealth

record Route =
  ro_Name :: string
  ro_Method :: string
  ro_Pattern :: string
  ro_HandlerFunc :: Handler

definition mk_route :: "string \<Rightarrow> string \<Rightarrow> string \<Rightarrow> Handler \<Rightarrow> Route" where
  "mk_route n m p h = \<lparr>ro_Name = n, ro_Method = m, ro_Pattern = p, ro_HandlerFunc = h\<rparr>"

definition routes :: "Route list" where
  "routes = [
     mk_route ''Index'' ''GET'' ''/'' H_Index,
     mk_route ''GetTransitions'' ''GET'' ''/transitions'' H_GetTransitions,
     mk_route ''CreateTransition'' ''POST'' ''/transitions'' H_CreateTransition,
     mk_route ''GetTransitionID'' ''GET'' ''/transitions/{transitionID}'' H_GetTransitions,
     mk_route ''AbortTransitionID'' ''DELETE'' ''/transitions/{transitionID}'' H_AbortTransitionID,
     mk_route ''GetPowerStatus'' ''GET'' ''/power-status'' H_GetPowerStatus,
     mk_route ''PostPowerStatus'' ''POST'' ''/power-status'' H_PostPowerStatus,
     mk_route ''SnapshotPowerCap'' ''POST'' ''/power-cap/snapshot'' H_SnapshotPowerCap,
     mk_route ''PatchPowerCap'' ''PATCH'' ''/power-cap'' H_PatchPowerCap,
     mk_route ''GetPowerCap'' ''GET'' ''/power-cap'' H_GetPowerCap,
     mk_route ''GetPowerCapQuery'' ''GET'' ''/power-cap/{taskID}'' H_GetPowerCapQuery,
     mk_route ''GetLiveness'' ''GET'' ''/liveness'' H_GetLiveness,
     mk_route ''GetReadiness'' ''GET'' ''/readiness'' H_GetReadiness,
     mk_route ''GetHealth'' ''GET'' ''/health'' H_GetHealth]"

text \<open>Every route is registered as it is and with the prefix of version 1.\<close>

definition NewRouter :: "Route list" where
  "NewRouter = concat (map (\<lambda>r. [r, r\<lparr>ro_Pattern := ''/v1'' @ ro_Pattern r\<rparr>]) routes)"

text \<open>
  How the router of the vendored library matches a clean path: segment by segment, a variable
  in braces stands for one segment that is not empty, and the first route that fits the path and
  the method is taken. (The redirect for a trailing slash is not needed here.)
\<close>

definition var_name :: "string \<Rightarrow> string option" where
  "var_name seg = (if seg \<noteq> [] \<and> hd seg = CHR ''{'' \<and> last seg = CHR ''}'' then Some (butlast (tl seg)) else None)"

fun match_path :: "string list \<Rightarrow> string list \<Rightarrow> (string \<times> string) list option" where
  "match_path [] [] = Some []"
| "match_path (p # ps) (s # ss) = (case var_name p of
      Some v \<Rightarrow> if s = [] then None else map_option (Cons (v, s)) (match_path ps ss)
    | None \<Rightarrow> if p = s then match_path ps ss else None)"
| "match_path _ _ = None"

fun find_route :: "Route list \<Rightarrow> string \<Rightarrow> string \<Rightarrow> (Handler \<times> (string \<times> string) list) option" where
  "find_route [] m path = None"
| "find_route (r # rs) m path =
     (if ro_Method r \<noteq> m then find_route rs m path
      else case match_path (split_on (CHR ''/'') (ro_Pattern r)) (split_on (CHR ''/'') path) of
        Some vars \<Rightarrow> Some (ro_HandlerFunc r, vars)
      | None \<Rightarrow> find_route rs m path)"

end
