(* ===== verification/ApiSafety.thy ===== *)
theory ApiSafety
  imports Api Completion
begin

text \<open>
  What a client of the REST interface can rely on: requests that are refused change nothing,
  what a request created is found under the location of the answer, that location is routed to
  the handler that reads it, and the readiness probe.
\<close>

section \<open>Refused requests\<close>

text \<open>The error of a request body, with the status code of the answer.\<close>

definition body_error :: "('p \<Rightarrow> err option) \<Rightarrow> 'p Body \<Rightarrow> (int \<times> err) option" where
  "body_error refusal body = (case body of
       Body_None \<Rightarrow> Some (400, ''empty body not allowed'')
     | Body_Unread err \<Rightarrow> Some (500, err)
     | Body_Unparseable err \<Rightarrow> Some (400, err)
     | Body_Params p \<Rightarrow> map_option (Pair 400) (refusal p))"

text \<open>The contract of a handler with a body: what is checked before the domain is called.\<close>

locale checked_request =
  fixes handler :: "'p Body \<Rightarrow> ('z, started) io" and refusal :: "'p \<Rightarrow> err option"
  assumes unread: "read_parameters body = Inl pb \<Longrightarrow> handler body = State_Monad.return (answer pb)"
    and refused: "refusal p = Some x \<Longrightarrow> quiet w \<Longrightarrow>
      \<exists>w'. run_state (handler (Body_Params p)) w = (answer (BuildErrorPassback 400 x), w') \<and> kvs w' = kvs w"
begin

lemma bad_request:
  assumes "body_error refusal body = Some (code, x)" "quiet w"
  shows "\<exists>w'. run_state (handler body) w = (answer (BuildErrorPassback code x), w') \<and> kvs w' = kvs w"
  using assms refused
  by (cases body) (auto simp: body_error_def unread read_parameters_def)

end

definition transition_refusal :: "TransitionParameter \<Rightarrow> err option" where
  "transition_refusal p = snd (ToOperationFilter (tpar_Operation p))"

definition snapshot_refusal :: "PowerCapSnapshotParameter \<Rightarrow> err option" where
  "snapshot_refusal p = (if sp_Xnames p = [] then Some ''Xname list is empty. A list of xnames is required'' else None)"

definition patch_refusal :: "PowerCapPatchParameter \<Rightarrow> err option" where
  "patch_refusal p = (if bad_controls p = [] then None else Some (bad_controls_error (bad_controls p)))"

definition status_refusal :: "PowerStatusParameter \<Rightarrow> err option" where
  "status_refusal p = (case snd (ToPowerStateFilter (psp_PowerStateFilter p)) of Some x \<Rightarrow> Some x
     | None \<Rightarrow> (case snd (ToManagementStateFilter (psp_ManagementStateFilter p)) of Some x \<Rightarrow> Some x
     | None \<Rightarrow> (let bad = snd (ValidateCompIDs (psp_Xnames p) True) in
         if bad = [] then None else Some (bad_xnames_error bad))))"

interpretation create_req: checked_request "CreateTransition e mins :: _ \<Rightarrow> ('z, started) io" transition_refusal for e mins
  by unfold_locales
    (auto simp: CreateTransition_def transition_refusal_def ToTransition_def read_parameters_def Let_def run_simps split: prod.splits)

interpretation snapshot_req: checked_request "SnapshotPowerCap_handler e mins :: _ \<Rightarrow> ('z, started) io" snapshot_refusal for e mins
  by unfold_locales
    (auto simp: SnapshotPowerCap_handler_def snapshot_refusal_def read_parameters_def split: if_splits)

interpretation patch_req: checked_request "PatchPowerCap_handler e mins :: _ \<Rightarrow> ('z, started) io" patch_refusal for e mins
  by unfold_locales
    (auto simp: PatchPowerCap_handler_def patch_refusal_def read_parameters_def split: if_splits)

interpretation status_req: checked_request "PostPowerStatus e :: _ \<Rightarrow> ('z, started) io" status_refusal for e
  by unfold_locales
    (auto simp: PostPowerStatus_def doGetPowerStatus_def status_refusal_def read_parameters_def Let_def
      split: if_splits prod.splits option.splits)

text \<open>
  C12: a request that is refused, for want of a readable body or because its parameters are
  wrong, is answered with the error and its status code, starts no worker and leaves the store
  as it is. This holds for the creation of transitions, snapshots and patches and for the query
  of the power status.
\<close>

theorem bad_requests_refused:
  assumes "quiet w"
  shows "(body_error transition_refusal b1 = Some (code, x) \<longrightarrow>
      (\<exists>w'. run_state (CreateTransition e mins b1) w = (answer (BuildErrorPassback code x), w') \<and> kvs w' = kvs w)) \<and>
    (body_error snapshot_refusal b2 = Some (code, x) \<longrightarrow>
      (\<exists>w'. run_state (SnapshotPowerCap_handler e mins b2) w = (answer (BuildErrorPassback code x), w') \<and> kvs w' = kvs w)) \<and>
    (body_error patch_refusal b3 = Some (code, x) \<longrightarrow>
      (\<exists>w'. run_state (PatchPowerCap_handler e mins b3) w = (answer (BuildErrorPassback code x), w') \<and> kvs w' = kvs w)) \<and>
    (body_error status_refusal b4 = Some (code, x) \<longrightarrow>
      (\<exists>w'. run_state (PostPowerStatus e b4) w = (answer (BuildErrorPassback code x), w') \<and> kvs w' = kvs w))"
  by (intro conjI impI; rule create_req.bad_request snapshot_req.bad_request patch_req.bad_request status_req.bad_request;
      (assumption | rule assms))

section \<open>Created transitions\<close>

text \<open>The record that a request for a transition asks for.\<close>

definition new_transition :: "'z world_scheme \<Rightarrow> int \<Rightarrow> TransitionParameter \<Rightarrow> Transition" where
  "new_transition w mins p = fst (ToTransition (w_fresh w (ticks w)) (w_clock w (Suc (ticks w))) (w_clock w (Suc (Suc (ticks w))))
     (w_clock w (Suc (Suc (Suc (ticks w))))) p mins)"

lemma ticks_tick: "ticks (tick w) = Suc (ticks w)"
  by (simp add: tick_def)

lemma new_transition_fields [simp]:
  "tr_TransitionID (new_transition w mins p) = w_fresh w (ticks w)" "tr_Status (new_transition w mins p) = TransitionStatusNew"
  "tr_IsCompressed (new_transition w mins p) = False" "tr_Tasks (new_transition w mins p) = None"
  "tr_TaskIDs (new_transition w mins p) = Some []"
  "tr_Operation (new_transition w mins p) = fst (ToOperationFilter (tpar_Operation p))"
  "tr_TaskCounts (new_transition w mins p) = zero_counts"
  by (simp_all add: new_transition_def ToTransition_def zero_transition_def case_prod_beta)

lemma no_tasks_stored:
  assumes "tr_Tasks t = None"
  shows "stored_form e t = t"
  using assms by (cases t) (simp add: stored_form_def truncateTaskMessagesIfNeeded_def Let_def)

lemma valid_operation_named:
  assumes "snd (ToOperationFilter s) = None"
  shows "\<exists>name. Operation_String (fst (ToOperationFilter s)) = Some name"
  using assms by (auto simp: ToOperationFilter_def Let_def split: if_splits)

text \<open>A transition without tasks, stored and read back by the domain.\<close>

lemma run_create_then_get:
  assumes w: "quiet w" and t: "wf_transition t" "tr_Tasks t = None" "\<not> tr_IsCompressed t" and e: "0 < es_PageSize e"
    and fresh: "pages_of e (tr_TransitionID t) (kvs w) = []" "tasks_of e (tr_TransitionID t) (kvs w) = []"
    and n: "Operation_String (tr_Operation t) = Some name"
  shows "\<exists>w'. run_state (TriggerTransition e t) w =
      (Some (BuildSuccessPassback 200 \<lparr>tc_TransitionID = tr_TransitionID t, tc_Operation = name\<rparr>, [tr_TransitionID t]), w') \<and>
    fst (run_state (domain_GetTransition e (tr_TransitionID t)) w') =
      map_option (BuildSuccessPassback 200) (ToTransitionResp t [] True)"
proof -
  obtain t0 ps where p: "truncateAndPageTransitionIfNeeded e t = (t0, ps)" by fastforce
  obtain w1 where w1: "run_state (StoreTransition e t) w = (None, w1)" "quiet w1"
    "stored_as e (tr_TransitionID t) t0 ps (kvs w1)"
    "kvs w1 = foldl put_page (AList.update (fixUpKey (transition_key (tr_TransitionID t))) (enc_Transition t0) (kvs w)) ps"
    using run_StoreTransition_quiet [OF w t(1) e fresh(1) p] by blast
  have "0 < page_size_for e t" using e by (simp add: page_size_for_def)
  then have j: "foldl add_page t0 ps = t"
    using p t(2) break_add_pages [of "page_size_for e t" e t]
    by (cases rule: truncateAndPage_cases [of e t]) (auto simp: no_tasks_stored)
  obtain w2 f where w2: "run_state (GetTransition e (tr_TransitionID t)) w1 = ((norm_transition t, f, None), w2)"
    "quiet w2" "kvs w2 = kvs w1"
    using run_GetTransition_quiet [OF w1(2,3)] j by auto
  have "tasks_of e (tr_TransitionID t) (kvs w2) = []"
    using fresh(2) by (simp add: w2(3) w1(4) tasks_of_put_pages tasks_of_update real_keys has_prefix_def)
  note tasks = run_no_tasks [OF w2(2) this]
  have norm: "norm_transition t = t" using t(2) by (simp add: norm_transition_def)
  show ?thesis
    using t(3) w1(1) n
    by (auto simp: TriggerTransition_def domain_GetTransition_def w2(1) norm tasks)
qed

text \<open>
  C11: a valid request for a transition, on a store without leftovers of the fresh identifier
  and without interference, is answered with 200, the location of the new transition and
  the name of its operation; exactly one worker is started, for this transition, and a query
  of the location answers 200 with the transition: its identifier and operation, the status
  \<open>new\<close>, no task counted.
\<close>

theorem created_transition_found:
  assumes w: "quiet w" and e: "0 < es_PageSize e" and p: "transition_refusal p = None"
    and u: "u = w_fresh w (ticks w)" "uuid_ok u" "parse u = Inr u"
    and fresh: "pages_of e u (kvs w) = []" "tasks_of e u (kvs w) = []"
  shows "\<exists>w' rs name. run_state (CreateTransition e mins (Body_Params p)) w = (Some (rs, [u]), w') \<and>
    Operation_String (fst (ToOperationFilter (tpar_Operation p))) = Some name \<and>
    rs_StatusCode rs = 200 \<and> rs_Location rs = Some (''../transitions/'' @ u) \<and>
    rs_Content rs = Some (Content_Obj (Obj_TransitionCreation \<lparr>tc_TransitionID = u, tc_Operation = name\<rparr>)) \<and>
    (\<exists>rsp. fst (run_state (GetTransitions parse e [(''transitionID'', u)]) w') =
        answer (BuildSuccessPassback 200 (Obj_TransitionResp rsp)) \<and>
      rsp_TransitionID rsp = u \<and> rsp_Operation rsp = name \<and> rsp_TransitionStatus rsp = TransitionStatusNew \<and>
      rsp_TaskCounts rsp = zero_counts)"
proof -
  let ?t = "new_transition w mins p" and ?w = "tick (tick (tick (tick w)))"
  obtain name where n: "Operation_String (fst (ToOperationFilter (tpar_Operation p))) = Some name"
    using p valid_operation_named by (auto simp: transition_refusal_def)
  have "\<exists>w'. run_state (TriggerTransition e ?t) ?w =
      (Some (BuildSuccessPassback 200 \<lparr>tc_TransitionID = tr_TransitionID ?t, tc_Operation = name\<rparr>, [tr_TransitionID ?t]), w') \<and>
    fst (run_state (domain_GetTransition e (tr_TransitionID ?t)) w') = map_option (BuildSuccessPassback 200) (ToTransitionResp ?t [] True)"
    using w e u fresh n by (intro run_create_then_get) (simp_all add: wf_transition_def)
  then obtain w' where w': "run_state (TriggerTransition e ?t) ?w =
      (Some (BuildSuccessPassback 200 \<lparr>tc_TransitionID = u, tc_Operation = name\<rparr>, [u]), w')"
    "fst (run_state (domain_GetTransition e u) w') = map_option (BuildSuccessPassback 200) (ToTransitionResp ?t [] True)"
    using u(1) by auto
  have nt: "ToTransition (w_fresh w (ticks w)) (w_clock w (Suc (ticks w))) (w_clock w (Suc (Suc (ticks w))))
      (w_clock w (Suc (Suc (Suc (ticks w))))) p mins = (?t, None)"
    using p by (simp add: new_transition_def ToTransition_def transition_refusal_def case_prod_beta)
  let ?rs = "WriteHeadersWithLocation (as_obj Obj_TransitionCreation
      (BuildSuccessPassback 200 \<lparr>tc_TransitionID = u, tc_Operation = name\<rparr>)) (''../transitions/'' @ u)"
  have "run_state (CreateTransition e mins (Body_Params p)) w = (Some (?rs, [u]), w')"
    using w w'(1) nt by (simp add: CreateTransition_def read_parameters_def run_simps BuildSuccessPassback_def ticks_tick)
  moreover obtain rsp where "ToTransitionResp ?t [] True = Some rsp" "rsp_TransitionID rsp = u" "rsp_Operation rsp = name"
    "rsp_TransitionStatus rsp = TransitionStatusNew" "rsp_TaskCounts rsp = zero_counts"
    using n u(1) by (auto simp: ToTransitionResp_def Let_def)
  moreover have "fst (run_state (GetTransitions parse e [(''transitionID'', u)]) w') =
      answer (BuildSuccessPassback 200 (Obj_TransitionResp rsp))"
    using calculation(2) u(3) w'(2)
    by (auto simp: GetTransitions_def with_uuid_def GetUUIDFromVars_def BuildSuccessPassback_def as_obj_def
        Let_def split: prod.splits)
  ultimately show ?thesis
    using n by (auto simp: WriteHeadersWithLocation_def WriteHeaders_def as_obj_def BuildSuccessPassback_def)
qed

section \<open>Created tasks of power capping\<close>

definition ops_of :: "ETCDStorage \<Rightarrow> uuid \<Rightarrow> kvstore \<Rightarrow> kvstore" where
  "ops_of e tid m = (let k = fixUpKey (keySegPowerCapOp @ ''/'' @ tid) in
     filter (\<lambda>(k', v). in_range (es_kvHandle e) (k @ keyMin) (k @ keyMax) k') m)"

lemma ops_of_task: "ops_of e tid (AList.update (fixUpKey (pctask_key u)) v m) = ops_of e tid m"
proof -
  have "fixUpKey (keySegPowerCapOp @ ''/'' @ tid) = ''/pcs/powercapop/'' @ tid"
    by (simp add: fixUpKey_def keySegPowerCapOp_def keyPrefix_def has_prefix_def)
  moreover have "\<not> has_prefix (fixUpKey (pctask_key u)) ''/pcs/powercapop/''"
    by (simp add: fixUpKey_pctask has_prefix_def)
  ultimately show ?thesis
    using in_range_prefix [of "es_kvHandle e" "''/pcs/powercapop/''" "tid @ keyMin" "tid @ keyMax" "fixUpKey (pctask_key u)"]
    unfolding ops_of_def Let_def by (intro filter_update_out) auto
qed

lemma run_no_ops:
  "quiet w \<Longrightarrow> ops_of e tid (kvs w) = [] \<Longrightarrow>
   run_state (GetAllPowerCapOperationsForTask e tid) w = (([], None), tick (tick w))"
  by (simp add: GetAllPowerCapOperationsForTask_def kvRange_def Let_def run_simps ops_of_def)

text \<open>A task that was started, read back by the query.\<close>

definition new_task_resp :: "PowerCapTask \<Rightarrow> PowerCapTaskResp" where
  "new_task_resp t = \<lparr>pr_TaskID = pt_TaskID t, pr_Type = pt_Type t, pr_TaskCreateTime = pt_TaskCreateTime t,
     pr_AutomaticExpirationTime = pt_AutomaticExpirationTime t, pr_TaskStatus = pt_TaskStatus t,
     pr_TaskCounts = zero_pcounts, pr_Components = []\<rparr>"

lemma run_start_then_query:
  assumes w: "quiet w" and t: "wf_pctask t" "\<not> pt_IsCompressed t" and fresh: "ops_of e (pt_TaskID t) (kvs w) = []"
  shows "\<exists>w'. run_state (start_task e t) w = ((BuildSuccessPassback 200 \<lparr>ptc_TaskID = pt_TaskID t\<rparr>, [pt_TaskID t]), w') \<and>
    fst (run_state (GetPowerCapQuery e (pt_TaskID t)) w') = BuildSuccessPassback 200 (new_task_resp t)"
proof -
  let ?w = "(tick w)\<lparr>kvs := AList.update (fixUpKey (pctask_key (pt_TaskID t))) (enc_PcTask t) (kvs w)\<rparr>"
  have s: "run_state (StorePowerCapTask e t) w = (None, ?w)"
    using w by (simp add: StorePowerCapTask_def run_simps)
  have g: "run_state (GetPowerCapTask e (pt_TaskID t)) ?w = (Inr t, tick ?w)"
    using w pctask_codec.dec_enc [OF t(1)] by (simp add: GetPowerCapTask_def run_simps)
  show ?thesis
    using w t(2) fresh
    by (simp add: start_task_def s GetPowerCapQuery_def g run_no_ops ops_of_task buildPowerCapResponse_def
        new_task_resp_def run_simps Let_def)
qed

definition task_created :: "uuid_parser \<Rightarrow> ETCDStorage \<Rightarrow> uuid \<Rightarrow> string \<Rightarrow> ('z, started) io \<Rightarrow> 'z world_scheme \<Rightarrow> bool" where
  "task_created parse e u ty m w \<longleftrightarrow> (\<exists>w' rs rsp. run_state m w = (Some (rs, [u]), w') \<and>
     rs_StatusCode rs = 200 \<and> rs_Location rs = Some (''../power-cap/'' @ u) \<and>
     rs_Content rs = Some (Content_Obj (Obj_PowerCapTaskCreation \<lparr>ptc_TaskID = u\<rparr>)) \<and>
     fst (run_state (GetPowerCapQuery_handler parse e [(''taskID'', u)]) w') =
       answer (BuildSuccessPassback 200 (Obj_PowerCapTaskResp rsp)) \<and>
     pr_TaskID rsp = u \<and> pr_Type rsp = ty \<and> pr_TaskStatus rsp = PowerCapTaskStatusNew \<and>
     pr_TaskCounts rsp = zero_pcounts \<and> pr_Components rsp = [])"

lemma task_createdI:
  assumes run: "run_state (start_task e t) w1 = ((BuildSuccessPassback 200 \<lparr>ptc_TaskID = u\<rparr>, [u]), w')"
    and q: "fst (run_state (GetPowerCapQuery e u) w') = BuildSuccessPassback 200 (new_task_resp t)"
    and m: "run_state m w = run_state (do { r \<leftarrow> start_task e t; State_Monad.return (created_task r) }) w1"
    and t: "pt_TaskID t = u" "pt_Type t = ty" "pt_TaskStatus t = PowerCapTaskStatusNew" and u: "parse u = Inr u"
  shows "task_created parse e u ty m w"
proof -
  have "fst (run_state (GetPowerCapQuery_handler parse e [(''taskID'', u)]) w') =
      answer (BuildSuccessPassback 200 (Obj_PowerCapTaskResp (new_task_resp t)))"
    using q u by (simp add: GetPowerCapQuery_handler_def with_uuid_def GetUUIDFromVars_def as_obj_def
        BuildSuccessPassback_def case_prod_beta)
  with t show ?thesis
    unfolding task_created_def m
    by (simp add: run created_task_def BuildSuccessPassback_def WriteHeadersWithLocation_def WriteHeaders_def as_obj_def)
      (intro exI [of _ "new_task_resp t"], simp add: new_task_resp_def)
qed

lemma task_created_new:
  assumes w: "quiet w" and u: "u = w_fresh w (ticks w)" "uuid_ok u" "parse u = Inr u" and fresh: "ops_of e u (kvs w) = []"
    and m: "\<And>t. \<exists>t'. pt_TaskID t' = pt_TaskID t \<and> pt_Type t' = ty \<and> pt_TaskStatus t' = pt_TaskStatus t \<and>
        pt_OperationIDs t' = pt_OperationIDs t \<and> pt_IsCompressed t' = pt_IsCompressed t \<and>
        k t = do { r \<leftarrow> start_task e t'; State_Monad.return (created_task r) }"
    and h: "h = do { t \<leftarrow> newPowerCapTask mins; k t }"
  shows "task_created parse e u ty h w"
proof -
  obtain t w1 where t: "run_state (newPowerCapTask mins) w = (t, w1)" "quiet w1" "kvs w1 = kvs w" "pt_TaskID t = u"
    "pt_TaskStatus t = PowerCapTaskStatusNew" "pt_OperationIDs t = []" "\<not> pt_IsCompressed t"
    using w u(1) by (auto simp: newPowerCapTask_def run_simps)
  obtain t' where t': "pt_TaskID t' = u" "pt_Type t' = ty" "pt_TaskStatus t' = PowerCapTaskStatusNew" "pt_OperationIDs t' = []"
    "\<not> pt_IsCompressed t'" "k t = do { r \<leftarrow> start_task e t'; State_Monad.return (created_task r) }"
    using m [of t] t by auto
  obtain w' where "run_state (start_task e t') w1 = ((BuildSuccessPassback 200 \<lparr>ptc_TaskID = u\<rparr>, [u]), w')"
    "fst (run_state (GetPowerCapQuery e u) w') = BuildSuccessPassback 200 (new_task_resp t')"
    using run_start_then_query [of w1 t' e] t t' u(2) fresh by (auto simp: wf_pctask_def)
  then show ?thesis
    by (rule task_createdI) (simp_all add: h t(1) t' u(3))
qed

text \<open>
  C17: a valid request for a snapshot or a patch, on a store without leftovers of the fresh
  identifier and without interference, is answered with 200 and the location of the new
  task; exactly one worker is started, for this task, and a query of the location answers 200
  with the new task, its type, and no operation counted.
\<close>

theorem created_powercap_found:
  assumes w: "quiet w" and u: "u = w_fresh w (ticks w)" "uuid_ok u" "parse u = Inr u" and fresh: "ops_of e u (kvs w) = []"
  shows "(snapshot_refusal p = None \<longrightarrow>
      task_created parse e u PowerCapTaskTypeSnapshot (SnapshotPowerCap_handler e mins (Body_Params p)) w) \<and>
    (patch_refusal q = None \<longrightarrow>
      task_created parse e u PowerCapTaskTypePatch (PatchPowerCap_handler e mins (Body_Params q)) w)"
proof (intro conjI impI)
  show "task_created parse e u PowerCapTaskTypeSnapshot (SnapshotPowerCap_handler e mins (Body_Params p)) w"
    if "snapshot_refusal p = None"
    using that
    by (intro task_created_new [OF w u(1,2) _ fresh, where parse = parse and mins = mins and k = "\<lambda>t. do {
          r \<leftarrow> start_task e (t\<lparr>pt_Type := PowerCapTaskTypeSnapshot, pt_SnapshotParameters := Some p\<rparr>);
          State_Monad.return (created_task r) }"] exI conjI)
      (auto simp: u(3) SnapshotPowerCap_handler_def snapshot_refusal_def read_parameters_def SnapshotPowerCap_def
        NewPowerCapSnapshotTask_def split: if_splits)
  show "task_created parse e u PowerCapTaskTypePatch (PatchPowerCap_handler e mins (Body_Params q)) w"
    if "patch_refusal q = None"
    using that
    by (intro task_created_new [OF w u(1,2) _ fresh, where parse = parse and mins = mins and k = "\<lambda>t. do {
          r \<leftarrow> start_task e (t\<lparr>pt_Type := PowerCapTaskTypePatch, pt_PatchParameters := Some q\<rparr>);
          State_Monad.return (created_task r) }"] exI conjI)
      (auto simp: u(3) PatchPowerCap_handler_def patch_refusal_def read_parameters_def PatchPowerCap_def
        NewPowerCapPatchTask_def split: if_splits)
qed

section \<open>Locations\<close>

text \<open>A relative reference is resolved against the path of the request, as RFC 3986 says.\<close>

definition resolve :: "string \<Rightarrow> string \<Rightarrow> string" where
  "resolve base ref = path_clean (rev (dropWhile (\<lambda>c. c \<noteq> CHR ''/'') (rev base)) @ ref)"

lemma split_on_plain: "c \<notin> set s \<Longrightarrow> split_on c s = [s]"
  by (induction s) auto

lemma split_on_ne: "split_on c s \<noteq> []"
  by (cases s) (auto split: list.splits)

lemma split_on_snoc: "c \<notin> set s \<Longrightarrow> split_on c (p @ c # s) = split_on c p @ [s]"
proof (induction p)
  case (Cons a p)
  then show ?case using split_on_ne [of c p] by (cases "split_on c p") auto
qed (simp add: split_on_plain)

definition segment :: "string \<Rightarrow> bool" where
  "segment u \<longleftrightarrow> CHR ''/'' \<notin> set u \<and> u \<noteq> [] \<and> u \<noteq> ''.'' \<and> u \<noteq> ''..''"

lemma uuid_segment:
  assumes "uuid_ok u"
  shows "segment u"
proof -
  have l: "length u = 36" using assms by (simp add: uuid_ok_def)
  have "u ! i \<noteq> CHR ''/''" if "i < 36" for i
  proof -
    have "(i, u ! i) \<in> set (zip [0..<36] u)" using that l by (force simp: in_set_zip)
    then have "if i \<in> {8, 13, 18, 23} then u ! i = CHR ''-'' else is_hex (u ! i)"
      using assms unfolding uuid_ok_def list_all_iff by fastforce
    then show ?thesis by (auto simp: is_hex_def is_digit_def less_eq_char_def split: if_splits)
  qed
  then show ?thesis using l by (auto simp: segment_def in_set_conv_nth)
qed

lemma resolve_eq:
  assumes "segment u"
    and "foldl (clean_step True) [] (split_on (CHR ''/'') (CHR ''/'' # base @ ref)) = segs"
    and "rev (dropWhile (\<lambda>c. c \<noteq> CHR ''/'') (rev path)) = CHR ''/'' # base"
  shows "resolve path (ref @ CHR ''/'' # u) = CHR ''/'' # join ''/'' (segs @ [u])"
proof -
  have "split_on (CHR ''/'') (CHR ''/'' # base @ ref @ CHR ''/'' # u) = split_on (CHR ''/'') (CHR ''/'' # base @ ref) @ [u]"
    using split_on_snoc [of "CHR ''/''" u "CHR ''/'' # base @ ref"] assms(1) by (simp add: segment_def)
  then show ?thesis
    using assms by (simp add: resolve_def path_clean_def Let_def has_prefix_def clean_step_def segment_def)
qed

lemma resolved_locations:
  assumes "segment u"
  shows "resolve ''/transitions'' (''../transitions/'' @ u) = ''/transitions/'' @ u"
    "resolve ''/v1/transitions'' (''../transitions/'' @ u) = ''/transitions/'' @ u"
    "resolve ''/power-cap'' (''../power-cap/'' @ u) = ''/power-cap/'' @ u"
    "resolve ''/v1/power-cap'' (''../power-cap/'' @ u) = ''/power-cap/'' @ u"
    "resolve ''/power-cap/snapshot'' (''../power-cap/'' @ u) = ''/power-cap/'' @ u"
    "resolve ''/v1/power-cap/snapshot'' (''../power-cap/'' @ u) = ''/v1/power-cap/'' @ u"
  using resolve_eq [OF assms, of "[]" "''../transitions''" "[''transitions'']" "''/transitions''"]
    resolve_eq [OF assms, of "''v1/''" "''../transitions''" "[''transitions'']" "''/v1/transitions''"]
    resolve_eq [OF assms, of "[]" "''../power-cap''" "[''power-cap'']" "''/power-cap''"]
    resolve_eq [OF assms, of "''v1/''" "''../power-cap''" "[''power-cap'']" "''/v1/power-cap''"]
    resolve_eq [OF assms, of "''power-cap/''" "''../power-cap''" "[''power-cap'']" "''/power-cap/snapshot''"]
    resolve_eq [OF assms, of "''v1/power-cap/''" "''../power-cap''" "[''v1'', ''power-cap'']" "''/v1/power-cap/snapshot''"]
  by (simp_all add: clean_step_def)

lemma split_segment:
  assumes "segment u"
  shows "split_on (CHR ''/'') (''/transitions/'' @ u) = [[], ''transitions'', u]"
    "split_on (CHR ''/'') (''/power-cap/'' @ u) = [[], ''power-cap'', u]"
    "split_on (CHR ''/'') (''/v1/power-cap/'' @ u) = [[], ''v1'', ''power-cap'', u]"
  using assms split_on_plain [of "CHR ''/''" u] by (simp_all add: segment_def)

text \<open>
  The location of a created transition or power capping task, resolved against the path
  of the request with or without the version prefix, is routed to the handler that reads the
  record, with the identifier as the variable that the handler asks for.
\<close>

lemma locations_routed:
  assumes "uuid_ok u" "(path, location, handler, var) \<in> {
      (''/transitions'', ''../transitions/'', H_GetTransitions, ''transitionID''),
      (''/v1/transitions'', ''../transitions/'', H_GetTransitions, ''transitionID''),
      (''/power-cap'', ''../power-cap/'', H_GetPowerCapQuery, ''taskID''),
      (''/v1/power-cap'', ''../power-cap/'', H_GetPowerCapQuery, ''taskID''),
      (''/power-cap/snapshot'', ''../power-cap/'', H_GetPowerCapQuery, ''taskID''),
      (''/v1/power-cap/snapshot'', ''../power-cap/'', H_GetPowerCapQuery, ''taskID'')}"
  shows "find_route NewRouter ''GET'' (resolve path (location @ u)) = Some (handler, [(var, u)])"
proof -
  note u = uuid_segment [OF assms(1)]
  have ne: "u \<noteq> []" using u by (simp add: segment_def)
  have "find_route NewRouter ''GET'' (''/transitions/'' @ u) = Some (H_GetTransitions, [(''transitionID'', u)])"
    "find_route NewRouter ''GET'' (''/power-cap/'' @ u) = Some (H_GetPowerCapQuery, [(''taskID'', u)])"
    "find_route NewRouter ''GET'' (''/v1/power-cap/'' @ u) = Some (H_GetPowerCapQuery, [(''taskID'', u)])"
    unfolding NewRouter_def routes_def mk_route_def
    by (simp_all add: split_segment [OF u, simplified] var_name_def ne)
  then show ?thesis
    using assms(2) resolved_locations [OF u] by auto
qed

section \<open>Probes\<close>

lemma delete_update_new: "map_of m k = None \<Longrightarrow> AList.delete k (AList.update k v m) = m"
  by (induction m) (auto simp: AList.delete_eq split: if_splits intro!: filter_True)

lemma run_Ping_quiet:
  assumes "quiet w" "map_of (kvs w) (fixUpKey (''/ping/'' @ w_fresh w (ticks w))) = None"
  shows "\<exists>w'. run_state (Ping e) w = (None, w') \<and> kvs w' = kvs w"
  using assms by (simp add: Ping_def run_simps delete_update_new)

definition healthy :: "healthRsp \<Rightarrow> bool" where
  "healthy hr \<longleftrightarrow> hr_KvStore hr = responsive \<and> hr_DistLocking hr = responsive \<and> hr_StateManager hr = responsive \<and>
     (hr_Vault hr = responsive \<or> hr_Vault hr = ''disabled'') \<and> has_prefix (hr_TaskRunner hr) responsive"

text \<open>
  The readiness probe, whose check of the storage writes and deletes a key of its own,
  leaves the store as it was, and it answers 204 exactly when the health report, taken in
  the same situation, calls the storage, the lock, the state manager, the credential store
  (unless it is disabled) and the task launcher responsive; otherwise it answers 503.
\<close>

lemma probes_agree:
  assumes w: "quiet w" "map_of (kvs w) (fixUpKey (''/ping/'' @ w_fresh w (ticks w))) = None"
    and g: "hx_DSP g = Some (Ping e)" "hx_DistLock g = Some (State_Monad.return l)" "hx_HSM g = Some (State_Monad.return h)"
      "hx_CS g = Some c" "hx_RFTloc g = Some (ty, State_Monad.return (alive, terr))"
  shows "\<exists>w' hr rs. run_state (GetReadiness g) w = (Some rs, w') \<and> kvs w' = kvs w \<and>
    rs_Content (fst (run_state (GetHealth g) w)) = Some (Content_Obj (Obj_healthRsp hr)) \<and>
    rs_StatusCode rs = (if healthy hr then 204 else 503)"
proof -
  obtain w1 where "run_state (Ping e) w = (None, w1)" "kvs w1 = kvs w" using run_Ping_quiet [OF w] by blast
  then show ?thesis
    by (simp add: GetReadiness_def bind_check_def check_ping_def check_vault_def check_launcher_def g no_content_def
        GetHealth_def health_ping_def health_launcher_def health_vault_def WriteHeaders_def healthy_def has_prefix_def)
qed

section \<open>Examples\<close>

definition sample_world :: world where
  "sample_world = empty_world\<lparr>w_fresh := (\<lambda>n. sample_uuid n)\<rparr>"

lemma sample_world_facts: "quiet sample_world" "kvs sample_world = []" "w_fresh sample_world (ticks sample_world) = sample_uuid 0"
  "uuid_ok (sample_uuid 0)"
  by (simp add: sample_world_def quiet_def empty_world_def)+ code_simp

definition power_off :: TransitionParameter where
  "power_off = \<lparr>tpar_Operation = ''Off'', tpar_TaskDeadline = None,
     tpar_Location = Some [\<lparr>loc_Xname = ''x0c0s0b0n0'', loc_DeputyKey = []\<rparr>]\<rparr>"

definition cap_node :: "int \<Rightarrow> PowerCapPatchParameter" where
  "cap_node v = \<lparr>pp_Components = [\<lparr>cmp_Xname = ''x0c0s0b0n0'', cmp_Controls = [\<lparr>cp_Name = ''Node Power Limit'', cp_Value = v\<rparr>]\<rparr>]\<rparr>"

theorem bad_requests_refused_witness:
  "\<exists>x w'. run_state (PatchPowerCap_handler sample_etcd 60 (Body_Params (cap_node (-1)))) sample_world =
     (answer (BuildErrorPassback 400 x), w') \<and> kvs w' = []"
proof -
  have "body_error patch_refusal (Body_Params (cap_node (-1))) = Some (400, bad_controls_error [''x0c0s0b0n0''])"
    by (simp add: body_error_def patch_refusal_def bad_controls_def bad_control_def cap_node_def)
  then show ?thesis
    using bad_requests_refused [OF sample_world_facts(1), of Body_None 400 "bad_controls_error [''x0c0s0b0n0'']" sample_etcd 60
        Body_None "Body_Params (cap_node (-1))" Body_None] sample_world_facts(2) by auto
qed

theorem created_transition_found_witness:
  "\<exists>rs w'. run_state (CreateTransition sample_etcd 60 (Body_Params power_off)) sample_world = (Some (rs, [sample_uuid 0]), w') \<and>
     rs_Location rs = Some (''../transitions/'' @ sample_uuid 0)"
proof -
  have "transition_refusal power_off = None" by code_simp
  from created_transition_found [OF sample_world_facts(1) _ this, of sample_etcd "sample_uuid 0" Inr 60] show ?thesis
    using sample_world_facts by (auto simp: pages_of_def tasks_of_def sample_etcd_def)
qed

theorem created_powercap_found_witness:
  "task_created Inr sample_etcd (sample_uuid 0) PowerCapTaskTypePatch
     (PatchPowerCap_handler sample_etcd 60 (Body_Params (cap_node 300))) sample_world"
proof -
  have "patch_refusal (cap_node 300) = None" by code_simp
  then show ?thesis
    using created_powercap_found [OF sample_world_facts(1), of "sample_uuid 0" Inr sample_etcd _ 60 "cap_node 300"]
      sample_world_facts by (simp add: ops_of_def)
qed

lemma locations_routed_example:
  "find_route NewRouter ''GET'' (resolve ''/v1/power-cap/snapshot'' (''../power-cap/'' @ sample_uuid 0)) =
     Some (H_GetPowerCapQuery, [(''taskID'', sample_uuid 0)])"
  by (rule locations_routed [OF sample_world_facts(4)]) simp

definition sample_health :: "unit HealthEnv" where
  "sample_health = \<lparr>hx_DSP = Some (Ping sample_etcd), hx_DistLock = Some (State_Monad.return None),
     hx_HSM = Some (State_Monad.return (Some ''no route to host'')), hx_VaultEnabled = True, hx_CS = Some True,
     hx_RFTloc = Some (''*trs_http_api.TRSHTTPLocal'', State_Monad.return (True, None))\<rparr>"

lemma probes_agree_example:
  "\<exists>w' rs. run_state (GetReadiness sample_health) sample_world = (Some rs, w') \<and> kvs w' = [] \<and> rs_StatusCode rs = 503"
proof -
  obtain w' hr rs where r: "run_state (GetReadiness sample_health) sample_world = (Some rs, w')" "kvs w' = kvs sample_world"
    "rs_Content (fst (run_state (GetHealth sample_health) sample_world)) = Some (Content_Obj (Obj_healthRsp hr))"
    "rs_StatusCode rs = (if healthy hr then 204 else 503)"
    using probes_agree [OF sample_world_facts(1), of sample_health sample_etcd None "Some ''no route to host''" True
        "''*trs_http_api.TRSHTTPLocal''" True None] sample_world_facts(2) by (auto simp: sample_health_def)
  have "hr_StateManager hr = unresponsive"
    using r(3) by (auto simp: GetHealth_def sample_health_def health_ping_def WriteHeaders_def split: prod.splits)
  then have "\<not> healthy hr" by (simp add: healthy_def)
  with r sample_world_facts(2) show ?thesis by auto
qed

end
