(* ===== verification/Providers.thy ===== *)
theory Providers
  imports PowerCapStore
begin

text \<open>
  The interface \<open>StorageProvider\<close> of \<^verbatim>\<open>internal/storage/storage_interface.go\<close> as a record of
  actions (all but \<open>Init\<close>, which makes the storage itself: \<open>ETCDStorage_Init\<close> and
  \<open>MEMStorage_Init\<close> of Storage), its two implementations (the memory storage of \<^verbatim>\<open>storage_mem_impl.go\<close> wraps the
  one for etcd), and what both promise about the tasks of transitions: they implement a map.
\<close>

record 'z StorageProvider =
  sp_Ping :: "('z, err option) io"
  sp_GetPowerStatusMaster :: "('z, err + time) io"
  sp_StorePowerStatusMaster :: "time \<Rightarrow> ('z, err option) io"
  sp_TASPowerStatusMaster :: "time \<Rightarrow> time \<Rightarrow> ('z, bool \<times> err option) io"
  sp_StorePowerStatus :: "PowerStatusComponent \<Rightarrow> ('z, err option) io"
  sp_DeletePowerStatus :: "xname \<Rightarrow> ('z, err option) io"
  sp_GetPowerStatus :: "xname \<Rightarrow> ('z, err + PowerStatusComponent) io"
  sp_GetAllPowerStatus :: "('z, PowerStatusComponent list \<times> err option) io"
  sp_GetPowerStatusHierarchy :: "xname \<Rightarrow> ('z, PowerStatusComponent list \<times> err option) io"
  sp_StorePowerCapTask :: "PowerCapTask \<Rightarrow> ('z, err option) io"
  sp_StorePowerCapOperation :: "PowerCapOperation \<Rightarrow> ('z, err option) io"
  sp_GetPowerCapTask :: "uuid \<Rightarrow> ('z, err + PowerCapTask) io"
  sp_GetPowerCapOperation :: "uuid \<Rightarrow> uuid \<Rightarrow> ('z, err + PowerCapOperation) io"
  sp_GetAllPowerCapOperationsForTask :: "uuid \<Rightarrow> ('z, PowerCapOperation list \<times> err option) io"
  sp_GetAllPowerCapTasks :: "('z, PowerCapTask list \<times> err option) io"
  sp_DeletePowerCapTask :: "uuid \<Rightarrow> ('z, err option) io"
  sp_DeletePowerCapOperation :: "uuid \<Rightarrow> uuid \<Rightarrow> ('z, err option) io"
  sp_StoreTransition :: "Transition \<Rightarrow> ('z, err option) io"
  sp_StoreTransitionTask :: "TransitionTask \<Rightarrow> ('z, err option) io"
  sp_GetTransition :: "uuid \<Rightarrow> ('z, Transition \<times> Transition \<times> err option) io"
  sp_GetTransitionTask :: "uuid \<Rightarrow> uuid \<Rightarrow> ('z, err + TransitionTask) io"
  sp_GetAllTasksForTransition :: "uuid \<Rightarrow> ('z, TransitionTask list \<times> err option) io"
  sp_GetAllTransitions :: "('z, Transition list \<times> err option) io"
  sp_DeleteTransition :: "uuid \<Rightarrow> ('z, err option) io"
  sp_DeleteTransitionTask :: "uuid \<Rightarrow> uuid \<Rightarrow> ('z, err option) io"
  sp_TASTransition :: "Transition \<Rightarrow> Transition \<Rightarrow> ('z, bool \<times> err option) io"

definition ETCDStorage_provider :: "ETCDStorage \<Rightarrow> 'z StorageProvider" where
  "ETCDStorage_provider e = \<lparr>
     sp_Ping = Ping e,
     sp_GetPowerStatusMaster = GetPowerStatusMaster e,
     sp_StorePowerStatusMaster = StorePowerStatusMaster e,
     sp_TASPowerStatusMaster = TASPowerStatusMaster e,
     sp_StorePowerStatus = StorePowerStatus e,
     sp_DeletePowerStatus = DeletePowerStatus e,
     sp_GetPowerStatus = GetPowerStatus e,
     sp_GetAllPowerStatus = GetAllPowerStatus e,
     sp_GetPowerStatusHierarchy = GetPowerStatusHierarchy e,
     sp_StorePowerCapTask = StorePowerCapTask e,
     sp_StorePowerCapOperation = StorePowerCapOperation e,
     sp_GetPowerCapTask = GetPowerCapTask e,
     sp_GetPowerCapOperation = GetPowerCapOperation e,
     sp_GetAllPowerCapOperationsForTask = GetAllPowerCapOperationsForTask e,
     sp_GetAllPowerCapTasks = GetAllPowerCapTasks e,
     sp_DeletePowerCapTask = DeletePowerCapTask e,
     sp_DeletePowerCapOperation = DeletePowerCapOperation e,
     sp_StoreTransition = StoreTransition e,
     sp_StoreTransitionTask = StoreTransitionTask e,
     sp_GetTransition = GetTransition e,
     sp_GetTransitionTask = GetTransitionTask e,
     sp_GetAllTasksForTransition = GetAllTasksForTransition e,
     sp_GetAllTransitions = GetAllTransitions e,
     sp_DeleteTransition = DeleteTransition e,
     sp_DeleteTransitionTask = DeleteTransitionTask e,
     sp_TASTransition = TASTransition e\<rparr>"

text \<open>Every method of the memory storage converts itself and calls the method of the same name.\<close>

definition MEMStorage_provider :: "MEMStorage \<Rightarrow> 'z StorageProvider" where
  "MEMStorage_provider m = \<lparr>
     sp_Ping = Ping (toETCDStorage m),
     sp_GetPowerStatusMaster = GetPowerStatusMaster (toETCDStorage m),
     sp_StorePowerStatusMaster = StorePowerStatusMaster (toETCDStorage m),
     sp_TASPowerStatusMaster = TASPowerStatusMaster (toETCDStorage m),
     sp_StorePowerStatus = StorePowerStatus (toETCDStorage m),
     sp_DeletePowerStatus = DeletePowerStatus (toETCDStorage m),
     sp_GetPowerStatus = GetPowerStatus (toETCDStorage m),
     sp_GetAllPowerStatus = GetAllPowerStatus (toETCDStorage m),
     sp_GetPowerStatusHierarchy = GetPowerStatusHierarchy (toETCDStorage m),
     sp_StorePowerCapTask = StorePowerCapTask (toETCDStorage m),
     sp_StorePowerCapOperation = StorePowerCapOperation (toETCDStorage m),
     sp_GetPowerCapTask = GetPowerCapTask (toETCDStorage m),
     sp_GetPowerCapOperation = GetPowerCapOperation (toETCDStorage m),
     sp_GetAllPowerCapOperationsForTask = GetAllPowerCapOperationsForTask (toETCDStorage m),
     sp_GetAllPowerCapTasks = GetAllPowerCapTasks (toETCDStorage m),
     sp_DeletePowerCapTask = DeletePowerCapTask (toETCDStorage m),
     sp_DeletePowerCapOperation = DeletePowerCapOperation (toETCDStorage m),
     sp_StoreTransition = StoreTransition (toETCDStorage m),
     sp_StoreTransitionTask = StoreTransitionTask (toETCDStorage m),
     sp_GetTransition = GetTransition (toETCDStorage m),
     sp_GetTransitionTask = GetTransitionTask (toETCDStorage m),
     sp_GetAllTasksForTransition = GetAllTasksForTransition (toETCDStorage m),
     sp_GetAllTransitions = GetAllTransitions (toETCDStorage m),
     sp_DeleteTransition = DeleteTransition (toETCDStorage m),
     sp_DeleteTransitionTask = DeleteTransitionTask (toETCDStorage m),
     sp_TASTransition = TASTransition (toETCDStorage m)\<rparr>"

lemmas provider_defs = ETCDStorage_provider_def MEMStorage_provider_def

lemma mem_is_etcd: "MEMStorage_provider m = ETCDStorage_provider (toETCDStorage m)"
  by (simp add: provider_defs)

section \<open>Tasks as a map\<close>

type_synonym task_map = "uuid \<times> uuid \<Rightarrow> TransitionTask option"

text \<open>The map of tasks that a store stands for; an entry that cannot be decoded counts as absent.\<close>

definition task_view :: "kvstore \<Rightarrow> task_map" where
  "task_view m = (\<lambda>(tid, i). if uuid_ok tid \<and> uuid_ok i then Option.bind (map_of m (fixUpKey (task_key tid i))) dec_Task else None)"

definition task_id :: "TransitionTask \<Rightarrow> uuid \<times> uuid" where
  "task_id t = (tt_TransitionID t, tt_TaskID t)"

text \<open>
  What a provider promises: each call is the corresponding operation on the map, in a world
  without interference and errors.
\<close>

locale task_provider =
  fixes P :: "'z StorageProvider"
  assumes store_task: "quiet w \<Longrightarrow> wf_task t \<Longrightarrow> \<exists>w'. run_state (sp_StoreTransitionTask P t) w = (None, w') \<and>
      quiet w' \<and> task_view (kvs w') = (task_view (kvs w))(task_id t \<mapsto> t)"
    and delete_task: "quiet w \<Longrightarrow> uuid_ok tid \<Longrightarrow> uuid_ok i \<Longrightarrow> \<exists>w'. run_state (sp_DeleteTransitionTask P tid i) w = (None, w') \<and>
      quiet w' \<and> task_view (kvs w') = (task_view (kvs w))((tid, i) := None)"
    and get_task: "quiet w \<Longrightarrow> uuid_ok tid \<Longrightarrow> uuid_ok i \<Longrightarrow> \<exists>r w'. run_state (sp_GetTransitionTask P tid i) w = (r, w') \<and>
      quiet w' \<and> kvs w' = kvs w \<and> (case task_view (kvs w) (tid, i) of Some t \<Rightarrow> r = Inr t | None \<Rightarrow> \<exists>err. r = Inl err)"
begin

lemma store_tasks:
  "quiet w \<Longrightarrow> list_all wf_task ts \<Longrightarrow>
   \<exists>w'. run_state (for_each (\<lambda>t. do { _ \<leftarrow> sp_StoreTransitionTask P t; State_Monad.return () }) ts) w = ((), w') \<and>
     quiet w' \<and> task_view (kvs w') = task_view (kvs w) ++ map_of (rev (map (\<lambda>t. (task_id t, t)) ts))"
proof (induction ts arbitrary: w)
  case (Cons t ts)
  obtain w1 where w1: "run_state (sp_StoreTransitionTask P t) w = (None, w1)" "quiet w1"
    "task_view (kvs w1) = (task_view (kvs w))(task_id t \<mapsto> t)"
    using store_task [of w t] Cons.prems by auto
  obtain w2 where w2: "run_state (for_each (\<lambda>t. do { _ \<leftarrow> sp_StoreTransitionTask P t; State_Monad.return () }) ts) w1 = ((), w2)"
    "quiet w2" "task_view (kvs w2) = task_view (kvs w1) ++ map_of (rev (map (\<lambda>t. (task_id t, t)) ts))"
    using Cons.IH [OF w1(2)] Cons.prems(2) by auto
  have "task_view (kvs w2) = task_view (kvs w) ++ map_of (rev (map (\<lambda>t. (task_id t, t)) (t # ts)))"
    unfolding w2(3) w1(3) by (rule ext) (simp add: map_add_def split: option.splits)
  then show ?case using w1(1) w2(1,2) by simp
qed simp

lemma read_back:
  assumes "quiet w" "list_all wf_task ts" "uuid_ok tid" "uuid_ok i"
    and "map_of (rev (map (\<lambda>t. (task_id t, t)) ts)) (tid, i) = Some t"
  shows "fst (run_state (do {
      _ \<leftarrow> for_each (\<lambda>t. do { _ \<leftarrow> sp_StoreTransitionTask P t; State_Monad.return () }) ts;
      sp_GetTransitionTask P tid i }) w) = Inr t"
proof -
  obtain w1 where w1: "run_state (for_each (\<lambda>t. do { _ \<leftarrow> sp_StoreTransitionTask P t; State_Monad.return () }) ts) w = ((), w1)"
    "quiet w1" "task_view (kvs w1) = task_view (kvs w) ++ map_of (rev (map (\<lambda>t. (task_id t, t)) ts))"
    using store_tasks [OF assms(1,2)] by blast
  have "task_view (kvs w1) (tid, i) = Some t" using assms(5) by (simp add: w1(3))
  with get_task [OF w1(2) assms(3,4)] show ?thesis by (auto simp: w1(1))
qed

end

lemma task_key_inj:
  "uuid_ok t \<Longrightarrow> uuid_ok i \<Longrightarrow> uuid_ok t' \<Longrightarrow> uuid_ok i' \<Longrightarrow>
   fixUpKey (task_key t i) = fixUpKey (task_key t' i') \<longleftrightarrow> (t, i) = (t', i')"
  using task_store.key_inj [of "(t, i)" "(t', i')"] by auto

lemma view_store: "wf_task t \<Longrightarrow>
  task_view (AList.update (fixUpKey (task_key (tt_TransitionID t) (tt_TaskID t))) (enc_Task t) m) = (task_view m)(task_id t \<mapsto> t)"
proof (rule ext)
  fix k :: "uuid \<times> uuid" assume t: "wf_task t"
  obtain a b where k: "k = (a, b)" by (cases k)
  show "task_view (AList.update (fixUpKey (task_key (tt_TransitionID t) (tt_TaskID t))) (enc_Task t) m) k =
      ((task_view m)(task_id t \<mapsto> t)) k"
  proof (cases "uuid_ok a \<and> uuid_ok b")
    case True
    then show ?thesis using t task_key_inj [of a b "tt_TransitionID t" "tt_TaskID t"]
      by (simp add: k task_view_def task_id_def wf_task_def update_conv' task_codec.dec_enc)
  next
    case False
    then show ?thesis using t by (auto simp: k task_view_def task_id_def wf_task_def)
  qed
qed

lemma view_delete: "uuid_ok tid \<Longrightarrow> uuid_ok i \<Longrightarrow>
  task_view (AList.delete (fixUpKey (task_key tid i)) m) = (task_view m)((tid, i) := None)"
proof (rule ext)
  fix k :: "uuid \<times> uuid" assume u: "uuid_ok tid" "uuid_ok i"
  obtain a b where k: "k = (a, b)" by (cases k)
  show "task_view (AList.delete (fixUpKey (task_key tid i)) m) k = ((task_view m)((tid, i) := None)) k"
    using u task_key_inj [of a b tid i] by (simp add: k task_view_def delete_conv')
qed

interpretation etcd: task_provider "ETCDStorage_provider e :: 'z StorageProvider" for e
proof
  fix w :: "'z world_scheme" and t :: TransitionTask and tid i :: uuid
  assume w: "quiet w"
  show "\<exists>w'. run_state (sp_StoreTransitionTask (ETCDStorage_provider e) t) w = (None, w') \<and>
      quiet w' \<and> task_view (kvs w') = (task_view (kvs w))(task_id t \<mapsto> t)" if "wf_task t"
    using w view_store [OF that] by (simp add: provider_defs StoreTransitionTask_def run_simps)
  assume u: "uuid_ok tid" "uuid_ok i"
  show "\<exists>w'. run_state (sp_DeleteTransitionTask (ETCDStorage_provider e) tid i) w = (None, w') \<and>
      quiet w' \<and> task_view (kvs w') = (task_view (kvs w))((tid, i) := None)"
    using w view_delete [OF u] by (simp add: provider_defs DeleteTransitionTask_def run_simps)
  show "\<exists>r w'. run_state (sp_GetTransitionTask (ETCDStorage_provider e) tid i) w = (r, w') \<and> quiet w' \<and> kvs w' = kvs w \<and>
      (case task_view (kvs w) (tid, i) of Some t \<Rightarrow> r = Inr t | None \<Rightarrow> \<exists>err. r = Inl err)"
    using w u by (auto simp: provider_defs GetTransitionTask_def run_simps task_view_def split: option.splits)
qed

interpretation mem: task_provider "MEMStorage_provider m :: 'z StorageProvider" for m
  unfolding mem_is_etcd by (rule etcd.task_provider_axioms)

text \<open>
  C32: both storage providers implement a map of tasks: after any sequence of tasks has been
  stored, without interference, a query gives the task that was stored last under the
  identifiers asked for, whichever provider is used.
\<close>

theorem providers_store_tasks:
  assumes "quiet w" "list_all wf_task ts" "uuid_ok tid" "uuid_ok i"
    and "map_of (rev (map (\<lambda>t. (task_id t, t)) ts)) (tid, i) = Some t"
    and "P = ETCDStorage_provider e \<or> P = MEMStorage_provider m"
  shows "fst (run_state (do {
      _ \<leftarrow> for_each (\<lambda>t. do { _ \<leftarrow> sp_StoreTransitionTask P t; State_Monad.return () }) ts;
      sp_GetTransitionTask P tid i }) w) = Inr t"
  using assms(6) etcd.read_back [OF assms(1-5)] mem.read_back [OF assms(1-5)] by blast

section \<open>The memory storage\<close>

text \<open>Calls of the memory store never fail, and it sets a missing key on a test-and-set.\<close>

lemma run_kv_call_mem: "run_state (kv_call Kvs_mem f) w = (Inr (fst (f (kvs (bump w)))), (bump w)\<lparr>kvs := snd (f (kvs (bump w)))\<rparr>)"
  by (simp add: kv_call_def run_step)

lemma mem_stores: "\<exists>w'. run_state (sp_StoreTransitionTask (MEMStorage_provider m) t) w = (None, w')"
  by (simp add: provider_defs StoreTransitionTask_def kvStore_def Kvi_Store_def toETCDStorage_def run_kv_call_mem)

lemma mem_TAS_creates:
  assumes "map_of (kvs (bump w)) (fixUpKey keySegPowerStatusMaster) = None"
  shows "\<exists>w'. run_state (sp_TASPowerStatusMaster (MEMStorage_provider m) t u) w = ((True, None), w') \<and>
    map_of (kvs w') (fixUpKey keySegPowerStatusMaster) = Some (JTime t)"
  using assms
  by (simp add: provider_defs TASPowerStatusMaster_def kvTAS_def Kvi_TAS_def tas_def toETCDStorage_def run_kv_call_mem)

definition sample_mem :: MEMStorage where
  "sample_mem = MEMStorage_Init \<lparr>ms_DisableSizeChecks = False, ms_PageSize = 0, ms_MaxMessageLen = 0, ms_MaxEtcdObjectSize = 0\<rparr>"

theorem providers_store_tasks_witness:
  "fst (run_state (do {
      _ \<leftarrow> for_each (\<lambda>t. do { _ \<leftarrow> sp_StoreTransitionTask (MEMStorage_provider sample_mem) t; State_Monad.return () })
        [sample_task, sample_task\<lparr>tt_Status := ''failed''\<rparr>];
      sp_GetTransitionTask (MEMStorage_provider sample_mem) (tt_TransitionID sample_task) (tt_TaskID sample_task) }) empty_world) =
    Inr (sample_task\<lparr>tt_Status := ''failed''\<rparr>)"
proof (rule providers_store_tasks [OF _ _ _ _ _ disjI2 [OF refl]])
  show "list_all wf_task [sample_task, sample_task\<lparr>tt_Status := ''failed''\<rparr>]"
    "uuid_ok (tt_TransitionID sample_task)" "uuid_ok (tt_TaskID sample_task)" by code_simp+
qed (simp_all add: task_id_def)

end
