(* ===== verification/Startup.thy ===== *)
theory Startup
  imports CredStore StatusMonitor PowerCap
begin

text \<open>
  The start of the service, \<^verbatim>\<open>cmd/hms-power-control/main.go\<close>: flags and environment, the choice
  of the providers and their \<open>Init\<close>, the globals of the domain, and the start of the monitor.
  Flag parsing itself, logging, TLS set-up, connections and the HTTP server are left out; the
  parameters of the certificate library are kept, and what the library makes of them is not;
  a duration is a 64-bit integer, its multiplication by a second wraps around.
\<close>

section \<open>Flags and environment\<close>

record Flags =
  fl_sms_server :: string
  fl_hsmlock_enabled :: bool
  fl_vault_enabled :: bool
  fl_vault_keypath :: string
  fl_cred_cache_duration :: int
  fl_max_num_completed :: int
  fl_expire_time_mins :: int
  fl_etcd_disable_size_checks :: bool
  fl_etcd_page_size :: int
  fl_max_transition_message_length :: int
  fl_etcd_max_object_size :: int

definition default_flags :: Flags where
  "default_flags = \<lparr>fl_sms_server = ''https://api-gw-service-nmn/apis/smd'', fl_hsmlock_enabled = True, fl_vault_enabled = True,
     fl_vault_keypath = ''secret/hms-creds'', fl_cred_cache_duration = 600, fl_max_num_completed = 20000, fl_expire_time_mins = 1440,
     fl_etcd_disable_size_checks = False, fl_etcd_page_size = int DefaultEtcdPageSize,
     fl_max_transition_message_length = int DefaultMaxMessageLen, fl_etcd_max_object_size = int DefaultMaxEtcdObjectSize\<rparr>"

text \<open>\<open>os.Getenv\<close> does not tell an empty variable from one that is not set.\<close>

type_synonym environ = "string \<Rightarrow> string option"

definition Getenv :: "environ \<Rightarrow> string \<Rightarrow> string" where
  "Getenv env key = (case env key of None \<Rightarrow> [] | Some v \<Rightarrow> v)"

text \<open>\<open>strconv.Atoi\<close>: an optional sign and digits, within 64 bits.\<close>

definition Atoi :: "string \<Rightarrow> int option" where
  "Atoi s =
     (let neg = (s \<noteq> [] \<and> hd s = CHR ''-''); signed = (neg \<or> s \<noteq> [] \<and> hd s = CHR ''+'') in
      case atoi_nat (if signed then tl s else s) of
        None \<Rightarrow> None
      | Some n \<Rightarrow> let v = (if neg then - int n else int n) in
          if - (2 ^ 63) \<le> v \<and> v < 2 ^ 63 then Some v else None)"

definition env_int :: "environ \<Rightarrow> string \<Rightarrow> int \<Rightarrow> int" where
  "env_int env key dflt =
     (let envstr = Getenv env key in
      if envstr \<noteq> [] then (case Atoi envstr of None \<Rightarrow> dflt | Some tps \<Rightarrow> tps) else dflt)"

text \<open>\<open>time.Duration(n) * time.Second\<close>.\<close>

definition in_seconds :: "int \<Rightarrow> int" where
  "in_seconds n = signed_take_bit 63 (n * Second)"

section \<open>The task launcher and the certificates\<close>

text \<open>
  Any value but \<^verbatim>\<open>REMOTE\<close> gives the local launcher. Both the client of the controllers and the one of
  the services are of the same kind, and both are made without a chain of trust.
\<close>

datatype TRSImpl = TRSHTTPRemote | TRSHTTPLocal

definition choose_launcher :: "environ \<Rightarrow> TRSImpl" where
  "choose_launcher env = (if Getenv env ''TRS_IMPLEMENTATION'' = ''REMOTE'' then TRSHTTPRemote else TRSHTTPLocal)"

text \<open>The parameters of the certificate library that \<open>main\<close> writes; their defaults are those of the library.\<close>

record CertParams =
  cp_VaultPKIBase :: string
  cp_PKIPath :: string
  cp_CAChainPath :: string
  cp_LogInsecureFailover :: bool

definition ConfigParams :: CertParams where
  "ConfigParams = \<lparr>cp_VaultPKIBase = ''pki_common'', cp_PKIPath = ''issue/pki-common'', cp_CAChainPath = ''ca_chain'',
     cp_LogInsecureFailover = True\<rparr>"

definition env_string :: "environ \<Rightarrow> string \<Rightarrow> string \<Rightarrow> string" where
  "env_string env key dflt = (let envstr = Getenv env key in if envstr \<noteq> [] then envstr else dflt)"

text \<open>\<open>strconv.ParseBool\<close>.\<close>

definition ParseBool :: "string \<Rightarrow> err + bool" where
  "ParseBool str =
     (if str \<in> {''1'', ''t'', ''T'', ''true'', ''TRUE'', ''True''} then Inr True
      else if str \<in> {''0'', ''f'', ''F'', ''false'', ''FALSE'', ''False''} then Inr False
      else Inl ''invalid syntax'')"

text \<open>The error of the parser is dropped: what it does not know counts as false and silences the log.\<close>

definition cert_params :: "environ \<Rightarrow> CertParams \<Rightarrow> CertParams" where
  "cert_params env c =
     (let envstr = Getenv env ''PCS_LOG_INSECURE_FAILOVER'';
          yn = (case ParseBool envstr of Inl _ \<Rightarrow> False | Inr b \<Rightarrow> b) in
      \<lparr>cp_VaultPKIBase = env_string env ''PCS_VAULT_PKI_BASE'' (cp_VaultPKIBase c),
       cp_PKIPath = env_string env ''PCS_VAULT_PKI_PATH'' (cp_PKIPath c),
       cp_CAChainPath = env_string env ''PCS_VAULT_CA_CHAIN_PATH'' (cp_CAChainPath c),
       cp_LogInsecureFailover = (if envstr \<noteq> [] \<and> \<not> yn then False else cp_LogInsecureFailover c)\<rparr>)"

section \<open>Providers\<close>

datatype StorageKind = MEM MEMStorage | ETCD ETCDStorage
datatype LockKind = MEMLock | ETCDLock

definition storage_of :: "StorageKind \<Rightarrow> ETCDStorage" where
  "storage_of p = (case p of MEM m \<Rightarrow> toETCDStorage m | ETCD e \<Rightarrow> e)"

text \<open>The choice by \<open>STORAGE\<close>, after \<open>Init\<close>; with any other value both handles stay nil and \<open>Init\<close> panics.\<close>

definition choose_storage :: "Flags \<Rightarrow> string \<Rightarrow> (StorageKind \<times> LockKind) option" where
  "choose_storage fl envstr =
     (if envstr = [] \<or> envstr = ''MEMORY'' then
        Some (MEM (MEMStorage_Init \<lparr>ms_DisableSizeChecks = fl_etcd_disable_size_checks fl, ms_PageSize = fl_etcd_page_size fl,
          ms_MaxMessageLen = fl_max_transition_message_length fl, ms_MaxEtcdObjectSize = fl_etcd_max_object_size fl\<rparr>), MEMLock)
      else if envstr = ''ETCD'' then
        Some (ETCD (ETCDStorage_Init (fl_etcd_disable_size_checks fl) (fl_etcd_page_size fl)
          (fl_max_transition_message_length fl) (fl_etcd_max_object_size fl)), ETCDLock)
      else None)"

record HSM_GLOBALS =
  hg_SvcName :: string
  hg_Reservation :: "string option"
  hg_LockEnabled :: bool
  hg_SMUrl :: string
  hg_SVCHttpClient :: bool
  hg_MaxComponentQuery :: int

definition HSM_MAX_COMPONENT_QUERY :: int where
  "HSM_MAX_COMPONENT_QUERY = 2000"

text \<open>\<open>Init\<close> of the HSM client: the fields are set whatever the result. The reservation library is named by its service.\<close>

definition HSMv2_Init :: "HSM_GLOBALS \<Rightarrow> HSM_GLOBALS \<times> err option" where
  "HSMv2_Init globals =
     (let svcName = (if hg_SvcName globals = [] then ''PCS'' else hg_SvcName globals);
          g1 = (if hg_LockEnabled globals then globals\<lparr>hg_Reservation := Some svcName\<rparr> else globals);
          g2 = (if hg_MaxComponentQuery g1 = 0 then g1\<lparr>hg_MaxComponentQuery := HSM_MAX_COMPONENT_QUERY\<rparr> else g1)
      in (g2, if \<not> hg_SVCHttpClient g2 then Some ''ERROR: no microservice HTTP client is present.''
              else if hg_SMUrl g2 = [] then Some ''ERROR: no State Manager base URL is present.''
              else None))"

text \<open>\<open>Ping\<close>: the request cannot be built or sent; the status of the answer is not looked at.\<close>

definition HSM_Ping :: "(string \<Rightarrow> err option) \<Rightarrow> (string \<Rightarrow> ('z, err option) io) \<Rightarrow> HSM_GLOBALS \<Rightarrow> ('z, err option) io" where
  "HSM_Ping newRequest do_request b =
     (let finalURL = hg_SMUrl b @ ''/hsm/v2/service/liveness'' in
      case newRequest finalURL of Some err \<Rightarrow> State_Monad.return (Some err) | None \<Rightarrow> do_request finalURL)"

section \<open>The service\<close>

record DOMAIN_GLOBALS =
  dg_DSP :: StorageKind
  dg_HSM :: HSM_GLOBALS
  dg_VaultEnabled :: bool
  dg_CS :: VAULTv0
  dg_DistLock :: LockKind
  dg_MaxNumCompleted :: int
  dg_ExpireTimeMins :: int
  dg_PodName :: string
  dg_BaseTRSTaskServiceName :: string
  dg_BaseTRSTaskTimeout :: int
  dg_RFTloc :: TRSImpl

record Service =
  sv_Globals :: DOMAIN_GLOBALS
  sv_MonitorErr :: "err option"
  sv_distLockMaxTime :: int
  sv_pmSampleInterval :: int
  sv_statusTimeout :: int
  sv_httpRetries :: int
  sv_maxIdleConns :: int
  sv_maxIdleConnsPerHost :: int
  sv_caURI :: string
  sv_ConfigParams :: CertParams

text \<open>
  The first part of \<open>main\<close>: the configuration and the globals of the domain. \<open>inst\<close> and
  \<open>hostname\<close> are what the operating system gives, \<open>running\<close> and \<open>connects\<close> the rounds of the
  connection to Vault. \<open>None\<close> is a start that panics or waits for Vault for ever. The errors of
  the \<open>Init\<close> of storage, lock and HSM client are dropped, as in the source.
\<close>

definition configure :: "Flags \<Rightarrow> environ \<Rightarrow> err + string \<Rightarrow> err + string \<Rightarrow> (nat \<Rightarrow> bool) \<Rightarrow> (nat \<Rightarrow> bool) \<Rightarrow> DOMAIN_GLOBALS option" where
  "configure fl env inst hostname running connects = do {
     let serviceName = (case inst of Inl _ \<Rightarrow> ''PCS'' | Inr s \<Rightarrow> s);
     let baseTrsTaskTimeout = env_int env ''PCS_BASE_TRS_TASK_TIMEOUT'' 40;
     (dsp, dlock) \<leftarrow> choose_storage fl (Getenv env ''STORAGE'');
     let hsm = fst (HSMv2_Init \<lparr>hg_SvcName = serviceName, hg_Reservation = None, hg_LockEnabled = fl_hsmlock_enabled fl,
       hg_SMUrl = fl_sms_server fl, hg_SVCHttpClient = True, hg_MaxComponentQuery = 0\<rparr>);
     cs \<leftarrow> (if fl_vault_enabled fl then VAULTv0_Init running connects (fl_cred_cache_duration fl)
       else Some \<lparr>va_CredCacheDuration = 0, va_credStoreReady = False, va_credsCacheMap = []\<rparr>);
     let podName = (case hostname of Inl _ \<Rightarrow> ''unknown_pod_name'' | Inr s \<Rightarrow> s);
     Some \<lparr>dg_DSP = dsp, dg_HSM = hsm, dg_VaultEnabled = fl_vault_enabled fl, dg_CS = cs, dg_DistLock = dlock,
       dg_MaxNumCompleted = fl_max_num_completed fl, dg_ExpireTimeMins = fl_expire_time_mins fl, dg_PodName = podName,
       dg_BaseTRSTaskServiceName = serviceName, dg_BaseTRSTaskTimeout = in_seconds baseTrsTaskTimeout,
       dg_RFTloc = choose_launcher env\<rparr> }"

text \<open>The second part: the intervals, and the start of the monitor, whose error is dropped too.\<close>

definition start_monitor :: "environ \<Rightarrow> DOMAIN_GLOBALS \<Rightarrow> Service" where
  "start_monitor env globals =
     (let pwrSampleInterval = env_int env ''PCS_POWER_SAMPLE_INTERVAL'' 30;
          dlockTimeout = env_int env ''PCS_DISTLOCK_TIMEOUT'' 60;
          statusTimeout = env_int env ''PCS_STATUS_TIMEOUT'' 30;
          statusHttpRetries = env_int env ''PCS_STATUS_HTTP_RETRIES'' 3;
          maxIdleConns = env_int env ''PCS_MAX_IDLE_CONNS'' 4000;
          maxIdleConnsPerHost = env_int env ''PCS_MAX_IDLE_CONNS_PER_HOST'' 4
      in \<lparr>sv_Globals = globals,
       sv_MonitorErr = PowerStatusMonitorInit \<lparr>mg_HSM = True, mg_DSP = True, mg_CS = True, mg_VaultEnabled = dg_VaultEnabled globals,
         mg_DistLock = True, mg_RFTloc = True\<rparr> (in_seconds dlockTimeout) (in_seconds pwrSampleInterval),
       sv_distLockMaxTime = in_seconds dlockTimeout, sv_pmSampleInterval = in_seconds pwrSampleInterval,
       sv_statusTimeout = statusTimeout, sv_httpRetries = statusHttpRetries, sv_maxIdleConns = maxIdleConns,
       sv_maxIdleConnsPerHost = maxIdleConnsPerHost,
       sv_caURI = Getenv env ''PCS_CA_URI'', sv_ConfigParams = cert_params env ConfigParams\<rparr>)"

definition main :: "Flags \<Rightarrow> environ \<Rightarrow> err + string \<Rightarrow> err + string \<Rightarrow> (nat \<Rightarrow> bool) \<Rightarrow> (nat \<Rightarrow> bool) \<Rightarrow> Service option" where
  "main fl env inst hostname running connects =
     map_option (start_monitor env) (configure fl env inst hostname running connects)"

text \<open>One tick of \<open>StartRecordsReaper\<close>; the workers that the reaper of transitions restarts are the result.\<close>

definition records_reaper_tick :: "ETCDStorage \<Rightarrow> int \<Rightarrow> ('z, uuid list option) io" where
  "records_reaper_tick e maxNumCompleted = do {
     r \<leftarrow> transitionsReaper e maxNumCompleted;
     case r of None \<Rightarrow> State_Monad.return None
     | Some started \<Rightarrow> do {
         p \<leftarrow> powerCapReaper e maxNumCompleted;
         State_Monad.return (map_option (\<lambda>_. started) p) } }"

section \<open>What a start gives\<close>

definition monitor_runs :: "Service \<Rightarrow> bool" where
  "monitor_runs s \<longleftrightarrow> sv_MonitorErr s = None"

lemma in_seconds_exact: "\<bar>n\<bar> \<le> 9223372036 \<Longrightarrow> in_seconds n = n * Second"
  unfolding in_seconds_def by (rule signed_take_bit_int_eq_self) simp_all

lemma storage_chosen: "choose_storage fl v \<noteq> None \<longleftrightarrow> v \<in> {[], ''MEMORY'', ''ETCD''}"
  by (simp add: choose_storage_def)

lemma page_size_chosen:
  assumes "choose_storage fl v = Some (p, l)" "v = ''ETCD'' \<or> 0 \<le> fl_etcd_page_size fl"
  shows "0 < es_PageSize (storage_of p)"
  using assms
  by (auto simp: choose_storage_def storage_of_def toETCDStorage_def MEMStorage_Init_def ETCDStorage_Init_def
      DefaultEtcdPageSize_def split: if_splits)


section \<open>Examples\<close>

definition no_sampling :: environ where
  "no_sampling key = (if key = ''STORAGE'' then Some ''ETCD'' else if key = ''PCS_POWER_SAMPLE_INTERVAL'' then Some ''0'' else None)"

lemma no_sampling_read: "Getenv no_sampling ''STORAGE'' = ''ETCD''" "env_int no_sampling ''PCS_POWER_SAMPLE_INTERVAL'' 30 = 0"
  "env_int no_sampling ''PCS_DISTLOCK_TIMEOUT'' 60 = 60"
  by (simp_all add: no_sampling_def Getenv_def env_int_def Atoi_def atoi_nat_def is_digit_def digits_val_def less_eq_char_def)

text \<open>
  The log of insecure connections stays on exactly when its variable is unset or spells true; any
  other word silences it, among them those that are meant to switch it on.
\<close>

lemma failover_log:
  "cp_LogInsecureFailover (cert_params env c) \<longleftrightarrow> cp_LogInsecureFailover c \<and>
    Getenv env ''PCS_LOG_INSECURE_FAILOVER'' \<in> {[], ''1'', ''t'', ''T'', ''true'', ''TRUE'', ''True''}"
  by (auto simp: cert_params_def ParseBool_def Let_def)

lemma failover_log_example:
  "\<not> cp_LogInsecureFailover (cert_params ((\<lambda>_. None)(''PCS_LOG_INSECURE_FAILOVER'' \<mapsto> ''yes'')) ConfigParams)"
  by (simp add: failover_log Getenv_def)

text \<open>A number too large for the type is refused; one that fits may still wrap around as a duration.\<close>

lemma too_large: "Atoi ''9223372036854775808'' = None" "in_seconds 9223372037 < 0"
  by (simp_all add: Atoi_def atoi_nat_def is_digit_def digits_val_def less_eq_char_def in_seconds_def signed_take_bit_eq_take_bit_shift)


end
