(* ===== verification/Connections.thy ===== *)
theory Connections
  imports Startup MasterElection
begin

text \<open>
  What the service connects to: the opening of the store and of the lock by their \<open>Init\<close>
  (\<^verbatim>\<open>storage_etcd_impl.go\<close>, \<^verbatim>\<open>storage_mem_impl.go\<close>, \<^verbatim>\<open>distlock_*_impl.go\<close>), the two
  lock providers as instances of \<open>DistributedLockProvider\<close>, and the goroutine of
  \<^verbatim>\<open>main.go\<close> that reloads the chain of trust for Redfish, with the vendored functions
  \<open>SetSecurity\<close> and \<open>NewlineToTuple\<close>. Dialling etcd, fetching the chain and making
  the HTTP clients are parameters, given as the outcome of each attempt.
\<close>

section \<open>Opening the store\<close>

definition kvRetriesDefault :: nat where
  "kvRetriesDefault = 5"

definition kvUrlMemDefault :: string where
  "kvUrlMemDefault = ''mem:''"

text \<open>
  The vendored \<open>Open\<close>: the part of the address before the first colon chooses the
  implementation; only etcd can fail. \<open>dial\<close> is the outcome of making the client.
\<close>

definition Open :: "(string \<Rightarrow> err option) \<Rightarrow> string \<Rightarrow> err + kvi" where
  "Open dial endpoint =
     (if takeWhile (\<lambda>c. c \<noteq> CHR '':'') endpoint = ''mem'' then Inr Kvs_mem
      else case dial endpoint of Some err \<Rightarrow> Inl err | None \<Rightarrow> Inr Kvs_etcd)"

text \<open>The loop over the attempts, \<open>dial ix\<close> being the outcome of attempt \<open>ix\<close>.\<close>

function open_loop :: "(nat \<Rightarrow> string \<Rightarrow> err option) \<Rightarrow> string \<Rightarrow> nat \<Rightarrow> nat \<Rightarrow> kvi option" where
  "open_loop dial url retries ix =
     (if ix \<le> retries then
        (case Open (dial ix) url of
           Inl _ \<Rightarrow> open_loop dial url retries (Suc ix)
         | Inr h \<Rightarrow> Some h)
      else None)"
  by auto
termination by (relation "measure (\<lambda>(_, _, retries, ix). Suc retries - ix)") auto

declare open_loop.simps [simp del]

text \<open>The handle (\<open>None\<close> is nil) and the error of \<open>Init\<close>; the lock for etcd has the same code.\<close>

definition etcd_connect :: "environ \<Rightarrow> (nat \<Rightarrow> string \<Rightarrow> err option) \<Rightarrow> kvi option \<times> err option" where
  "etcd_connect env dial =
     (case env ''ETCD_HOST'' of
        None \<Rightarrow> (None, Some ''No ETCD HOST specified, can't open ETCD.'')
      | Some host \<Rightarrow>
          (case env ''ETCD_PORT'' of
             None \<Rightarrow> (None, Some ''No ETCD PORT specified, can't open ETCD.'')
           | Some port \<Rightarrow>
               (let kvURL = ''http://'' @ host @ '':'' @ port in
                case open_loop dial kvURL kvRetriesDefault 1 of
                  None \<Rightarrow> (None, Some ''ETCD connection attempts exhausted, can't connect.'')
                | Some h \<Rightarrow> (Some h, None))))"

definition mem_connect :: "(string \<Rightarrow> err option) \<Rightarrow> kvi option \<times> err option" where
  "mem_connect dial =
     (case Open dial kvUrlMemDefault of
        Inl kverr \<Rightarrow> (None, Some (''ERROR opening KV memory storage: '' @ kverr))
      | Inr h \<Rightarrow> (Some h, None))"

definition connect :: "environ \<Rightarrow> (nat \<Rightarrow> string \<Rightarrow> err option) \<Rightarrow> StorageKind \<Rightarrow> kvi option \<times> err option" where
  "connect env dial p = (case p of MEM _ \<Rightarrow> mem_connect (dial 1) | ETCD _ \<Rightarrow> etcd_connect env dial)"

lemma Open_http: "Open dial (''http://'' @ u) = (case dial (''http://'' @ u) of Some err \<Rightarrow> Inl err | None \<Rightarrow> Inr Kvs_etcd)"
  by (simp add: Open_def)

lemma open_loop_fails: "(\<forall>i. ix \<le> i \<and> i \<le> n \<longrightarrow> (\<exists>err. Open (dial i) u = Inl err)) \<longleftrightarrow> open_loop dial u n ix = None"
proof (induction dial u n ix rule: open_loop.induct)
  case (1 dial u n ix)
  show ?case
  proof (cases "ix \<le> n")
    case True
    have *: "(\<forall>i. ix \<le> i \<and> i \<le> n \<longrightarrow> P i) \<longleftrightarrow> P ix \<and> (\<forall>i. Suc ix \<le> i \<and> i \<le> n \<longrightarrow> P i)" for P
      using True by (metis Suc_leD Suc_leI le_neq_implies_less order_refl)
    show ?thesis using 1 True by (subst open_loop.simps, subst *) (auto split: sum.splits)
  qed (subst open_loop.simps, auto)
qed

lemma open_loop_http: "open_loop dial (''http://'' @ u) n ix \<in> {None, Some Kvs_etcd}"
proof (induction "Suc n - ix" arbitrary: ix)
  case 0
  then show ?case by (subst open_loop.simps) simp
next
  case (Suc k)
  have "open_loop dial (''http://'' @ u) n (Suc ix) \<in> {None, Some Kvs_etcd}" by (rule Suc.hyps(1)) (use Suc.hyps(2) in arith)
  then show ?case by (subst open_loop.simps) (auto simp only: Open_http split: option.splits sum.splits if_splits)
qed

text \<open>A store in memory always opens.\<close>

lemma mem_connects: "mem_connect dial = (Some Kvs_mem, None)"
  by (simp add: mem_connect_def Open_def kvUrlMemDefault_def)

text \<open>
  \<open>Init\<close> gives the handle that the storage is modelled with, or an error and no handle.
  With etcd it fails exactly if the address is not set or all five attempts fail.
\<close>

lemma etcd_connect_cases: "etcd_connect env dial = (Some Kvs_etcd, None) \<or> (\<exists>err. etcd_connect env dial = (None, Some err))"
proof -
  have "open_loop dial (''http://'' @ host @ '':'' @ port) kvRetriesDefault 1 = Some h \<Longrightarrow> h = Kvs_etcd" for host port h
    using open_loop_http [of dial "host @ '':'' @ port" kvRetriesDefault 1] by (auto simp only:)
  then show ?thesis unfolding etcd_connect_def Let_def by (auto simp only: split: option.splits)
qed

lemma connect_handle:
  assumes "choose_storage fl v = Some (p, l)"
  shows "connect env dial p \<in> {(Some (es_kvHandle (storage_of p)), None)} \<union> {(None, Some err) | err. True}"
  using assms etcd_connect_cases [of env dial]
  by (auto simp: choose_storage_def connect_def storage_of_def toETCDStorage_def ETCDStorage_Init_def mem_connects
      simp del: fun_upd_apply split: if_splits)

lemma etcd_connect_fails:
  "fst (etcd_connect env dial) = None \<longleftrightarrow>
   env ''ETCD_HOST'' = None \<or> env ''ETCD_PORT'' = None \<or>
   (\<exists>host port. env ''ETCD_HOST'' = Some host \<and> env ''ETCD_PORT'' = Some port \<and>
      (\<forall>i. 1 \<le> i \<and> i \<le> 5 \<longrightarrow> dial i (''http://'' @ host @ '':'' @ port) \<noteq> None))"
proof -
  have "(\<forall>i. 1 \<le> i \<and> i \<le> 5 \<longrightarrow> dial i (''http://'' @ u) \<noteq> None) \<longleftrightarrow>
      open_loop dial (''http://'' @ u) kvRetriesDefault 1 = None" for u
    unfolding open_loop_fails [symmetric] kvRetriesDefault_def Open_http by (auto split: option.splits)
  then show ?thesis by (auto simp: etcd_connect_def Let_def split: option.splits)
qed

text \<open>\<open>main\<close> drops the error of \<open>Init\<close>: the service starts on a handle that is nil.\<close>

lemma starts_without_store:
  assumes "main fl env inst hostname running connects = Some s" "Getenv env ''STORAGE'' = ''ETCD''" "env ''ETCD_HOST'' = None"
  shows "fst (connect env dial (dg_DSP (sv_Globals s))) = None"
proof -
  obtain g where g: "configure fl env inst hostname running connects = Some g" "s = start_monitor env g"
    using assms(1) by (auto simp: main_def)
  then obtain l where "choose_storage fl ''ETCD'' = Some (dg_DSP g, l)"
    using assms(2) unfolding configure_def by (auto simp: Let_def split: Option.bind_splits)
  then show ?thesis
    using assms(3) unfolding g(2) start_monitor_def Let_def
    by (auto simp: choose_storage_def connect_def etcd_connect_def split: StorageKind.split)
qed

section \<open>The lock providers\<close>

definition toStorageETCD :: "kvi \<Rightarrow> ETCDStorage" where
  "toStorageETCD h = \<lparr>es_DisableSizeChecks = False, es_PageSize = 0, es_MaxMessageLen = 0, es_MaxEtcdObjectSize = 0, es_kvHandle = h\<rparr>"

definition toStorageMEM :: MEMStorage where
  "toStorageMEM = \<lparr>ms_DisableSizeChecks = False, ms_PageSize = 0, ms_MaxMessageLen = 0, ms_MaxEtcdObjectSize = 0\<rparr>"

definition GetDuration :: "LockProvider \<Rightarrow> int" where
  "GetDuration d = lp_Duration d"

record 'z DistributedLockProvider =
  dl_Ping :: "('z, err option) io"
  dl_GetDuration :: "LockProvider \<Rightarrow> int"
  dl_DistributedTimedLock :: "int \<Rightarrow> LockProvider \<Rightarrow> ('z, err option \<times> LockProvider) io"
  dl_Unlock :: "LockProvider \<Rightarrow> ('z, err option \<times> LockProvider) io"

definition ETCDLockProvider :: "kvi \<Rightarrow> 'z KvLock \<Rightarrow> 'z DistributedLockProvider" where
  "ETCDLockProvider h kl =
     \<lparr>dl_Ping = Ping (toStorageETCD h), dl_GetDuration = GetDuration,
      dl_DistributedTimedLock = ETCD_DistributedTimedLock kl, dl_Unlock = ETCD_Unlock kl\<rparr>"

definition MEMLockProvider :: "'z KvLock \<Rightarrow> 'z DistributedLockProvider" where
  "MEMLockProvider kl =
     \<lparr>dl_Ping = Ping (toETCDStorage toStorageMEM), dl_GetDuration = GetDuration,
      dl_DistributedTimedLock = MEM_DistributedTimedLock kl, dl_Unlock = MEM_Unlock kl\<rparr>"

text \<open>\<open>Init\<close>: the code for etcd is that of the storage, repeated; \<open>None\<close> is a nil handle.\<close>

definition ETCDLockProvider_Init :: "environ \<Rightarrow> (nat \<Rightarrow> string \<Rightarrow> err option) \<Rightarrow> 'z KvLock \<Rightarrow> 'z DistributedLockProvider option \<times> err option" where
  "ETCDLockProvider_Init env dial kl =
     (let (h, err) = etcd_connect env dial in (map_option (\<lambda>h. ETCDLockProvider h kl) h, err))"

definition MEMLockProvider_Init :: "(string \<Rightarrow> err option) \<Rightarrow> 'z KvLock \<Rightarrow> 'z DistributedLockProvider option \<times> err option" where
  "MEMLockProvider_Init dial kl =
     (case Open dial kvUrlMemDefault of
        Inl kverr \<Rightarrow> (None, Some (''ERROR opening KV memory storage: '' @ kverr))
      | Inr h \<Rightarrow> (Some (MEMLockProvider kl), None))"

text \<open>\<open>InitFromStorage\<close> shares the handle of a storage that is open.\<close>

definition ETCD_InitFromStorage :: "'z KvLock \<Rightarrow> ETCDStorage \<Rightarrow> 'z DistributedLockProvider" where
  "ETCD_InitFromStorage kl ms = ETCDLockProvider (es_kvHandle ms) kl"

definition MEM_InitFromStorage :: "'z KvLock \<Rightarrow> MEMStorage \<Rightarrow> 'z DistributedLockProvider" where
  "MEM_InitFromStorage kl ms = MEMLockProvider kl"

lemmas lock_defs = ETCDLockProvider_def MEMLockProvider_def GetDuration_def ETCD_DistributedTimedLock_def
  MEM_DistributedTimedLock_def ETCD_Unlock_def MEM_Unlock_def

text \<open>
  What both promise: a lock that is granted is reported with its duration, one that is too
  short is refused before the client is asked, and after \<open>Unlock\<close> no duration is left.
\<close>

locale lock_provider =
  fixes L :: "'z DistributedLockProvider"
  assumes granted: "run_state (dl_DistributedTimedLock L t d) w = ((None, d'), w') \<Longrightarrow> dl_GetDuration L d' = t"
    and too_short: "t < 1 \<Longrightarrow> \<exists>err. run_state (dl_DistributedTimedLock L t d) w = ((Some err, d), w)"
    and released: "run_state (dl_Unlock L d) w = ((r, d'), w') \<Longrightarrow> dl_GetDuration L d' = 0"
begin

lemma granted_positive:
  assumes "run_state (dl_DistributedTimedLock L t d) w = ((None, d'), w')"
  shows "0 < dl_GetDuration L d'"
  using granted [OF assms] too_short [of t d w] assms by (cases "t < 1") auto

lemma lock_unlock: "run_state (do { (_, d1) \<leftarrow> dl_DistributedTimedLock L t d; (_, d2) \<leftarrow> dl_Unlock L d1;
    State_Monad.return (dl_GetDuration L d2) }) w = (n, w') \<Longrightarrow> n = 0"
  by (auto simp: State_Monad.bind_def split: prod.splits dest: released)

end

interpretation etcd_lock: lock_provider "ETCDLockProvider h kl" for h kl
  by unfold_locales (auto simp: lock_defs State_Monad.bind_def State_Monad.return_def split: if_splits prod.splits)

interpretation mem_lock: lock_provider "MEMLockProvider kl" for kl
  by unfold_locales (auto simp: lock_defs State_Monad.bind_def State_Monad.return_def split: if_splits prod.splits)

text \<open>An initialised lock comes without an error, and one that is not has an error.\<close>

lemma lock_Init: "fst (ETCDLockProvider_Init env dial kl) = None \<longleftrightarrow> snd (ETCDLockProvider_Init env dial kl) \<noteq> None"
  "MEMLockProvider_Init d kl = (Some (MEMLockProvider kl), None)"
  using etcd_connect_cases [of env dial]
  by (auto simp: ETCDLockProvider_Init_def MEMLockProvider_Init_def Open_def kvUrlMemDefault_def)

text \<open>A lock that shares the handle of a storage is alive when the storage is.\<close>

lemma Ping_handle:
  assumes "es_kvHandle e = es_kvHandle e'"
  shows "Ping e = (Ping e' :: ('z, err option) io)"
proof -
  have d: "kvDelete e = (kvDelete e' :: string \<Rightarrow> ('z, err option) io)"
    by (intro ext) (simp add: kvDelete_def assms)
  have s: "kvStore e = (kvStore e' :: string \<Rightarrow> json \<Rightarrow> ('z, err option) io)"
    by (intro ext) (simp add: kvStore_def assms)
  show ?thesis unfolding Ping_def d s ..
qed

lemma shared_ping: "dl_Ping (ETCD_InitFromStorage kl e) = Ping e" "dl_Ping (MEM_InitFromStorage kl m) = Ping (toETCDStorage m)"
  by (simp_all add: ETCD_InitFromStorage_def MEM_InitFromStorage_def lock_defs,
      rule Ping_handle, simp add: toStorageETCD_def, rule Ping_handle, simp add: toETCDStorage_def)

text \<open>They differ on a lock that the client refuses: only the memory lock claims its duration.\<close>

lemma refused_lock:
  assumes "run_state (kl_DistTimedLock kl (t div Second)) w = (Some err, w')" "Second \<le> t"
  shows "run_state (dl_DistributedTimedLock (ETCDLockProvider h kl) t d) w = ((Some err, d), w')"
    and "run_state (dl_DistributedTimedLock (MEMLockProvider kl) t d) w = ((Some err, d\<lparr>lp_Duration := t\<rparr>), w')"
  using assms by (auto simp: lock_defs State_Monad.bind_def State_Monad.return_def)

section \<open>The chain of trust\<close>

definition NewlineToTuple :: "string \<Rightarrow> string" where
  "NewlineToTuple pemStr =
     (let nl = (\<lambda>c. c = CHR 0x0A);
          trimmed = rev (dropWhile nl (rev (dropWhile nl pemStr)))
      in concat (map (\<lambda>c. if nl c then [CHR 0x5C, CHR ''n''] else [c]) trimmed))"

text \<open>
  The goroutine's variables and the globals it writes. The pool of certificates of the
  launcher is named by the bundle it was made of. \<open>ca_lock\<close> is the write lock of
  \<open>rfClientLock\<close>.
\<close>

record 'c CAState =
  ca_prevCaChain :: string
  ca_tdelay :: int
  ca_rfClient :: "'c option"
  ca_CACertPool :: "string option"
  ca_lock :: bool
  ca_RFHttpClient :: "'c option"
  ca_RFTransportReady :: bool

definition SetSecurity :: "string \<Rightarrow> 'c CAState \<Rightarrow> 'c CAState \<times> err option" where
  "SetSecurity bundle s =
     (if bundle = [] then (s, Some ''CA cert bundle required.'')
      else (s\<lparr>ca_CACertPool := Some bundle\<rparr>, None))"

text \<open>One round, with what fetching the chain and making the clients give.\<close>

definition ca_round :: "(err + string) \<times> (err + 'c) \<Rightarrow> 'c CAState \<Rightarrow> 'c CAState" where
  "ca_round env s =
     (let s = s\<lparr>ca_tdelay := 3 * Second\<rparr> in
      case fst env of
        Inl _ \<Rightarrow> s
      | Inr caChain \<Rightarrow>
          if caChain = ca_prevCaChain s then s\<lparr>ca_tdelay := 10 * Second\<rparr>
          else
            (case snd env of
               Inl _ \<Rightarrow> s\<lparr>ca_rfClient := None\<rparr>
             | Inr rfClient \<Rightarrow>
                 (let s = s\<lparr>ca_rfClient := Some rfClient, ca_lock := True\<rparr>;
                      (s, err) = SetSecurity (NewlineToTuple caChain) s
                  in if err \<noteq> None then s\<lparr>ca_lock := False\<rparr>
                     else s\<lparr>ca_prevCaChain := caChain, ca_RFHttpClient := ca_rfClient s, ca_lock := False,
                            ca_RFTransportReady := True\<rparr>)))"

definition ca_run :: "string \<Rightarrow> ((err + string) \<times> (err + 'c)) list \<Rightarrow> 'c CAState \<Rightarrow> 'c CAState" where
  "ca_run caURI rounds s = (if caURI = [] then s else fold ca_round rounds s)"

definition ca_start :: "'c \<Rightarrow> 'c CAState" where
  "ca_start c = \<lparr>ca_prevCaChain = [], ca_tdelay = 0, ca_rfClient = Some c, ca_CACertPool = None, ca_lock = False,
     ca_RFHttpClient = Some c, ca_RFTransportReady = False\<rparr>"

text \<open>The launcher trusts what was fetched last, or nothing was ever fetched.\<close>

definition trust_inv :: "'c CAState \<Rightarrow> bool" where
  "trust_inv s \<longleftrightarrow> \<not> ca_lock s \<and> ca_RFHttpClient s \<noteq> None \<and>
     (if ca_RFTransportReady s then ca_CACertPool s = Some (NewlineToTuple (ca_prevCaChain s)) \<and> NewlineToTuple (ca_prevCaChain s) \<noteq> []
      else ca_CACertPool s = None \<and> ca_prevCaChain s = [])"

lemma trust_inv_round: "trust_inv s \<Longrightarrow> trust_inv (ca_round r s)"
  by (auto simp: trust_inv_def ca_round_def SetSecurity_def Let_def split: sum.splits)

lemma trust_inv_fold: "trust_inv s \<Longrightarrow> trust_inv (fold ca_round rounds s)"
  by (induction rounds arbitrary: s) (auto intro: trust_inv_round)

lemma NewlineToTuple_Nil [simp]: "NewlineToTuple [] = []"
  by (simp add: NewlineToTuple_def)

text \<open>A round in which the chain is fetched and the clients are made leaves its chain trusted.\<close>

lemma ca_round_good:
  assumes "trust_inv s" "NewlineToTuple c \<noteq> []"
  shows "ca_prevCaChain (ca_round (Inr c, Inr cl) s) = c \<and> ca_RFTransportReady (ca_round (Inr c, Inr cl) s)"
  using assms by (auto simp: trust_inv_def ca_round_def SetSecurity_def Let_def split: if_splits)

text \<open>Rounds that fail, or find the same chain, change nothing of what is trusted.\<close>

lemma ca_round_same:
  assumes "trust_inv s" "ca_RFTransportReady s" "fst r \<in> {Inr (ca_prevCaChain s)} \<union> range Inl"
  shows "ca_prevCaChain (ca_round r s) = ca_prevCaChain s \<and> ca_RFTransportReady (ca_round r s)"
  using assms by (auto simp: ca_round_def Let_def)

lemma ca_rounds_same:
  "trust_inv s \<Longrightarrow> ca_RFTransportReady s \<Longrightarrow> (\<And>r. r \<in> set rs \<Longrightarrow> fst r \<in> {Inr (ca_prevCaChain s)} \<union> range Inl) \<Longrightarrow>
   ca_prevCaChain (fold ca_round rs s) = ca_prevCaChain s \<and> ca_RFTransportReady (fold ca_round rs s)"
proof (induction rs arbitrary: s)
  case (Cons r rs)
  have "ca_prevCaChain (ca_round r s) = ca_prevCaChain s \<and> ca_RFTransportReady (ca_round r s)"
    by (rule ca_round_same) (use Cons.prems in auto)
  then show ?case using Cons.IH [OF trust_inv_round [OF Cons.prems(1)], of r] Cons.prems(3) by auto
qed simp

text \<open>The bundle has no line break left.\<close>

lemma NewlineToTuple_no_newline: "CHR 0x0A \<notin> set (NewlineToTuple s)"
  by (auto simp: NewlineToTuple_def Let_def)


text \<open>A chain of line breaks is never trusted: each round tries it again.\<close>

lemma blank_chain_refused:
  assumes "NewlineToTuple c = []" "trust_inv s"
  shows "ca_CACertPool (ca_round (Inr c, r) s) = ca_CACertPool s"
  using assms by (auto simp: ca_round_def SetSecurity_def Let_def split: sum.splits)


end
