(* ===== verification/Shutdown.thy ===== *)
theory Shutdown
  imports Main
begin

text \<open>
  The end of \<^verbatim>\<open>main.go\<close>: \<open>main\<close> after the start of the monitor, the goroutine that waits for
  a signal, and the goroutine of \<open>doRest\<close> that serves requests, as three programs whose
  steps interleave. They share the wait group, the pointer to the server and the channel
  that the handler closes. \<open>Shutdown\<close> and \<open>ListenAndServe\<close> of the Go library are as documented:
  the former stops the listener at once and waits for open connections, the latter then returns.
\<close>

datatype main_pc = M_Start | M_Go | M_Set | M_Wait | M_Idle | M_Done
datatype sig_pc = S_Wait | S_Got | S_Srv | S_Test | S_Shutdown | S_Drain | S_Close | S_End | S_Panic
datatype serve_pc = V_None | V_Listen | V_Serve | V_Return | V_End

record Proc =
  pr_main :: main_pc
  pr_sig :: sig_pc
  pr_serve :: serve_pc
  pr_c :: bool
  pr_Running :: bool
  pr_restSrv :: bool
  pr_waitGroup :: nat
  pr_inShutdown :: bool
  pr_conns :: nat
  pr_idleConnsClosed :: bool

definition boot :: Proc where
  "boot = \<lparr>pr_main = M_Start, pr_sig = S_Wait, pr_serve = V_None, pr_c = False, pr_Running = True, pr_restSrv = False,
     pr_waitGroup = 0, pr_inShutdown = False, pr_conns = 0, pr_idleConnsClosed = False\<rparr>"

text \<open>\<open>main\<close>: \<open>waitGroup.Add\<close>, \<open>doRest\<close> in two steps, and the two waits. \<open>None\<close> is blocked or done.\<close>

definition main_step :: "Proc \<Rightarrow> Proc option" where
  "main_step s =
     (case pr_main s of
        M_Start \<Rightarrow> Some (s\<lparr>pr_waitGroup := pr_waitGroup s + 1, pr_main := M_Go\<rparr>)
      | M_Go \<Rightarrow> Some (s\<lparr>pr_serve := V_Listen, pr_main := M_Set\<rparr>)
      | M_Set \<Rightarrow> Some (s\<lparr>pr_restSrv := True, pr_main := M_Wait\<rparr>)
      | M_Wait \<Rightarrow> (if pr_waitGroup s = 0 then Some (s\<lparr>pr_main := M_Idle\<rparr>) else None)
      | M_Idle \<Rightarrow> (if pr_idleConnsClosed s then Some (s\<lparr>pr_main := M_Done\<rparr>) else None)
      | M_Done \<Rightarrow> None)"

text \<open>
  The handler. It takes one signal from the channel. The server of its first \<open>Shutdown\<close> is
  the one of \<open>main\<close>, which never listens, so that the call returns at once.
\<close>

definition sig_step :: "Proc \<Rightarrow> Proc option" where
  "sig_step s =
     (case pr_sig s of
        S_Wait \<Rightarrow> (if pr_c s then Some (s\<lparr>pr_c := False, pr_sig := S_Got\<rparr>) else None)
      | S_Got \<Rightarrow> Some (s\<lparr>pr_Running := False, pr_sig := S_Srv\<rparr>)
      | S_Srv \<Rightarrow> Some (s\<lparr>pr_sig := S_Test\<rparr>)
      | S_Test \<Rightarrow> Some (s\<lparr>pr_sig := if pr_restSrv s then S_Shutdown else S_Close\<rparr>)
      | S_Shutdown \<Rightarrow> Some (s\<lparr>pr_inShutdown := True, pr_sig := S_Drain\<rparr>)
      | S_Drain \<Rightarrow> (if pr_conns s = 0 then Some (s\<lparr>pr_sig := S_Close\<rparr>) else None)
      | S_Close \<Rightarrow> Some (s\<lparr>pr_idleConnsClosed := True, pr_sig := S_End\<rparr>)
      | S_End \<Rightarrow> None
      | S_Panic \<Rightarrow> None)"

definition serve_step :: "Proc \<Rightarrow> Proc option" where
  "serve_step s =
     (case pr_serve s of
        V_None \<Rightarrow> None
      | V_Listen \<Rightarrow> Some (s\<lparr>pr_serve := if pr_inShutdown s then V_Return else V_Serve\<rparr>)
      | V_Serve \<Rightarrow> (if pr_inShutdown s then Some (s\<lparr>pr_serve := V_Return\<rparr>) else None)
      | V_Return \<Rightarrow> Some (s\<lparr>pr_waitGroup := pr_waitGroup s - 1, pr_serve := V_End\<rparr>)
      | V_End \<Rightarrow> None)"

text \<open>The process runs until \<open>main\<close> returns or the handler panics.\<close>

definition live :: "Proc \<Rightarrow> bool" where
  "live s \<longleftrightarrow> pr_main s \<noteq> M_Done \<and> pr_sig s \<noteq> S_Panic"

text \<open>The steps of the program, to which clients add the end of their requests.\<close>

inductive drain_step :: "Proc \<Rightarrow> Proc \<Rightarrow> bool" where
  main: "live s \<Longrightarrow> main_step s = Some s' \<Longrightarrow> drain_step s s'"
| handler: "live s \<Longrightarrow> sig_step s = Some s' \<Longrightarrow> drain_step s s'"
| serve: "live s \<Longrightarrow> serve_step s = Some s' \<Longrightarrow> drain_step s s'"
| answered: "live s \<Longrightarrow> 0 < pr_conns s \<Longrightarrow> drain_step s (s\<lparr>pr_conns := pr_conns s - 1\<rparr>)"

text \<open>What comes from outside: signals (the channel holds one) and requests.\<close>

inductive normal_step :: "Proc \<Rightarrow> Proc \<Rightarrow> bool" where
  drain: "drain_step s s' \<Longrightarrow> normal_step s s'"
| signal: "live s \<Longrightarrow> normal_step s (s\<lparr>pr_c := True\<rparr>)"
| request: "live s \<Longrightarrow> pr_serve s = V_Serve \<Longrightarrow> \<not> pr_inShutdown s \<Longrightarrow> normal_step s (s\<lparr>pr_conns := pr_conns s + 1\<rparr>)"

text \<open>Failures: the address is in use, the listener fails, or closing it fails.\<close>

inductive proc_step :: "Proc \<Rightarrow> Proc \<Rightarrow> bool" where
  normal: "normal_step s s' \<Longrightarrow> proc_step s s'"
| listen_fails: "live s \<Longrightarrow> pr_serve s \<in> {V_Listen, V_Serve} \<Longrightarrow> proc_step s (s\<lparr>pr_serve := V_Return\<rparr>)"
| shutdown_fails: "live s \<Longrightarrow> pr_sig s = S_Drain \<Longrightarrow> proc_step s (s\<lparr>pr_sig := S_Panic\<rparr>)"

inductive_cases drain_stepE: "drain_step s s'"
inductive_cases normal_stepE: "normal_step s s'"
inductive_cases proc_stepE: "proc_step s s'"

definition reachable :: "Proc \<Rightarrow> bool" where
  "reachable s \<longleftrightarrow> proc_step\<^sup>*\<^sup>* boot s"

section \<open>The invariant\<close>

text \<open>The wait group counts the serving goroutine, the pointer follows the start, and the handler's flags its position.\<close>

definition proc_inv :: "Proc \<Rightarrow> bool" where
  "proc_inv s \<longleftrightarrow>
     pr_waitGroup s = (if pr_main s = M_Start \<or> pr_serve s = V_End then 0 else 1) \<and>
     (pr_serve s = V_None \<longleftrightarrow> pr_main s \<in> {M_Start, M_Go}) \<and>
     (pr_restSrv s \<longleftrightarrow> pr_main s \<in> {M_Wait, M_Idle, M_Done}) \<and>
     (pr_main s \<in> {M_Idle, M_Done} \<longrightarrow> pr_serve s = V_End) \<and>
     (pr_sig s \<in> {S_Shutdown, S_Drain} \<longrightarrow> pr_restSrv s) \<and>
     (pr_inShutdown s \<longrightarrow> pr_restSrv s \<and> pr_sig s \<in> {S_Drain, S_Close, S_End, S_Panic}) \<and>
     (pr_sig s = S_Drain \<longrightarrow> pr_inShutdown s) \<and>
     (pr_Running s \<longleftrightarrow> pr_sig s \<in> {S_Wait, S_Got}) \<and>
     (pr_idleConnsClosed s \<longleftrightarrow> pr_sig s = S_End) \<and>
     (pr_main s = M_Done \<longrightarrow> pr_idleConnsClosed s) \<and>
     (pr_inShutdown s \<and> pr_sig s \<in> {S_Close, S_End} \<longrightarrow> pr_conns s = 0)"

lemmas step_defs = main_step_def sig_step_def serve_step_def

definition ok_after :: "(Proc \<Rightarrow> bool) \<Rightarrow> Proc option \<Rightarrow> bool" where
  "ok_after P r = (case r of None \<Rightarrow> True | Some s' \<Rightarrow> P s')"

lemma ok_after_simps [simp]: "ok_after P None" "ok_after P (Some s) = P s" "ok_after P (if b then r else q) = (if b then ok_after P r else ok_after P q)"
  by (simp_all add: ok_after_def)

lemma ok_afterD: "r = Some s' \<Longrightarrow> ok_after P r \<Longrightarrow> P s'"
  by simp

lemma main_step_inv: "proc_inv s \<Longrightarrow> ok_after proc_inv (main_step s)"
  by (cases "pr_main s"; cases "pr_sig s"; cases "pr_serve s"; auto simp: proc_inv_def main_step_def)

lemma sig_step_inv: "proc_inv s \<Longrightarrow> ok_after proc_inv (sig_step s)"
  by (cases "pr_main s"; cases "pr_sig s"; cases "pr_serve s"; auto simp: proc_inv_def sig_step_def)

lemma serve_step_inv: "proc_inv s \<Longrightarrow> ok_after proc_inv (serve_step s)"
  by (cases "pr_main s"; cases "pr_sig s"; cases "pr_serve s"; auto simp: proc_inv_def serve_step_def)

lemma drain_step_inv: "drain_step s s' \<Longrightarrow> proc_inv s \<Longrightarrow> proc_inv s'"
proof (induction rule: drain_step.induct)
  case (answered s)
  then show ?case by (cases "pr_main s"; cases "pr_sig s"; cases "pr_serve s"; auto simp: proc_inv_def)
qed (blast intro: ok_afterD main_step_inv sig_step_inv serve_step_inv)+

lemma normal_step_inv: "normal_step s s' \<Longrightarrow> proc_inv s \<Longrightarrow> proc_inv s'"
proof (induction rule: normal_step.induct)
  case (drain s s')
  then show ?case by (blast intro: drain_step_inv)
next
  case (signal s)
  then show ?case unfolding proc_inv_def by auto
next
  case (request s)
  then show ?case by (cases "pr_main s"; cases "pr_sig s"; cases "pr_serve s"; simp add: proc_inv_def)
qed

lemma proc_step_inv: "proc_step s s' \<Longrightarrow> proc_inv s \<Longrightarrow> proc_inv s'"
proof (induction rule: proc_step.induct)
  case (listen_fails s)
  then show ?case by (cases "pr_main s"; cases "pr_sig s"; cases "pr_serve s"; auto simp: proc_inv_def live_def)
next
  case (shutdown_fails s)
  then show ?case by (auto simp: proc_inv_def)
qed (rule normal_step_inv)

lemma proc_inv_reachable: "reachable s \<Longrightarrow> proc_inv s"
  unfolding reachable_def
proof (induction rule: rtranclp_induct)
  case base
  then show ?case by (simp add: proc_inv_def boot_def)
next
  case (step s s')
  then show ?case by (blast intro: proc_step_inv)
qed

section \<open>A signal after the start\<close>

text \<open>How far each program is from its end.\<close>

definition distance :: "Proc \<Rightarrow> nat" where
  "distance s =
     (case pr_main s of M_Start \<Rightarrow> 5 | M_Go \<Rightarrow> 4 | M_Set \<Rightarrow> 3 | M_Wait \<Rightarrow> 2 | M_Idle \<Rightarrow> 1 | M_Done \<Rightarrow> 0) +
     (case pr_sig s of S_Wait \<Rightarrow> 7 | S_Got \<Rightarrow> 6 | S_Srv \<Rightarrow> 5 | S_Test \<Rightarrow> 4 | S_Shutdown \<Rightarrow> 3 | S_Drain \<Rightarrow> 2 | S_Close \<Rightarrow> 1
       | S_End \<Rightarrow> 0 | S_Panic \<Rightarrow> 0) +
     (case pr_serve s of V_None \<Rightarrow> 4 | V_Listen \<Rightarrow> 3 | V_Serve \<Rightarrow> 2 | V_Return \<Rightarrow> 1 | V_End \<Rightarrow> 0) + pr_conns s"

lemma drain_step_distance: "drain_step s s' \<Longrightarrow> proc_inv s \<Longrightarrow> distance s' < distance s"
proof (induction rule: drain_step.induct)
  case (main s s')
  have "ok_after (\<lambda>s'. distance s' < distance s) (main_step s)"
    using main.prems by (cases "pr_main s"; cases "pr_sig s"; cases "pr_serve s"; auto simp: proc_inv_def main_step_def distance_def)
  with main show ?case by simp
next
  case (handler s s')
  have "ok_after (\<lambda>s'. distance s' < distance s) (sig_step s)"
    by (cases "pr_sig s"; simp add: sig_step_def distance_def)
  with handler show ?case by simp
next
  case (serve s s')
  have "ok_after (\<lambda>s'. distance s' < distance s) (serve_step s)"
    by (cases "pr_serve s"; simp add: serve_step_def distance_def)
  with serve show ?case by simp
qed (simp add: distance_def)

text \<open>The server can be shut down: the handler has not passed its test, or found the server.\<close>

definition stoppable :: "Proc \<Rightarrow> bool" where
  "stoppable s \<longleftrightarrow> pr_restSrv s \<and> pr_sig s \<noteq> S_Panic \<and> (pr_sig s = S_Wait \<longrightarrow> pr_c s) \<and> (pr_sig s \<in> {S_Close, S_End} \<longrightarrow> pr_inShutdown s)"

lemma stoppable_step: "drain_step s s' \<Longrightarrow> proc_inv s \<Longrightarrow> stoppable s \<Longrightarrow> stoppable s'"
proof (induction rule: drain_step.induct)
  case (main s s')
  have "ok_after stoppable (main_step s)" using main.prems by (cases "pr_main s"; simp add: main_step_def stoppable_def)
  with main show ?case by simp
next
  case (handler s s')
  have "ok_after stoppable (sig_step s)" using handler.prems by (cases "pr_sig s"; simp add: sig_step_def stoppable_def proc_inv_def)
  with handler show ?case by simp
next
  case (serve s s')
  have "ok_after stoppable (serve_step s)" using serve.prems by (cases "pr_serve s"; simp add: serve_step_def stoppable_def)
  with serve show ?case by simp
qed (simp add: stoppable_def)

text \<open>No deadlock: unless \<open>main\<close> has returned, some program can take a step.\<close>

lemma stoppable_progress:
  assumes "proc_inv s" "stoppable s" "pr_main s \<noteq> M_Done"
  shows "\<exists>s'. drain_step s s'"
proof (rule ccontr)
  have l: "live s" using assms(2,3) by (simp add: live_def stoppable_def)
  assume "\<nexists>s'. drain_step s s'"
  then have n: "main_step s = None" "sig_step s = None" "serve_step s = None" "pr_conns s = 0"
    using drain_step.main [OF l] drain_step.handler [OF l] drain_step.serve [OF l] drain_step.answered [OF l]
    by (metis neq0_conv option.exhaust)+
  have "pr_sig s = S_End"
    using n(2,4) assms(2) by (auto simp: sig_step_def stoppable_def split: sig_pc.splits if_splits)
  then have d: "pr_inShutdown s" "pr_idleConnsClosed s" using assms(1,2) by (auto simp: stoppable_def proc_inv_def)
  have "pr_serve s = V_End"
    using n(3) d assms(1,2) by (auto simp: serve_step_def proc_inv_def stoppable_def split: serve_pc.splits if_splits)
  then have "pr_waitGroup s = 0" using assms(1) by (simp add: proc_inv_def)
  then show False using n(1) d assms(3) by (auto simp: main_step_def split: main_pc.splits)
qed

lemma drain_run:
  assumes "(drain_step ^^ n) s s'" "proc_inv s" "stoppable s"
  shows "proc_inv s' \<and> stoppable s' \<and> distance s' + n \<le> distance s"
  using assms
proof (induction n arbitrary: s')
  case (Suc n)
  then obtain t where t: "(drain_step ^^ n) s t" "drain_step t s'" by auto
  with Suc have "proc_inv t" "stoppable t" "distance t + n \<le> distance s" by auto
  with t(2) show ?case using drain_step_inv stoppable_step drain_step_distance [OF t(2)] by fastforce
qed simp

lemma drain_ends: "proc_inv s \<Longrightarrow> \<exists>n s'. (drain_step ^^ n) s s' \<and> (\<nexists>s''. drain_step s' s'')"
proof (induction "distance s" arbitrary: s rule: less_induct)
  case less
  show ?case
  proof (cases "\<exists>t. drain_step s t")
    case True
    then obtain t where t: "drain_step s t" by blast
    with less obtain n s' where "(drain_step ^^ n) t s'" "\<nexists>s''. drain_step s' s''"
      using drain_step_distance drain_step_inv by blast
    with t have "(drain_step ^^ Suc n) s s'" by (intro relpowp_Suc_I2)
    then show ?thesis using \<open>\<nexists>s''. drain_step s' s''\<close> by blast
  next
    case False
    then show ?thesis by (intro exI [of _ 0]) auto
  qed
qed

text \<open>
  C21: a signal that arrives once the server is set stops the process: whatever the order
  of the steps, \<open>main\<close>, the handler and the server take at most twelve steps beside the
  answers to the open requests, they never block each other, and when no step is left \<open>main\<close> has
  returned, no request is open and the server has stopped.
\<close>

theorem shutdown_completes:
  assumes "reachable s" "pr_main s = M_Wait" "pr_sig s = S_Wait" "pr_c s" "(drain_step ^^ n) s s'"
  shows "n \<le> 12 + pr_conns s \<and>
    ((\<nexists>s''. drain_step s' s'') \<longrightarrow> pr_main s' = M_Done \<and> pr_conns s' = 0 \<and> pr_serve s' = V_End \<and> \<not> pr_Running s')"
proof -
  have inv: "proc_inv s" by (rule proc_inv_reachable) fact
  then have st: "stoppable s" using assms by (simp add: stoppable_def proc_inv_def)
  note run = drain_run [OF assms(5) inv st]
  have "distance s \<le> 12 + pr_conns s"
    using assms(2,3) inv by (cases "pr_serve s") (auto simp: distance_def proc_inv_def)
  with run have n: "n \<le> 12 + pr_conns s" by simp
  have "pr_main s' = M_Done" if "\<nexists>s''. drain_step s' s''" using run stoppable_progress that by blast
  moreover have "pr_conns s' = 0 \<and> pr_serve s' = V_End \<and> \<not> pr_Running s'" if "pr_main s' = M_Done"
    using run that by (auto simp: proc_inv_def stoppable_def)
  ultimately show ?thesis using n by blast
qed

section \<open>A signal before the start\<close>

text \<open>
  A handler that finds no server closes the channel and ends; nothing stops the server that
  is started afterwards, and no further signal is read.
\<close>

definition missed :: "Proc \<Rightarrow> bool" where
  "missed s \<longleftrightarrow> pr_sig s \<in> {S_Close, S_End} \<and> \<not> pr_inShutdown s \<and> pr_main s \<noteq> M_Done \<and> pr_serve s \<in> {V_None, V_Listen, V_Serve}"

lemma missed_drain: "drain_step s s' \<Longrightarrow> proc_inv s \<Longrightarrow> missed s \<Longrightarrow> missed s'"
proof (induction rule: drain_step.induct)
  case (main s s')
  have "ok_after missed (main_step s)" using main.prems
    by (cases "pr_main s"; simp add: main_step_def missed_def proc_inv_def; blast)
  with main show ?case by simp
next
  case (handler s s')
  have "ok_after missed (sig_step s)" using handler.prems by (cases "pr_sig s"; simp add: sig_step_def missed_def)
  with handler show ?case by simp
next
  case (serve s s')
  have "ok_after missed (serve_step s)" using serve.prems by (cases "pr_serve s"; simp add: serve_step_def missed_def)
  with serve show ?case by simp
qed (simp add: missed_def)

lemma missed_step: "normal_step s s' \<Longrightarrow> proc_inv s \<Longrightarrow> missed s \<Longrightarrow> missed s'"
  by (induction rule: normal_step.induct) (simp_all add: missed_drain, simp_all add: missed_def)


text \<open>When the address is in use, \<open>main\<close> waits for a signal although nothing is served.\<close>

lemma listen_failure_hangs:
  assumes "proc_inv s" "pr_main s = M_Idle" "pr_sig s = S_Wait" "\<not> pr_c s" "pr_conns s = 0"
  shows "\<not> drain_step s s'"
  using assms by (auto simp: step_defs proc_inv_def elim!: drain_stepE)
section \<open>Examples\<close>

text \<open>A schedule names the program that takes the next step.\<close>

datatype actor = Main | Handler | Serve

fun run_actor :: "actor \<Rightarrow> Proc \<Rightarrow> Proc option" where
  "run_actor Main s = main_step s"
| "run_actor Handler s = sig_step s"
| "run_actor Serve s = serve_step s"

fun run_actors :: "actor list \<Rightarrow> Proc \<Rightarrow> Proc option" where
  "run_actors [] s = Some s"
| "run_actors (a # as) s = (if live s then Option.bind (run_actor a s) (run_actors as) else None)"

lemma act_step: "live s \<Longrightarrow> run_actor a s = Some s' \<Longrightarrow> drain_step s s'"
  by (cases a) (auto intro: drain_step.intros)

lemma acts_steps: "run_actors as s = Some s' \<Longrightarrow> drain_step\<^sup>*\<^sup>* s s'"
proof (induction as arbitrary: s)
  case (Cons a as)
  then obtain t where "live s" "run_actor a s = Some t" "run_actors as t = Some s'" by (auto split: if_splits Option.bind_splits)
  then show ?case using Cons.IH act_step by (blast intro: converse_rtranclp_into_rtranclp)
qed simp

lemma acts_normal: "run_actors as s = Some s' \<Longrightarrow> normal_step\<^sup>*\<^sup>* s s'"
  using acts_steps mono_rtranclp [of drain_step normal_step] normal_step.drain by blast

lemma normal_reachable: "reachable s \<Longrightarrow> normal_step\<^sup>*\<^sup>* s s' \<Longrightarrow> reachable s'"
  unfolding reachable_def using mono_rtranclp [of normal_step proc_step] proc_step.normal by (meson rtranclp_trans)

lemma boot_reachable: "reachable boot"
  by (simp add: reachable_def)

definition serving :: Proc where
  "serving = boot\<lparr>pr_main := M_Wait, pr_serve := V_Serve, pr_restSrv := True, pr_waitGroup := 1\<rparr>"

definition busy :: Proc where
  "busy = serving\<lparr>pr_conns := 1, pr_c := True\<rparr>"

lemma busy_reachable: "reachable busy"
proof -
  have "run_actors [Main, Main, Main, Serve] boot = Some serving"
    by (simp add: step_defs live_def boot_def serving_def)
  then have s: "reachable serving" using normal_reachable [OF boot_reachable acts_normal] by blast
  have "normal_step serving (serving\<lparr>pr_conns := 1\<rparr>)"
    using normal_step.request [of serving] by (simp add: serving_def boot_def live_def)
  moreover have "normal_step (serving\<lparr>pr_conns := 1\<rparr>) busy"
    using normal_step.signal [of "serving\<lparr>pr_conns := 1\<rparr>"] by (simp add: busy_def serving_def boot_def live_def)
  ultimately show ?thesis by (blast intro: normal_reachable [OF s] converse_rtranclp_into_rtranclp)
qed

theorem shutdown_completes_witness:
  "\<exists>n s'. n \<le> 13 \<and> (drain_step ^^ n) busy s' \<and> pr_main s' = M_Done \<and> pr_conns s' = 0"
proof -
  obtain n s' where r: "(drain_step ^^ n) busy s'" "\<nexists>s''. drain_step s' s''"
    using drain_ends [OF proc_inv_reachable [OF busy_reachable]] by blast
  have "n \<le> 12 + pr_conns busy \<and> pr_main s' = M_Done \<and> pr_conns s' = 0"
    using shutdown_completes [OF busy_reachable _ _ _ r(1)] r(2) by (simp add: busy_def serving_def boot_def)
  then show ?thesis using r(1) by (intro exI [of _ n] exI [of _ s']) (simp add: busy_def)
qed

definition deaf :: Proc where
  "deaf = boot\<lparr>pr_sig := S_Close, pr_Running := False\<rparr>"

lemma deaf_reachable: "reachable deaf"
proof -
  have "normal_step boot (boot\<lparr>pr_c := True\<rparr>)" by (rule normal_step.signal) (simp add: live_def boot_def)
  then have "reachable (boot\<lparr>pr_c := True\<rparr>)" by (blast intro: normal_reachable [OF boot_reachable])
  moreover have "run_actors [Handler, Handler, Handler, Handler] (boot\<lparr>pr_c := True\<rparr>) = Some deaf"
    by (simp add: step_defs live_def boot_def deaf_def)
  ultimately show ?thesis using normal_reachable acts_normal by blast
qed


end
