(* ===== verification/Spec2Isabelle.thy ===== *)
theory Spec2Isabelle
  imports WorkerReturns ReaperSafety PowerCapSafety MonitorSafety MasterLiveness ApiSafety Providers Connections Shutdown
begin

text \<open>
  A verification development for the power control service of Cray-HPE (\<^verbatim>\<open>hms-power-control\<close>).

  \<^bold>\<open>The program.\<close> The service switches components of a machine on and off (transitions), caps
  their power, and reports their power status. Several instances run side by side and share a
  key-value store. A handler of the REST interface checks a request, stores a record and starts
  a worker; the worker gathers the state of the components and their ancestors from the
  store and from the hardware state manager (HSM), reserves them, sends Redfish requests through
  a task launcher in the order of the power sequence, waits for the confirmation and stores
  the results. One instance at a time is master of the power status: it synchronises its map
  with HSM, polls the hardware and writes the records that all instances report. Reapers expire
  old records and restart transitions whose worker has died.

  \<^bold>\<open>The world.\<close> \<open>World\<close> models one instance as a state transformer on a world that holds the
  shared store and, as functions of the number of steps taken, what the instance cannot
  choose: the writes of other instances and goroutines before each call of the store, the
  errors of the store, the clock, fresh identifiers and the order of a \<open>range\<close> over a map. A
  theorem for every world covers every interleaving at the grain of calls of the store;
  \<open>quiet\<close> worlds are those without interference and errors. The interfaces \<open>action_inv\<close>
  (what every call keeps), \<open>gives\<close> and \<open>triple\<close> (postconditions) carry the proofs.

  \<^bold>\<open>Theories and sources.\<close>
  \<^item> \<open>Prelude\<close>, \<open>Json\<close>, \<open>World\<close>: strings, maps, shuffles, JSON values, actions and the
    two implementations of the vendored store \<^verbatim>\<open>vendor/.../hms-hmetcd/kvs_etcd.go\<close>.
  \<^item> \<open>Xnames\<close>: component names, their types, parents and validation
    (\<^verbatim>\<open>vendor/.../hms-xname/xnametypes\<close>).
  \<^item> \<open>Model\<close>, \<open>Codec\<close>: \<^verbatim>\<open>internal/model\<close>: transitions, tasks, pages, power status,
    passbacks, and their JSON form; \<open>PowerCapModel\<close>, \<open>PowerCapStore\<close>: the same and the
    storage calls for power capping (\<^verbatim>\<open>power-cap.go\<close>).
  \<^item> \<open>Storage\<close>: \<^verbatim>\<open>internal/storage/storage_etcd_impl.go\<close> and \<^verbatim>\<open>storage_mem_impl.go\<close>: keys, records,
    truncation and paging of large transitions, test-and-set; \<open>Providers\<close>: the interface of
    \<^verbatim>\<open>storage_interface.go\<close> as a record, with both implementations.
  \<^item> \<open>Hsm\<close>: \<^verbatim>\<open>internal/hsm\<close>: inventory, power maps, reservations.
  \<^item> \<open>TransitionSeq\<close>: the power sequence, sequencing of components and Redfish payloads;
    \<open>Reaper\<close>, \<open>Transitions\<close>: the operations of the API, the bookkeeping of tasks, the reaper and
    the keep-alive; \<open>TransitionWorker\<close>: \<open>doTransition\<close> in its phases; all of
    \<^verbatim>\<open>internal/domain/transitions.go\<close>. \<open>WorkerSafety\<close> proves what a run of the worker keeps,
    \<open>HsmContract\<close> what it may rely on in its HSM provider, and \<open>WorkerReturns\<close> that it ends; \<open>Completion\<close> is about its last step, the
    compression of the record; \<open>ReaperSafety\<close> holds the keep-alive thread and what the reapers of
    several instances do to one abandoned transition.
  \<^item> \<open>PowerCap\<close>, \<open>PowerCapSafety\<close>: \<^verbatim>\<open>internal/domain/power-cap.go\<close>.
  \<^item> \<open>MasterElection\<close>, \<open>MasterLiveness\<close>: the election of the master and the locks
    (\<^verbatim>\<open>power-status.go\<close>, \<^verbatim>\<open>distlock_etcd_impl.go\<close>, \<^verbatim>\<open>distlock_mem_impl.go\<close>); \<open>StatusMonitor\<close>,
    \<open>MonitorSafety\<close>: the monitor and the query of \<^verbatim>\<open>power-status.go\<close>.
  \<^item> \<open>CredStore\<close>: \<^verbatim>\<open>internal/credstore\<close>; \<open>Api\<close>, \<open>ApiSafety\<close>: \<^verbatim>\<open>internal/api\<close>; \<open>Startup\<close>:
    \<^verbatim>\<open>cmd/hms-power-control/main.go\<close>, \<^verbatim>\<open>internal/domain/globals.go\<close> and the set-up of the HSM client; \<open>Connections\<close>: the
    connection to the store, the lock providers and the reload of the chain of trust; \<open>Shutdown\<close>: the
    server, the signal handler and the end of \<open>main\<close> as programs whose steps interleave.
  \<^item> this theory: what the monitor advertises and what the worker can carry out.

  Structs are records with the fields of the source, enumerations are datatypes. A Go map is an
  association list whose order of iteration is chosen by the world. A call that may fail
  returns a sum or an optional error; \<open>None\<close> (or \<open>Stuck\<close>) is a panic or a loop that does not
  end. Go integers are unbounded integers except where the code multiplies durations that an
  operator can choose (\<open>Startup\<close>) and where numbers are parsed. Times are nanoseconds.

  \<^bold>\<open>What the theorems show.\<close> Storage: what is written is read back, over pages as well, and
  where it is not; test-and-set is atomic. Sequencing: every action a component is queued for is
  one its state allows, the last one reaches the goal, and the order respects the hierarchy. The
  worker: failed components stay failed and get no request, a failed node protects its module, and
  the worker reaches its end on the HSM client of the service. Its last step deletes the tasks and
  keeps what a client is told of them. Reservations: who is reserved is exactly what the library granted.
  Reapers: they keep the youngest records and never meet a nil entry; of several reapers that find the same abandoned transition one restarts
  it, and a record that its worker keeps alive is left alone. Election: at most one
  instance holds the mastership (a simulation of the code by the protocol), nobody loses it
  within its lease, and a vacant mastership is filled. Monitor: map, store and query agree after
  every round for as long as the monitor runs. Interface: requests that are refused change nothing, what was created is
  found where the answer says. Process: when it starts, which chain of certificates is trusted,
  and that a signal ends it, unless it comes too early. Several theorems state behaviour that
  the code surely does not intend; these are listed as findings.

  \<^bold>\<open>Fuel.\<close> \<open>confirm_loop\<close> and so \<open>doTransition\<close> take fuel; \<open>worker_returns\<close> shows that the number
  of steps in which the clock passes the deadline is enough for the whole worker. \<open>keepAlive_round\<close> takes as fuel the number
  of its retries, which the code does not bound while the store fails. The other retry loops
  of the source are bounded (three rounds), and so are the attempts to open the store (five).
  The search for a restarting ancestor (\<open>parent_loop\<close>) and the connection to Vault
  (\<open>Init_loop\<close>) are partial functions; \<open>soft_restart_returns_iff\<close> and
  \<open>VAULTv0_Init_ends\<close> characterise when they return. All other loops are structural or have
  a measure.

  \<^bold>\<open>Not modelled.\<close> Logging, HTTP and TLS plumbing, dialling etcd and making HTTP clients,
  the profiler hooks, sleeping and tickers (the order and
  number of the steps stand for them). The task launcher, the reservation library, the Vault
  client, the JSON text parser for requests and the UUID parser are arguments of the
  definitions that use them. Data races inside a process are not modelled: a step of the
  world is a whole call of the store.
\<close>

section \<open>What is advertised can be carried out\<close>

text \<open>The operations that one Redfish action stands for.\<close>

definition rf_operations :: "string \<Rightarrow> Operation list" where
  "rf_operations a =
     (if a = ''forceoff'' then [Operation_ForceOff]
      else if a = ''forcerestart'' \<or> a = ''gracefulrestart'' then [Operation_SoftRestart]
      else if a = ''off'' \<or> a = ''gracefulshutdown'' then [Operation_Off, Operation_SoftOff]
      else if a = ''on'' then [Operation_On] else [])"

lemma set_add_rf_action: "set (add_rf_action as rf) = set as \<union> set (rf_operations (to_lower rf))"
  by (auto simp: add_rf_action_def add_action_def rf_operations_def Let_def)

lemma set_add_rf_actions: "set (foldl add_rf_action as rfs) = set as \<union> (\<Union>a \<in> set (map to_lower rfs). set (rf_operations a))"
  by (induction rfs arbitrary: as) (auto simp: set_add_rf_action)

definition offers :: "string list \<Rightarrow> string \<Rightarrow> bool" where
  "offers rfs a \<longleftrightarrow> a \<in> set (map to_lower rfs)"

lemma rf_operations_iff:
  "Operation_On \<in> set (rf_operations a) \<longleftrightarrow> a = ''on''"
  "Operation_Off \<in> set (rf_operations a) \<longleftrightarrow> a = ''off'' \<or> a = ''gracefulshutdown''"
  "Operation_SoftOff \<in> set (rf_operations a) \<longleftrightarrow> a = ''off'' \<or> a = ''gracefulshutdown''"
  "Operation_ForceOff \<in> set (rf_operations a) \<longleftrightarrow> a = ''forceoff''"
  "Operation_SoftRestart \<in> set (rf_operations a) \<longleftrightarrow> a = ''gracefulrestart'' \<or> a = ''forcerestart''"
  "Operation_Init \<notin> set (rf_operations a)" "Operation_HardRestart \<notin> set (rf_operations a)" "Operation_Nil \<notin> set (rf_operations a)"
  by (simp_all add: rf_operations_def)

definition switches :: "string list \<Rightarrow> bool" where
  "switches rfs \<longleftrightarrow> offers rfs ''on'' \<and> (offers rfs ''off'' \<or> offers rfs ''gracefulshutdown'')"

lemma in_base: "op \<in> set (foldl add_rf_action [] rfs) \<longleftrightarrow> (\<exists>a \<in> set (map to_lower rfs). op \<in> set (rf_operations a))"
  by (simp add: set_add_rf_actions)

lemma base_iff:
  "Operation_On \<in> set (foldl add_rf_action [] rfs) \<longleftrightarrow> offers rfs ''on''"
  "Operation_Off \<in> set (foldl add_rf_action [] rfs) \<longleftrightarrow> offers rfs ''off'' \<or> offers rfs ''gracefulshutdown''"
  "Operation_SoftOff \<in> set (foldl add_rf_action [] rfs) \<longleftrightarrow> offers rfs ''off'' \<or> offers rfs ''gracefulshutdown''"
  "Operation_ForceOff \<in> set (foldl add_rf_action [] rfs) \<longleftrightarrow> offers rfs ''forceoff''"
  "Operation_SoftRestart \<in> set (foldl add_rf_action [] rfs) \<longleftrightarrow> offers rfs ''gracefulrestart'' \<or> offers rfs ''forcerestart''"
  "Operation_Init \<notin> set (foldl add_rf_action [] rfs)" "Operation_HardRestart \<notin> set (foldl add_rf_action [] rfs)"
  "Operation_Nil \<notin> set (foldl add_rf_action [] rfs)"
  unfolding in_base offers_def
  by (simp_all only: rf_operations_iff bex_simps simp_thms bex_disj_distrib bex_triv_one_point1 ball_simps ball_triv)

lemma advertised_iff:
  "op \<in> set (pcs_actions rfs) \<longleftrightarrow> (case op of
      Operation_On \<Rightarrow> offers rfs ''on''
    | Operation_Off \<Rightarrow> offers rfs ''off'' \<or> offers rfs ''gracefulshutdown''
    | Operation_SoftOff \<Rightarrow> offers rfs ''off'' \<or> offers rfs ''gracefulshutdown''
    | Operation_ForceOff \<Rightarrow> offers rfs ''forceoff''
    | Operation_Init \<Rightarrow> switches rfs
    | Operation_HardRestart \<Rightarrow> switches rfs
    | Operation_SoftRestart \<Rightarrow> offers rfs ''gracefulrestart'' \<or> offers rfs ''forcerestart'' \<or> switches rfs
    | Operation_Nil \<Rightarrow> False)"
  unfolding pcs_actions_def Let_def switches_def using base_iff [of rfs] by (cases op) auto

lemma Operation_String_inj: "Operation_String op = Operation_String op' \<Longrightarrow> op = op'"
  by (cases op; cases op') simp_all

lemma names_advertised:
  assumes "Operation_String op = Some n"
  shows "n \<in> set (toPCSPowerActions rfs) \<longleftrightarrow> op \<in> set (pcs_actions rfs)"
proof -
  have "n \<in> set (List.map_filter Operation_String ops) \<longleftrightarrow> op \<in> set ops" for ops
  proof (induction ops)
    case (Cons q qs)
    have "Operation_String q = Some n \<longleftrightarrow> q = op" using assms Operation_String_inj [of q op] by auto
    with Cons show ?case by (cases "Operation_String q") (auto simp: List.map_filter_simps)
  qed (simp add: List.map_filter_simps)
  then show ?thesis by (simp add: toPCSPowerActions_def)
qed

lemma has_lower_action: "has_action a (lower_actions rfs) \<longleftrightarrow> offers rfs a"
proof -
  have "map_of (foldl (\<lambda>m a. AList.update (to_lower a) a m) m rfs) a \<noteq> None \<longleftrightarrow> map_of m a \<noteq> None \<or> offers rfs a" for m
    by (induction rfs arbitrary: m) (auto simp: offers_def)
  from this [of "[]"] show ?thesis by (simp add: has_action_def lower_actions_def)
qed

lemma payload_offered:
  assumes "GetHMSType x \<noteq> CabinetPDUPowerConnector"
  shows "(\<exists>body. generateTransitionPayload x fqdn (lower_actions rfs) a = Inr body) \<longleftrightarrow>
    offers rfs a \<or> a = ''gracefulshutdown'' \<and> offers rfs ''off'' \<or> a = ''gracefulrestart'' \<and> offers rfs ''forcerestart''"
  using payload_built_iff [OF assms] by (simp add: has_lower_action)

text \<open>The actions a new task can be queued for.\<close>

definition first_actions :: "Operation \<Rightarrow> string list" where
  "first_actions op = (case op of Operation_On \<Rightarrow> [''on''] | Operation_Off \<Rightarrow> [''gracefulshutdown''] | Operation_SoftOff \<Rightarrow> [''gracefulshutdown'']
     | Operation_ForceOff \<Rightarrow> [''forceoff''] | Operation_Nil \<Rightarrow> [] | _ \<Rightarrow> [''gracefulshutdown'', ''on''])"

lemma seq_first_actions:
  assumes "seq_operation acts op x psf c = Some (c', acs)" "a \<in> set acs"
    "tt_State (co_Task c) = TaskState_GatherData" "tt_Operation (co_Task c) = op"
  shows "a \<in> set (first_actions op) \<or> op = Operation_SoftRestart \<and> a = ''gracefulrestart'' \<and>
    (has_action ''gracefulrestart'' (co_Actions c) \<or> has_action ''forcerestart'' (co_Actions c))"
  using assms
  by (cases op)
    (simp_all add: seq_operation_def seq_soft_restart_def seq_hard_restart_def seq_init_def first_actions_def plan_def already_def
      finish_def fail_def Let_def split: if_splits Option.bind_splits, auto)


section \<open>Examples\<close>

definition node_offering :: "string list \<Rightarrow> Operation \<Rightarrow> TransitionComponent" where
  "node_offering rfs op = sample_comp\<lparr>co_Task := (co_Task sample_comp)\<lparr>tt_Operation := op\<rparr>,
     co_PState := Some ((sample_power ''on'' ''x0c0s0b0n0'')\<lparr>ps_SupportedPowerTransitions := toPCSPowerActions rfs\<rparr>),
     co_Actions := lower_actions rfs\<rparr>"


text \<open>A node that can be restarted by force but not switched: the soft restart that is advertised has no payload.\<close>

lemma restart_only_stuck:
  "''Soft-Restart'' \<in> set (toPCSPowerActions [''ForceRestart''])"
  "map_option ss_Actions (sequence_component (\<lambda>_. None) Operation_SoftRestart ''x0c0s0b0n0''
     (node_offering [''ForceRestart''] Operation_SoftRestart)) = Some [''gracefulshutdown'', ''on'']"
  "generateTransitionPayload ''x0c0s0b0n0'' ''x0c0s0b0'' (lower_actions [''ForceRestart'']) ''gracefulshutdown'' =
     Inl (payload_error ''x0c0s0b0n0'')"
  by code_simp+

end
